(* ===== verification/GQ_Prelude.thy ===== *)
theory GQ_Prelude
  imports Complex_Main "HOL-Library.Word" "HOL-Library.AList" "HOL-Library.Multiset"
begin

text \<open>
  Shared vocabulary of the development: the Go types the components use (64-bit
  signed integers with wrap-around, instants and durations in nanoseconds, byte
  strings, UUIDs, maps as association lists), the two loop shapes several
  components share (a bounded scan, an indexed counter), and the lemma collections
  that the component theories fill.
\<close>

section \<open>Lemma collections\<close>

named_theorems store_laws "facts about one call of a store operation"
named_theorems gomap_simps "lookup after update and delete on association lists"

section \<open>Go's base types\<close>

text \<open>
  \<open>int\<close> and \<open>time.Duration\<close> are 64-bit two's complement values. They are kept as
  HOL integers and every arithmetic result goes through \<open>wrap64\<close>, which is the
  value of the same bits read as a signed 64-bit word.
\<close>

type_synonym duration = int
type_synonym instant = int
type_synonym bytes = "char list"
type_synonym uuid = "128 word"

definition wrap64 :: "int \<Rightarrow> int" where
  "wrap64 k = signed_take_bit 63 k"

definition int64_range :: "int \<Rightarrow> bool" where
  "int64_range k \<longleftrightarrow> - (2 ^ 63) \<le> k \<and> k < 2 ^ 63"

lemma wrap64_word: "wrap64 k = sint (word_of_int k :: 64 word)"
  by (simp add: wrap64_def sint_sbintrunc')

lemma wrap64_id [simp]: "int64_range k \<Longrightarrow> wrap64 k = k"
  by (simp add: wrap64_def int64_range_def signed_take_bit_int_eq_self)

lemma int64_range_wrap64 [simp]: "int64_range (wrap64 k)"
  using signed_take_bit_int_greater_eq_minus_exp [of 63 k]
    signed_take_bit_int_less_exp [of 63 k]
  by (simp add: int64_range_def wrap64_def)

text \<open>
  The constants of package \<open>time\<close>, and the zero instant: an instant is the number
  of nanoseconds since Go's zero time, so \<open>Time.IsZero\<close> is equality with 0.
\<close>

abbreviation (input) Millisecond :: duration where "Millisecond \<equiv> 1000000"
abbreviation (input) Second :: duration where "Second \<equiv> 1000000000"
abbreviation (input) Minute :: duration where "Minute \<equiv> 60000000000"
abbreviation (input) Hour :: duration where "Hour \<equiv> 3600000000000"

definition IsZero :: "instant \<Rightarrow> bool" where
  "IsZero t \<longleftrightarrow> t = 0"

text \<open>
  A clock gives the readings of \<open>time.Now()\<close> in one call of an operation, numbered
  in program order; \<open>later n clk\<close> is what a callee sees after \<open>n\<close> readings.
\<close>

type_synonym clock = "nat \<Rightarrow> instant"

definition later :: "nat \<Rightarrow> clock \<Rightarrow> clock" where
  "later n clk = (\<lambda>i. clk (n + i))"

lemma later_apply [simp]: "later n clk i = clk (n + i)"
  by (simp add: later_def)

text \<open>\<open>Time.Sub\<close> saturates at the bounds of a duration.\<close>

definition time_Sub :: "instant \<Rightarrow> instant \<Rightarrow> duration" where
  "time_Sub t u = max (- (2 ^ 63)) (min (2 ^ 63 - 1) (t - u))"

text \<open>A Go call either returns or panics.\<close>

datatype 'a go_result = Returns 'a | Panics string

section \<open>Go maps as association lists\<close>

type_synonym ('k, 'v) gomap = "('k \<times> 'v) list"

abbreviation keys_distinct :: "('k, 'v) gomap \<Rightarrow> bool" where
  "keys_distinct m \<equiv> distinct (map fst m)"

lemma map_of_update [simp, gomap_simps]:
  "map_of (AList.update k v m) = (map_of m)(k \<mapsto> v)"
  by (simp add: update_conv')

lemma map_of_delete [simp, gomap_simps]:
  "map_of (AList.delete k m) = (map_of m)(k := None)"
  by (simp add: delete_conv')

lemma keys_distinct_update [simp]: "keys_distinct m \<Longrightarrow> keys_distinct (AList.update k v m)"
  by (rule distinct_update)

lemma keys_distinct_delete [simp]: "keys_distinct m \<Longrightarrow> keys_distinct (AList.delete k m)"
  by (rule distinct_delete)

text \<open>
  \<open>for range\<close> over a map visits its entries in an order the language leaves open.
  An operation that ranges over a map takes that order as an argument, a function
  that permutes the entries.
\<close>

type_synonym ('k, 'v) range_order = "('k, 'v) gomap \<Rightarrow> ('k, 'v) gomap"

definition permutes_entries :: "('k, 'v) range_order \<Rightarrow> bool" where
  "permutes_entries ord \<longleftrightarrow> (\<forall>m. mset (ord m) = mset m)"

lemma permutes_entriesD:
  assumes "permutes_entries ord"
  shows "mset (ord m) = mset m" and "set (ord m) = set m"
  using assms unfolding permutes_entries_def by (auto dest: mset_eq_setD)

lemma permutes_entries_id: "permutes_entries (\<lambda>m. m)"
  by (simp add: permutes_entries_def)

lemma permutes_entries_rev: "permutes_entries rev"
  by (simp add: permutes_entries_def)

lemma permutes_entries_distinct:
  assumes "permutes_entries ord" and "keys_distinct m"
  shows "keys_distinct (ord m)"
proof -
  have "mset (map fst (ord m)) = mset (map fst m)"
    using permutes_entriesD(1)[OF assms(1), of m] by simp
  with assms(2) show ?thesis
    by (metis mset_eq_imp_distinct_iff)
qed

lemma find_Some_holds: "find p xs = Some x \<Longrightarrow> p x \<and> x \<in> set xs"
  by (induction xs) (auto split: if_splits)

section \<open>The bounded scan\<close>

text \<open>
  The loop shape of the two in-memory scans: test the element, append it when it
  matches, then stop once the result holds \<open>limit\<close> elements.
\<close>

fun scan_upto :: "('a \<Rightarrow> bool) \<Rightarrow> int \<Rightarrow> 'a list \<Rightarrow> 'a list \<Rightarrow> 'a list" where
  "scan_upto p limit [] result = result"
| "scan_upto p limit (x # xs) result =
     (let result' = (if p x then result @ [x] else result)
      in if int (length result') \<ge> limit then result' else scan_upto p limit xs result')"

lemma scan_upto_append:
  assumes "int (length result) < limit"
  shows "scan_upto p limit xs result = result @ take (nat limit - length result) (filter p xs)"
  using assms
proof (induction xs arbitrary: result)
  case Nil
  then show ?case by simp
next
  case (Cons x xs)
  show ?case
  proof (cases "p x")
    case True
    show ?thesis
    proof (cases "int (length (result @ [x])) \<ge> limit")
      case True
      with Cons.prems have "nat limit - length result = Suc 0" by simp
      with True \<open>p x\<close> show ?thesis by simp
    next
      case False
      then have step: "nat limit - length result = Suc (nat limit - length (result @ [x]))"
        by simp
      have "scan_upto p limit (x # xs) result = scan_upto p limit xs (result @ [x])"
        using False \<open>p x\<close> by simp
      also have "\<dots> = (result @ [x]) @ take (nat limit - length (result @ [x])) (filter p xs)"
        using False by (intro Cons.IH) simp
      finally show ?thesis using step \<open>p x\<close> by simp
    qed
  next
    case False
    with Cons show ?thesis by simp
  qed
qed

lemma scan_upto_take:
  "0 < limit \<Longrightarrow> scan_upto p limit xs [] = take (nat limit) (filter p xs)"
  using scan_upto_append [of "[]" limit p xs] by simp

lemma scan_upto_prefix: "\<exists>n. scan_upto p limit xs result = result @ take n (filter p xs)"
proof (induction xs arbitrary: result)
  case Nil
  then show ?case by simp
next
  case (Cons x xs)
  let ?result = "if p x then result @ [x] else result"
  show ?case
  proof (cases "int (length ?result) \<ge> limit")
    case True
    then have "scan_upto p limit (x # xs) result =
        result @ take (if p x then 1 else 0) (filter p (x # xs))"
      by simp
    then show ?thesis by blast
  next
    case False
    then have step: "scan_upto p limit (x # xs) result = scan_upto p limit xs ?result"
      by simp
    from Cons [of ?result] obtain n
      where "scan_upto p limit xs ?result = ?result @ take n (filter p xs)" ..
    with step have "scan_upto p limit (x # xs) result =
        result @ take (if p x then Suc n else n) (filter p (x # xs))"
      by simp
    then show ?thesis by blast
  qed
qed

text \<open>
  The other bounded loop: it tests the room left before it looks at the next element.
\<close>

fun scan_while :: "('a \<Rightarrow> bool) \<Rightarrow> int \<Rightarrow> 'a list \<Rightarrow> 'a list \<Rightarrow> 'a list" where
  "scan_while p limit [] result = result"
| "scan_while p limit (x # xs) result =
     (if int (length result) < limit
      then scan_while p limit xs (if p x then result @ [x] else result)
      else result)"

lemma scan_while_append:
  "scan_while p limit xs result = result @ take (nat (limit - int (length result))) (filter p xs)"
proof (induction xs arbitrary: result)
  case Nil
  then show ?case by simp
next
  case (Cons x xs)
  have "nat (limit - int (length result)) = Suc (nat (limit - int (length (result @ [x]))))"
    if "int (length result) < limit"
    using that by simp
  then show ?case using Cons.IH by (cases "p x") auto
qed

lemma scan_while_take: "scan_while p limit xs [] = take (nat limit) (filter p xs)"
  by (simp add: scan_while_append)

lemma distinct_map_filter_take:
  "distinct (map f xs) \<Longrightarrow> distinct (map f (take n (filter p xs)))"
  by (metis distinct_map_filter distinct_take take_map)

lemma mset_filter_map_snd:
  assumes "permutes_entries ord"
  shows "mset (filter p (map snd (ord m))) = mset (filter p (map snd m))"
  using permutes_entriesD(1)[OF assms, of m] by (metis mset_filter mset_map)

lemma length_filter_map_snd:
  assumes "permutes_entries ord"
  shows "length (filter p (map snd (ord m))) = length (filter p (map snd m))"
  using mset_filter_map_snd[OF assms, of p m] by (metis size_mset)

end
