(* ===== verification/GQ_Float.thy ===== *)
theory GQ_Float
  imports GQ_Prelude "HOL-Library.Log_Nat"
begin

text \<open>
  The part of \<open>float64\<close> that the backoff computation and the progress reports use:
  IEEE-754 binary64 values with rounding to nearest, ties to even, conversion from and
  to \<open>int64\<close>, multiplication, and \<open>math.Pow\<close> at integer-valued exponents (the only
  exponents the program passes). The sign of zero is not kept.
\<close>

section \<open>Values and rounding\<close>

datatype float64 = Fin rat | Inf bool | NaN

text \<open>\<open>Inf True\<close> is negative infinity.\<close>

definition pow2 :: "int \<Rightarrow> rat" where
  "pow2 e = (if 0 \<le> e then 2 ^ nat e else 1 / 2 ^ nat (- e))"

lemma pow2_pos [simp]: "0 < pow2 e"
  by (simp add: pow2_def)

lemma pow2_powi: "pow2 e = 2 powi e"
  by (simp add: pow2_def power_int_def inverse_eq_divide power_one_over)

lemma pow2_add: "pow2 (a + b) = pow2 a * pow2 b"
  by (simp add: pow2_powi power_int_add)

lemma pow2_less: "a < b \<Longrightarrow> pow2 a < pow2 b"
  by (simp add: pow2_powi power_int_strict_increasing)

lemma pow2_less_iff [simp]: "pow2 a < pow2 b \<longleftrightarrow> a < b"
  using pow2_less [of a b] pow2_less [of b a] by (cases a b rule: linorder_cases) auto

definition round_half_even :: "rat \<Rightarrow> int" where
  "round_half_even q =
     (let f = \<lfloor>q\<rfloor>; d = q - of_int f
      in if d < 1 / 2 then f
         else if d > 1 / 2 then f + 1
         else if even f then f else f + 1)"

lemma round_half_even_int [simp]: "round_half_even (of_int k) = k"
  by (simp add: round_half_even_def)

text \<open>
  The binary exponent of a nonzero rational, from the bit lengths of its numerator
  and denominator; it is the floor of the base-2 logarithm of the magnitude.
\<close>

definition exponent_of :: "rat \<Rightarrow> int" where
  "exponent_of q =
     (let (n, d) = quotient_of \<bar>q\<bar>;
          k = int (floorlog 2 (nat n)) - int (floorlog 2 (nat d))
      in if pow2 k \<le> \<bar>q\<bar> then k else k - 1)"

definition round64 :: "rat \<Rightarrow> float64" where
  "round64 q =
     (if q = 0 then Fin 0
      else let u = max (exponent_of q - 52) (- 1074);
               r = of_int (round_half_even (q / pow2 u)) * pow2 u
           in if \<bar>r\<bar> \<ge> pow2 1024 then Inf (r < 0) else Fin r)"

lemma floorlog_bounds:
  assumes "0 < (x :: nat)"
  shows "2 ^ (floorlog 2 x - 1) \<le> x" and "x < 2 ^ floorlog 2 x" and "0 < floorlog 2 x"
proof -
  show "0 < floorlog 2 x" using assms by (simp add: floorlog_def)
  show "2 ^ (floorlog 2 x - 1) \<le> x" and "x < 2 ^ floorlog 2 x"
    using floorlog_bounds [of x 2] assms by auto
qed

lemma exponent_of_le:
  assumes "q \<noteq> 0"
  shows "pow2 (exponent_of q) \<le> \<bar>q\<bar>"
proof -
  obtain n d where nd: "quotient_of \<bar>q\<bar> = (n, d)" by (cases "quotient_of \<bar>q\<bar>")
  let ?a = "floorlog 2 (nat n)" and ?b = "floorlog 2 (nat d)"
  have d: "0 < d" using nd by (rule quotient_of_denom_pos)
  have q: "\<bar>q\<bar> = of_int n / of_int d" using nd by (rule quotient_of_div)
  have n: "0 < n"
    using assms q d by (metis abs_le_zero_iff divide_le_0_iff linorder_not_less of_int_0_le_iff
        of_int_le_0_iff order_less_imp_le)
  note bn = floorlog_bounds [of "nat n"] and bd = floorlog_bounds [of "nat d"]
  have "2 ^ (?a - 1) \<le> nat n" using bn(1) n by simp
  then have A: "(2 :: rat) ^ (?a - 1) \<le> of_int n"
    using n by (metis of_int_le_iff of_int_numeral of_int_power of_nat_le_iff of_nat_nat
        of_nat_numeral of_nat_power order_less_imp_le)
  have "nat d < 2 ^ ?b" using bd(2) d by simp
  then have B: "of_int d < (2 :: rat) ^ ?b"
    using d by (metis of_int_less_iff of_int_numeral of_int_power of_nat_less_iff of_nat_nat
        of_nat_numeral of_nat_power order_less_imp_le)
  have "pow2 (int ?a - int ?b - 1) = 2 ^ (?a - 1) / 2 ^ ?b"
    using bn(3) n by (simp add: pow2_powi power_int_diff power_diff)
  also have "\<dots> \<le> of_int n / of_int d"
    using A B d n by (intro frac_le) auto
  finally have "pow2 (int ?a - int ?b - 1) \<le> \<bar>q\<bar>" by (simp add: q)
  then show ?thesis by (simp add: exponent_of_def nd Let_def)
qed

text \<open>A value with at most 53 significant bits in the exponent range is not rounded.\<close>

lemma round64_exact:
  assumes "\<bar>m\<bar> < 2 ^ 53" and "- 1074 \<le> e" and "\<bar>of_int m * pow2 e\<bar> < pow2 1024"
  shows "round64 (of_int m * pow2 e) = Fin (of_int m * pow2 e)"
proof (cases "m = 0")
  case True
  then show ?thesis by (simp add: round64_def)
next
  case False
  let ?q = "of_int m * pow2 e"
  let ?u = "max (exponent_of ?q - 52) (- 1074)"
  have q0: "?q \<noteq> 0" using False by (simp add: less_imp_neq [OF pow2_pos, symmetric])
  have m: "\<bar>of_int m\<bar> < pow2 53"
  proof -
    have "of_int \<bar>m\<bar> < (of_int (2 ^ 53) :: rat)" using assms(1) by (simp only: of_int_less_iff)
    then show ?thesis by (simp add: pow2_def)
  qed
  have "pow2 (exponent_of ?q) \<le> \<bar>of_int m\<bar> * pow2 e"
    using exponent_of_le [OF q0] by (simp add: abs_mult abs_of_pos)
  also have "\<dots> < pow2 53 * pow2 e" using m by simp
  finally have "exponent_of ?q < 53 + e" by (simp flip: pow2_add)
  with assms(2) have u: "?u \<le> e" by simp
  have "?q / pow2 ?u = of_int m * pow2 (e - ?u)"
    by (simp add: pow2_powi power_int_diff)
  also have "\<dots> = of_int (m * 2 ^ nat (e - ?u))" using u by (simp add: pow2_def)
  finally have div: "?q / pow2 ?u = of_int (m * 2 ^ nat (e - ?u))" .
  have "of_int (round_half_even (?q / pow2 ?u)) * pow2 ?u = ?q / pow2 ?u * pow2 ?u"
    unfolding div by (simp only: round_half_even_int)
  also have "\<dots> = ?q" using less_imp_neq [OF pow2_pos [of ?u]] by simp
  finally show ?thesis using q0 assms(3) by (simp add: round64_def Let_def)
qed

lemma round64_int_exact:
  "\<bar>m\<bar> < 2 ^ 53 \<Longrightarrow> round64 (of_int m) = Fin (of_int m)"
proof -
  assume m: "\<bar>m\<bar> < 2 ^ 53"
  have "of_int \<bar>m\<bar> < (of_int (2 ^ 1024) :: rat)"
    using order.strict_trans [OF m, of "2 ^ 1024"] by (simp only: of_int_less_iff) simp
  then show ?thesis using round64_exact [of m 0] m by (simp add: pow2_def)
qed

section \<open>Operations\<close>

definition float_of_int :: "int \<Rightarrow> float64" where
  "float_of_int k = round64 (of_int k)"

fun fmul :: "float64 \<Rightarrow> float64 \<Rightarrow> float64" where
  "fmul (Fin a) (Fin b) = round64 (a * b)"
| "fmul (Fin a) (Inf n) = (if a = 0 then NaN else Inf (n \<noteq> (a < 0)))"
| "fmul (Inf n) (Fin a) = (if a = 0 then NaN else Inf (n \<noteq> (a < 0)))"
| "fmul (Inf m) (Inf n) = Inf (m \<noteq> n)"
| "fmul _ _ = NaN"

text \<open>
  \<open>math.Pow (x, y)\<close> for an integer-valued \<open>y\<close>: the power, rounded once, with the
  documented special cases (\<open>Pow(x, 0) = 1\<close> for every \<open>x\<close>, \<open>Pow(0, y) = +Inf\<close>
  for negative \<open>y\<close>, infinities by the parity of \<open>y\<close>).
\<close>

text \<open>Division; dividing by zero gives an infinity or NaN.\<close>

fun fdiv :: "float64 \<Rightarrow> float64 \<Rightarrow> float64" where
  "fdiv NaN y = NaN"
| "fdiv x NaN = NaN"
| "fdiv (Inf a) (Inf b) = NaN"
| "fdiv (Inf a) (Fin y) = Inf (a \<noteq> (y < 0))"
| "fdiv (Fin x) (Inf b) = Fin 0"
| "fdiv (Fin x) (Fin y) =
     (if y = 0 then (if x = 0 then NaN else Inf (x < 0)) else round64 (x / y))"

definition pow_int :: "float64 \<Rightarrow> int \<Rightarrow> float64" where
  "pow_int x k =
     (if k = 0 then Fin 1
      else case x of
        NaN \<Rightarrow> NaN
      | Inf n \<Rightarrow> (if 0 < k then Inf (n \<and> odd k) else Fin 0)
      | Fin q \<Rightarrow>
          (if q = 0 then (if 0 < k then Fin 0 else Inf False)
           else if 0 < k then round64 (q ^ nat k)
           else round64 (1 / q ^ nat (- k))))"

fun math_Pow :: "float64 \<Rightarrow> float64 \<Rightarrow> float64" where
  "math_Pow x (Fin y) = pow_int x \<lfloor>y\<rfloor>"
| "math_Pow x (Inf n) = NaN"
| "math_Pow x NaN = NaN"

text \<open>
  Conversion to \<open>int64\<close> drops the fraction. For a value outside the range Go leaves
  the result to the implementation; \<open>cvt\<close> is that choice.
\<close>

definition trunc_rat :: "rat \<Rightarrow> int" where
  "trunc_rat q = (if q < 0 then \<lceil>q\<rceil> else \<lfloor>q\<rfloor>)"

fun int_of_float :: "(float64 \<Rightarrow> int) \<Rightarrow> float64 \<Rightarrow> int" where
  "int_of_float cvt (Fin q) = (if int64_range (trunc_rat q) then trunc_rat q else cvt (Fin q))"
| "int_of_float cvt x = cvt x"

lemma int_of_float_range:
  "(\<And>x. int64_range (cvt x)) \<Longrightarrow> int64_range (int_of_float cvt y)"
  by (cases y) auto

text \<open>The choice of the amd64 instruction: the smallest 64-bit integer.\<close>

definition cvt_amd64 :: "float64 \<Rightarrow> int" where
  "cvt_amd64 x = - (2 ^ 63)"

text \<open>The choice of the arm64 instruction: saturation, and 0 for NaN.\<close>

fun cvt_arm64 :: "float64 \<Rightarrow> int" where
  "cvt_arm64 (Fin q) = (if q < 0 then - (2 ^ 63) else 2 ^ 63 - 1)"
| "cvt_arm64 (Inf n) = (if n then - (2 ^ 63) else 2 ^ 63 - 1)"
| "cvt_arm64 NaN = 0"

lemma int64_range_cvt [simp]: "int64_range (cvt_amd64 x)" "int64_range (cvt_arm64 x)"
  by (simp_all add: cvt_amd64_def int64_range_def) (cases x; simp)

end
