(* ===== verification/GQ_Errors.thy ===== *)
theory GQ_Errors
  imports GQ_Prelude
begin

text \<open>
  Error values and their classification (\<open>core/errors.go\<close>): the sentinel errors, the
  typed errors with their messages and wrapped causes, and \<open>ClassifyError\<close> and
  \<open>IsRetriable\<close>, which decide from the whole chain of wrapped errors.
\<close>

section \<open>Error values\<close>

text \<open>
  The sentinels compare by identity, so each is a constructor of its own.
  \<open>ErrorString\<close> is an error of package \<open>errors\<close> or \<open>fmt\<close> that wraps nothing,
  \<open>WrapError\<close> is \<open>fmt.Errorf\<close> with one \<open>%w\<close> (its text, then the wrapped error)
  and \<open>JoinError\<close> is \<open>errors.Join\<close>.
\<close>

datatype gerror =
    ErrJobNotFound
  | ErrJobAlreadyExists
  | ErrJobNotCancellable
  | ErrQueueFull
  | ErrShuttingDown
  | ErrRateLimited
  | DeadlineExceeded
  | Canceled
  | TemporaryError string "gerror option"
  | PermanentError string "gerror option"
  | TimeoutError string
  | RateLimitError string int
  | ValidationError string string
  | ErrorString string
  | WrapError string gerror
  | JoinError "gerror list"

fun newline_join :: "string list \<Rightarrow> string" where
  "newline_join [] = []"
| "newline_join [s] = s"
| "newline_join (s # ss) = s @ [CHR 0x0A] @ newline_join ss"

fun Error :: "gerror \<Rightarrow> string" where
  "Error ErrJobNotFound = ''job not found''"
| "Error ErrJobAlreadyExists = ''job already exists''"
| "Error ErrJobNotCancellable = ''job cannot be cancelled in current state''"
| "Error ErrQueueFull = ''job queue is full''"
| "Error ErrShuttingDown = ''system is shutting down''"
| "Error ErrRateLimited = ''rate limit exceeded''"
| "Error DeadlineExceeded = ''context deadline exceeded''"
| "Error Canceled = ''context canceled''"
| "Error (TemporaryError msg None) = msg"
| "Error (TemporaryError msg (Some u)) = msg @ '': '' @ Error u"
| "Error (PermanentError msg None) = msg"
| "Error (PermanentError msg (Some u)) = msg @ '': '' @ Error u"
| "Error (TimeoutError msg) = msg"
| "Error (RateLimitError msg retry_in) = msg"
| "Error (ValidationError field msg) = ''validation error on '' @ field @ '': '' @ msg"
| "Error (ErrorString s) = s"
| "Error (WrapError s e) = s @ Error e"
| "Error (JoinError es) = newline_join (map Error es)"

fun Unwrap :: "gerror \<Rightarrow> gerror list" where
  "Unwrap (TemporaryError msg u) = (case u of None \<Rightarrow> [] | Some e \<Rightarrow> [e])"
| "Unwrap (PermanentError msg u) = (case u of None \<Rightarrow> [] | Some e \<Rightarrow> [e])"
| "Unwrap (WrapError s e) = [e]"
| "Unwrap (JoinError es) = es"
| "Unwrap _ = []"

text \<open>
  \<open>errors.Is\<close> and \<open>errors.As\<close> walk the error, then each error it wraps, in
  pre-order; \<open>chain\<close> is the list of errors in that order.
\<close>

fun chain :: "gerror \<Rightarrow> gerror list" where
  "chain (TemporaryError msg (Some u)) = TemporaryError msg (Some u) # chain u"
| "chain (PermanentError msg (Some u)) = PermanentError msg (Some u) # chain u"
| "chain (WrapError s e) = WrapError s e # chain e"
| "chain (JoinError es) = JoinError es # concat (map chain es)"
| "chain e = [e]"

lemma chain_unfold: "chain e = e # concat (map chain (Unwrap e))"
  by (cases e rule: chain.cases) auto

lemma chain_self [simp]: "e \<in> set (chain e)"
  by (subst chain_unfold) simp

definition errors_Is :: "gerror \<Rightarrow> gerror \<Rightarrow> bool" where
  "errors_Is e target \<longleftrightarrow> target \<in> set (chain e)"

definition errors_As :: "(gerror \<Rightarrow> bool) \<Rightarrow> gerror \<Rightarrow> gerror option" where
  "errors_As is_type e = find is_type (chain e)"

fun is_TemporaryError :: "gerror \<Rightarrow> bool" where
  "is_TemporaryError (TemporaryError _ _) = True"
| "is_TemporaryError _ = False"

fun is_PermanentError :: "gerror \<Rightarrow> bool" where
  "is_PermanentError (PermanentError _ _) = True"
| "is_PermanentError _ = False"

fun is_TimeoutError :: "gerror \<Rightarrow> bool" where
  "is_TimeoutError (TimeoutError _) = True"
| "is_TimeoutError _ = False"

fun is_RateLimitError :: "gerror \<Rightarrow> bool" where
  "is_RateLimitError (RateLimitError _ _) = True"
| "is_RateLimitError _ = False"

definition NewTemporaryError :: "string \<Rightarrow> gerror option \<Rightarrow> gerror" where
  "NewTemporaryError message underlying = TemporaryError message underlying"

definition NewPermanentError :: "string \<Rightarrow> gerror option \<Rightarrow> gerror" where
  "NewPermanentError message underlying = PermanentError message underlying"

definition NewTimeoutError :: "string \<Rightarrow> gerror" where
  "NewTimeoutError message = TimeoutError message"

section \<open>Categories\<close>

text \<open>The Go type is a string; \<open>ErrorCategoryNone\<close> is the empty string.\<close>

datatype ErrorCategory =
    ErrorCategoryNone
  | ErrorCategoryTemporary
  | ErrorCategoryPermanent
  | ErrorCategoryTimeout
  | ErrorCategorySystem
  | ErrorCategoryRateLimit
  | ErrorCategoryOther string

fun string_of_category :: "ErrorCategory \<Rightarrow> string" where
  "string_of_category ErrorCategoryNone = ''''"
| "string_of_category ErrorCategoryTemporary = ''temporary''"
| "string_of_category ErrorCategoryPermanent = ''permanent''"
| "string_of_category ErrorCategoryTimeout = ''timeout''"
| "string_of_category ErrorCategorySystem = ''system''"
| "string_of_category ErrorCategoryRateLimit = ''rate_limit''"
| "string_of_category (ErrorCategoryOther s) = s"

definition ClassifyError :: "gerror option \<Rightarrow> ErrorCategory" where
  "ClassifyError err =
     (case err of
        None \<Rightarrow> ErrorCategoryNone
      | Some e \<Rightarrow>
          if errors_Is e DeadlineExceeded then ErrorCategoryTimeout
          else if errors_Is e Canceled then ErrorCategorySystem
          else if errors_As is_TemporaryError e \<noteq> None then ErrorCategoryTemporary
          else if errors_As is_PermanentError e \<noteq> None then ErrorCategoryPermanent
          else if errors_As is_TimeoutError e \<noteq> None then ErrorCategoryTimeout
          else if errors_As is_RateLimitError e \<noteq> None then ErrorCategoryRateLimit
          else ErrorCategoryTemporary)"

definition IsRetriable :: "gerror option \<Rightarrow> bool" where
  "IsRetriable err =
     (let category = ClassifyError err
      in category = ErrorCategoryTemporary \<or> category = ErrorCategoryRateLimit)"

section \<open>Facts about the chain and the category\<close>

lemma errors_As_iff: "errors_As p e \<noteq> None \<longleftrightarrow> (\<exists>x \<in> set (chain e). p x)"
  by (auto simp: errors_As_def find_None_iff)

lemma ClassifyError_nil [simp]: "ClassifyError None = ErrorCategoryNone"
  by (simp add: ClassifyError_def)

lemma ClassifyError_cong:
  assumes "errors_Is e DeadlineExceeded = errors_Is e' DeadlineExceeded"
    and "errors_Is e Canceled = errors_Is e' Canceled"
    and "(errors_As is_TemporaryError e = None) = (errors_As is_TemporaryError e' = None)"
    and "(errors_As is_PermanentError e = None) = (errors_As is_PermanentError e' = None)"
    and "(errors_As is_TimeoutError e = None) = (errors_As is_TimeoutError e' = None)"
    and "(errors_As is_RateLimitError e = None) = (errors_As is_RateLimitError e' = None)"
  shows "ClassifyError (Some e) = ClassifyError (Some e')"
  using assms by (simp add: ClassifyError_def)

text \<open>
  Wrapping an error with \<open>fmt.Errorf("...%w", err)\<close>, however often and with
  whatever texts, does not change its category, so handlers may add context to an error
  without changing whether the job is retried.
\<close>

theorem ClassifyError_wrap:
  "ClassifyError (Some (foldr WrapError texts e)) = ClassifyError (Some e)"
proof (induction texts)
  case Nil
  show ?case by simp
next
  case (Cons s texts)
  have "ClassifyError (Some (WrapError s x)) = ClassifyError (Some x)" for x
    by (rule ClassifyError_cong) (simp_all add: errors_Is_def errors_As_def)
  with Cons show ?case by simp
qed

text \<open>
  Which errors are retriable, over the whole chain of wrapped errors: no context
  error anywhere in it, and either some temporary error in it or neither a permanent nor a
  timeout error. In particular a permanent error that wraps a temporary one is retriable,
  and an error that carries a context error never is.
\<close>

theorem IsRetriable_iff:
  "IsRetriable (Some e) \<longleftrightarrow>
     DeadlineExceeded \<notin> set (chain e) \<and> Canceled \<notin> set (chain e) \<and>
     ((\<exists>x \<in> set (chain e). is_TemporaryError x) \<or>
      \<not> (\<exists>x \<in> set (chain e). is_PermanentError x \<or> is_TimeoutError x))"
  using errors_As_iff [of is_TemporaryError e] errors_As_iff [of is_PermanentError e]
    errors_As_iff [of is_TimeoutError e] errors_As_iff [of is_RateLimitError e]
  unfolding IsRetriable_def ClassifyError_def Let_def errors_Is_def
  by (simp split: if_splits) blast

theorem IsRetriable_iff_witness:
  "IsRetriable (Some (PermanentError ''refused'' (Some (TemporaryError ''busy'' None)))) \<and>
   \<not> IsRetriable (Some (TemporaryError ''busy'' (Some DeadlineExceeded)))"
  unfolding IsRetriable_iff by simp

lemma ClassifyError_Some_cases:
  "ClassifyError (Some e) \<in> {ErrorCategoryTemporary, ErrorCategoryPermanent,
     ErrorCategoryTimeout, ErrorCategorySystem, ErrorCategoryRateLimit}"
  by (simp add: ClassifyError_def)

lemma ClassifyError_Some_neq_None [simp]: "ClassifyError (Some e) \<noteq> ErrorCategoryNone"
  using ClassifyError_Some_cases [of e] by auto

lemma ClassifyError_Permanent_plain [simp]:
  "ClassifyError (Some (PermanentError msg None)) = ErrorCategoryPermanent"
  by (simp add: ClassifyError_def errors_Is_def errors_As_def)

end
