(* ===== verification/GQ_Job.thy ===== *)
theory GQ_Job
  imports GQ_Float GQ_Errors
begin

text \<open>
  The job record, its states, priorities and options (\<open>core/job.go\<close> and
  \<open>core/options.go\<close>): \<open>NewJob\<close> with its functional options, \<open>IsTerminal\<close> and
  \<open>CanRetry\<close>, the job result, and the default server configuration.
\<close>

section \<open>States, priorities, strategies\<close>

text \<open>
  Go's \<open>JobState\<close> is a string type. The nine states are constructors, and any other
  string is \<open>JobStateOther\<close>; \<open>JobState_of_string\<close> is the conversion
  \<open>core.JobState(s)\<close>.
\<close>

datatype JobState =
    JobStatePending
  | JobStateScheduled
  | JobStateRunning
  | JobStateRetrying
  | JobStateDelayed
  | JobStateCompleted
  | JobStateFailed
  | JobStateDeadLetter
  | JobStateCancelled
  | JobStateOther string

fun string_of_JobState :: "JobState \<Rightarrow> string" where
  "string_of_JobState JobStatePending = ''pending''"
| "string_of_JobState JobStateScheduled = ''scheduled''"
| "string_of_JobState JobStateRunning = ''running''"
| "string_of_JobState JobStateRetrying = ''retrying''"
| "string_of_JobState JobStateDelayed = ''delayed''"
| "string_of_JobState JobStateCompleted = ''completed''"
| "string_of_JobState JobStateFailed = ''failed''"
| "string_of_JobState JobStateDeadLetter = ''dead_letter''"
| "string_of_JobState JobStateCancelled = ''cancelled''"
| "string_of_JobState (JobStateOther s) = s"

definition named_states :: "JobState list" where
  "named_states = [JobStatePending, JobStateScheduled, JobStateRunning, JobStateRetrying,
     JobStateDelayed, JobStateCompleted, JobStateFailed, JobStateDeadLetter, JobStateCancelled]"

definition JobState_of_string :: "string \<Rightarrow> JobState" where
  "JobState_of_string s =
     (case find (\<lambda>st. string_of_JobState st = s) named_states of
        Some st \<Rightarrow> st
      | None \<Rightarrow> JobStateOther s)"

lemma string_of_JobState_of_string [simp]: "string_of_JobState (JobState_of_string s) = s"
  unfolding JobState_of_string_def by (auto split: option.split dest: find_Some_holds)

lemma JobState_of_string_named:
  "st \<in> set named_states \<Longrightarrow> JobState_of_string (string_of_JobState st) = st"
  unfolding named_states_def set_simps insert_iff empty_iff
  by (elim disjE) (simp_all add: JobState_of_string_def named_states_def)

abbreviation (input) PriorityCritical :: int where "PriorityCritical \<equiv> 0"
abbreviation (input) PriorityHigh :: int where "PriorityHigh \<equiv> 1"
abbreviation (input) PriorityNormal :: int where "PriorityNormal \<equiv> 2"
abbreviation (input) PriorityLow :: int where "PriorityLow \<equiv> 3"
abbreviation (input) PriorityBulk :: int where "PriorityBulk \<equiv> 4"

datatype BackoffStrategy =
    BackoffConstant
  | BackoffLinear
  | BackoffExponential
  | BackoffOther string

section \<open>The job record\<close>

text \<open>
  A value of Go's \<open>interface\<close> type in the metadata: the basic values a caller may
  store, and nested lists and maps of them.
\<close>

datatype any_value =
    AnyNil
  | AnyBool bool
  | AnyInt int
  | AnyFloat float64
  | AnyString string
  | AnyList "any_value list"
  | AnyMap "(string \<times> any_value) list"

text \<open>
  \<open>Tags\<close> and \<open>Metadata\<close> are Go maps: \<open>None\<close> is the nil map. A nil slice and an
  empty slice are both \<open>[]\<close>; no code of the repository tells them apart. The field
  \<open>Type\<close> is \<open>JobType\<close> here.
\<close>

record Job =
  ID :: uuid
  IdempotencyKey :: string
  CorrelationID :: string
  JobType :: string
  Payload :: bytes
  Tags :: "(string, string) gomap option"
  Priority :: int
  Delay :: duration
  ScheduledAt :: instant
  Timeout :: duration
  MaxAttempts :: int
  Attempt :: int
  BackoffStrategy :: BackoffStrategy
  BackoffInitial :: duration
  BackoffMax :: duration
  BackoffMultiplier :: float64
  DependsOn :: "uuid list"
  BlockedBy :: "uuid list"
  State :: JobState
  WorkerID :: string
  Progress :: float64
  ProgressMessage :: string
  LastError :: string
  ErrorCategory :: string
  CreatedAt :: instant
  UpdatedAt :: instant
  StartedAt :: instant
  CompletedAt :: instant
  Metadata :: "(string, any_value) gomap option"

text \<open>The fields of \<open>JobResult\<close>; those whose Go name is taken carry a prefix.\<close>

record JobResult =
  JobID :: uuid
  Success :: bool
  Output :: bytes
  ResultError :: string
  ResultCategory :: ErrorCategory
  Duration :: duration
  ResultCompletedAt :: instant
  RetryAfter :: duration

text \<open>The zero values of the two structs, as composite literals leave unset fields.\<close>

definition zero_Job :: Job where
  "zero_Job = \<lparr>ID = 0, IdempotencyKey = '''', CorrelationID = '''', JobType = '''',
     Payload = [], Tags = None, Priority = 0, Delay = 0, ScheduledAt = 0, Timeout = 0,
     MaxAttempts = 0, Attempt = 0, BackoffStrategy = BackoffOther '''', BackoffInitial = 0,
     BackoffMax = 0, BackoffMultiplier = Fin 0, DependsOn = [], BlockedBy = [],
     State = JobStateOther '''', WorkerID = '''', Progress = Fin 0, ProgressMessage = '''',
     LastError = '''', ErrorCategory = '''', CreatedAt = 0, UpdatedAt = 0, StartedAt = 0,
     CompletedAt = 0, Metadata = None\<rparr>"

definition zero_JobResult :: JobResult where
  "zero_JobResult = \<lparr>JobID = 0, Success = False, Output = [], ResultError = '''',
     ResultCategory = ErrorCategoryNone, Duration = 0, ResultCompletedAt = 0, RetryAfter = 0\<rparr>"

section \<open>Options\<close>

text \<open>
  A job option is a function on the job. \<open>WithDelay\<close> reads the clock when it is
  applied; \<open>t\<close> is that reading.
\<close>

type_synonym JobOption = "Job \<Rightarrow> Job"

definition WithID :: "uuid \<Rightarrow> JobOption" where
  "WithID i = (\<lambda>j. j\<lparr>ID := i\<rparr>)"

definition WithIdempotencyKey :: "string \<Rightarrow> JobOption" where
  "WithIdempotencyKey key = (\<lambda>j. j\<lparr>IdempotencyKey := key\<rparr>)"

definition WithCorrelationID :: "string \<Rightarrow> JobOption" where
  "WithCorrelationID i = (\<lambda>j. j\<lparr>CorrelationID := i\<rparr>)"

definition WithPriority :: "int \<Rightarrow> JobOption" where
  "WithPriority priority = (\<lambda>j. j\<lparr>Priority := priority\<rparr>)"

definition WithDelay :: "instant \<Rightarrow> duration \<Rightarrow> JobOption" where
  "WithDelay t d = (\<lambda>j. j\<lparr>Delay := d, ScheduledAt := t + d\<rparr>)"

definition WithScheduledAt :: "instant \<Rightarrow> JobOption" where
  "WithScheduledAt t = (\<lambda>j. j\<lparr>ScheduledAt := t\<rparr>)"

definition WithTimeout :: "duration \<Rightarrow> JobOption" where
  "WithTimeout d = (\<lambda>j. j\<lparr>Timeout := d\<rparr>)"

definition WithMaxAttempts :: "int \<Rightarrow> JobOption" where
  "WithMaxAttempts attempts = (\<lambda>j. j\<lparr>MaxAttempts := attempts\<rparr>)"

definition WithBackoff ::
    "BackoffStrategy \<Rightarrow> duration \<Rightarrow> duration \<Rightarrow> float64 \<Rightarrow> JobOption" where
  "WithBackoff strategy initial mx multiplier =
     (\<lambda>j. j\<lparr>BackoffStrategy := strategy, BackoffInitial := initial, BackoffMax := mx,
            BackoffMultiplier := multiplier\<rparr>)"

definition WithTags :: "(string, string) gomap option \<Rightarrow> JobOption" where
  "WithTags tags = (\<lambda>j. j\<lparr>Tags := tags\<rparr>)"

definition WithTag :: "string \<Rightarrow> string \<Rightarrow> JobOption" where
  "WithTag key val = (\<lambda>j.
     (let tags = (case Tags j of None \<Rightarrow> [] | Some m \<Rightarrow> m)
      in j\<lparr>Tags := Some (AList.update key val tags)\<rparr>))"

definition WithDependencies :: "uuid list \<Rightarrow> JobOption" where
  "WithDependencies deps = (\<lambda>j. j\<lparr>DependsOn := deps\<rparr>)"

definition WithMetadata :: "(string, any_value) gomap option \<Rightarrow> JobOption" where
  "WithMetadata metadata = (\<lambda>j. j\<lparr>Metadata := metadata\<rparr>)"

text \<open>\<open>uuid.New()\<close> is the argument \<open>newID\<close>; the clock is read for the two timestamps.\<close>

definition NewJob :: "uuid \<Rightarrow> clock \<Rightarrow> string \<Rightarrow> bytes \<Rightarrow> JobOption list \<Rightarrow> Job" where
  "NewJob newID clk jobType payload opts =
     (let job = zero_Job\<lparr>ID := newID, JobType := jobType, Payload := payload,
            Priority := PriorityNormal, MaxAttempts := 3, BackoffStrategy := BackoffExponential,
            BackoffInitial := 1 * Second, BackoffMax := 1 * Hour, BackoffMultiplier := Fin 2,
            State := JobStatePending, CreatedAt := clk 0, UpdatedAt := clk 1, Tags := Some []\<rparr>
      in fold (\<lambda>opt j. opt j) opts job)"

definition IsTerminal :: "Job \<Rightarrow> bool" where
  "IsTerminal j \<longleftrightarrow> State j = JobStateCompleted \<or> State j = JobStateFailed \<or>
     State j = JobStateDeadLetter \<or> State j = JobStateCancelled"

definition CanRetry :: "Job \<Rightarrow> bool" where
  "CanRetry j \<longleftrightarrow> Attempt j < MaxAttempts j \<and> \<not> IsTerminal j"

section \<open>Server configuration\<close>

record ServerConfig =
  HTTPAddr :: string
  DataDir :: string
  Workers :: int
  ShutdownTimeout :: duration
  HeartbeatInterval :: duration
  SchedulerTickInterval :: duration
  VisibilityTimeout :: duration
  RetentionPeriod :: duration
  CleanupInterval :: duration
  MetricsEnabled :: bool
  MetricsAddr :: string
  APIKeyEnabled :: bool
  ConfigAPIKey :: string

definition DefaultServerConfig :: ServerConfig where
  "DefaultServerConfig = \<lparr>HTTPAddr = '':8080'', DataDir = ''./data'', Workers = 10,
     ShutdownTimeout = 30 * Second, HeartbeatInterval = 30 * Second,
     SchedulerTickInterval = 100 * Millisecond, VisibilityTimeout = 5 * Minute,
     RetentionPeriod = 7 * 24 * Hour, CleanupInterval = 1 * Hour, MetricsEnabled = True,
     MetricsAddr = '':9090'', APIKeyEnabled = False, ConfigAPIKey = ''''\<rparr>"

section \<open>Facts about options and fresh jobs\<close>

text \<open>The options the package provides.\<close>

inductive core_option :: "JobOption \<Rightarrow> bool" where
  "core_option (WithID i)"
| "core_option (WithIdempotencyKey k)"
| "core_option (WithCorrelationID i)"
| "core_option (WithPriority p)"
| "core_option (WithDelay t d)"
| "core_option (WithScheduledAt t)"
| "core_option (WithTimeout d)"
| "core_option (WithMaxAttempts n)"
| "core_option (WithBackoff s i m f)"
| "core_option (WithTags tags)"
| "core_option (WithTag k v)"
| "core_option (WithDependencies deps)"
| "core_option (WithMetadata md)"

lemmas option_defs =
  WithID_def WithIdempotencyKey_def WithCorrelationID_def WithPriority_def WithDelay_def
  WithScheduledAt_def WithTimeout_def WithMaxAttempts_def WithBackoff_def WithTags_def
  WithTag_def WithDependencies_def WithMetadata_def

text \<open>What no option touches: the fields that record a job's progress.\<close>

definition lifecycle_fields :: "Job \<Rightarrow> JobState \<times> int \<times> string \<times> string \<times> instant \<times> instant" where
  "lifecycle_fields j = (State j, Attempt j, WorkerID j, LastError j, StartedAt j, CompletedAt j)"

lemma core_option_lifecycle:
  "core_option opt \<Longrightarrow> lifecycle_fields (opt j) = lifecycle_fields j"
  by (induction rule: core_option.induct) (auto simp: option_defs lifecycle_fields_def Let_def)

lemma fold_options_lifecycle:
  "list_all core_option opts \<Longrightarrow>
     lifecycle_fields (fold (\<lambda>opt j. opt j) opts j) = lifecycle_fields j"
  by (induction opts arbitrary: j) (auto simp: core_option_lifecycle)

text \<open>
  Whatever options a caller combines, a new job is pending, has used no attempt, has no
  worker, no error and neither a start nor a completion time.
\<close>

theorem NewJob_fresh:
  assumes "list_all core_option opts"
  shows "lifecycle_fields (NewJob newID clk jobType payload opts) =
    (JobStatePending, 0, '''', '''', 0, 0)"
  unfolding NewJob_def Let_def
  by (subst fold_options_lifecycle [OF assms]) (simp add: lifecycle_fields_def zero_Job_def)

theorem NewJob_fresh_witness:
  "lifecycle_fields (NewJob 7 (\<lambda>_. 100) ''email'' ''hi''
     [WithPriority 0, WithDelay 100 Second, WithTag ''env'' ''prod'']) =
   (JobStatePending, 0, '''', '''', 0, 0)"
  by (rule NewJob_fresh) (simp add: core_option.intros)

lemma IsTerminal_simps [simp]:
  "State j = JobStateCompleted \<Longrightarrow> IsTerminal j"
  "State j = JobStateFailed \<Longrightarrow> IsTerminal j"
  "State j = JobStateDeadLetter \<Longrightarrow> IsTerminal j"
  "State j = JobStateCancelled \<Longrightarrow> IsTerminal j"
  "State j = JobStatePending \<Longrightarrow> \<not> IsTerminal j"
  "State j = JobStateScheduled \<Longrightarrow> \<not> IsTerminal j"
  "State j = JobStateRunning \<Longrightarrow> \<not> IsTerminal j"
  "State j = JobStateRetrying \<Longrightarrow> \<not> IsTerminal j"
  "State j = JobStateDelayed \<Longrightarrow> \<not> IsTerminal j"
  by (simp_all add: IsTerminal_def)

end
