(* ===== verification/GQ_Store.thy ===== *)
theory GQ_Store
  imports GQ_Job
begin

text \<open>
  The storage interface (\<open>persistence/store.go\<close>): filters, queue statistics,
  \<open>matchesFilter\<close>, the \<open>JobStore\<close> interface as a record of operations (the method
  table a Go interface value carries), and the locale \<open>job_store\<close> with the contract
  the rest of the program relies on.
\<close>

section \<open>Filters\<close>

datatype ListOrder =
    OrderCreatedAsc
  | OrderCreatedDesc
  | OrderUpdatedDesc
  | OrderPriorityAsc
  | OrderOther string

record JobFilter =
  Types :: "string list"
  States :: "JobState list"
  Priorities :: "int list"
  FilterTags :: "(string, string) gomap"
  CreatedAfter :: instant
  CreatedBefore :: instant
  UpdatedAfter :: instant
  FilterCorrelationID :: string
  Cursor :: string
  Limit :: int
  Order :: ListOrder

definition empty_filter :: JobFilter where
  "empty_filter = \<lparr>Types = [], States = [], Priorities = [], FilterTags = [],
     CreatedAfter = 0, CreatedBefore = 0, UpdatedAfter = 0, FilterCorrelationID = '''',
     Cursor = '''', Limit = 0, Order = OrderOther ''''\<rparr>"

text \<open>Reading a key of a Go map of strings: the empty string when it is absent.\<close>

definition tag_value :: "(string, string) gomap option \<Rightarrow> string \<Rightarrow> string" where
  "tag_value tags k =
     (case tags of
        None \<Rightarrow> ''''
      | Some m \<Rightarrow> (case map_of m k of None \<Rightarrow> '''' | Some v \<Rightarrow> v))"

definition matchesFilter :: "Job \<Rightarrow> JobFilter \<Rightarrow> bool" where
  "matchesFilter job flt =
     (if Types flt \<noteq> [] \<and> \<not> list_ex (\<lambda>t. JobType job = t) (Types flt) then False
      else if States flt \<noteq> [] \<and> \<not> list_ex (\<lambda>s. State job = s) (States flt) then False
      else if Priorities flt \<noteq> [] \<and> \<not> list_ex (\<lambda>p. Priority job = p) (Priorities flt)
        then False
      else if list_ex (\<lambda>(k, v). tag_value (Tags job) k \<noteq> v) (FilterTags flt) then False
      else if \<not> IsZero (CreatedAfter flt) \<and> CreatedAt job < CreatedAfter flt then False
      else if \<not> IsZero (CreatedBefore flt) \<and> CreatedAt job > CreatedBefore flt then False
      else if \<not> IsZero (UpdatedAfter flt) \<and> UpdatedAt job < UpdatedAfter flt then False
      else if FilterCorrelationID flt \<noteq> '''' \<and>
          CorrelationID job \<noteq> FilterCorrelationID flt then False
      else True)"

text \<open>Both implementations of \<open>GetPending\<close> list with this filter.\<close>

definition pending_filter :: "int \<Rightarrow> JobFilter" where
  "pending_filter limit = empty_filter\<lparr>States := [JobStatePending, JobStateScheduled],
     Limit := limit, Order := OrderPriorityAsc\<rparr>"

definition is_pending :: "Job \<Rightarrow> bool" where
  "is_pending j \<longleftrightarrow> State j = JobStatePending \<or> State j = JobStateScheduled"

lemma matchesFilter_pending [simp]: "matchesFilter j (pending_filter limit) = is_pending j"
  by (auto simp: matchesFilter_def pending_filter_def empty_filter_def IsZero_def is_pending_def)

definition effective_limit :: "int \<Rightarrow> int" where
  "effective_limit limit = (if limit \<le> 0 then 100 else limit)"

lemma effective_limit_pos [simp]: "0 < effective_limit l"
  by (simp add: effective_limit_def)

text \<open>
  A job matches a filter exactly when it passes every criterion the filter sets:
  an empty list, an empty tag map, a zero time and an empty correlation id set none.
\<close>

theorem matchesFilter_iff:
  "matchesFilter j f \<longleftrightarrow>
     (Types f = [] \<or> JobType j \<in> set (Types f)) \<and>
     (States f = [] \<or> State j \<in> set (States f)) \<and>
     (Priorities f = [] \<or> Priority j \<in> set (Priorities f)) \<and>
     {kv \<in> set (FilterTags f). tag_value (Tags j) (fst kv) \<noteq> snd kv} = {} \<and>
     (CreatedAfter f = 0 \<or> CreatedAfter f \<le> CreatedAt j) \<and>
     (CreatedBefore f = 0 \<or> CreatedAt j \<le> CreatedBefore f) \<and>
     (UpdatedAfter f = 0 \<or> UpdatedAfter f \<le> UpdatedAt j) \<and>
     (FilterCorrelationID f = '''' \<or> CorrelationID j = FilterCorrelationID f)"
proof -
  have mem: "list_ex (\<lambda>t. x = t) xs \<longleftrightarrow> x \<in> set xs" for x and xs :: "'a list"
    by (auto simp: list_ex_iff)
  have tags: "list_ex (\<lambda>(k, v). tag_value (Tags j) k \<noteq> v) (FilterTags f) \<longleftrightarrow>
      {kv \<in> set (FilterTags f). tag_value (Tags j) (fst kv) \<noteq> snd kv} \<noteq> {}"
    unfolding list_ex_iff case_prod_unfold by blast
  show ?thesis
    unfolding matchesFilter_def mem tags IsZero_def by (simp add: not_less)
qed

section \<open>Statistics\<close>

record QueueStats =
  QPending :: int
  QScheduled :: int
  QRunning :: int
  QDelayed :: int
  QCompleted :: int
  QFailed :: int
  QDeadLetter :: int
  QCancelled :: int
  QTotalJobs :: int
  QStorageBytes :: int
  QTimestamp :: instant

definition zero_QueueStats :: QueueStats where
  "zero_QueueStats = \<lparr>QPending = 0, QScheduled = 0, QRunning = 0, QDelayed = 0,
     QCompleted = 0, QFailed = 0, QDeadLetter = 0, QCancelled = 0, QTotalJobs = 0,
     QStorageBytes = 0, QTimestamp = 0\<rparr>"

text \<open>The switch on the job's state that both stores run for each job.\<close>

definition tally_state :: "Job \<Rightarrow> QueueStats \<Rightarrow> QueueStats" where
  "tally_state job stats =
     (case State job of
        JobStatePending \<Rightarrow> stats\<lparr>QPending := QPending stats + 1\<rparr>
      | JobStateScheduled \<Rightarrow> stats\<lparr>QScheduled := QScheduled stats + 1\<rparr>
      | JobStateRunning \<Rightarrow> stats\<lparr>QRunning := QRunning stats + 1\<rparr>
      | JobStateDelayed \<Rightarrow> stats\<lparr>QDelayed := QDelayed stats + 1\<rparr>
      | JobStateCompleted \<Rightarrow> stats\<lparr>QCompleted := QCompleted stats + 1\<rparr>
      | JobStateFailed \<Rightarrow> stats\<lparr>QFailed := QFailed stats + 1\<rparr>
      | JobStateDeadLetter \<Rightarrow> stats\<lparr>QDeadLetter := QDeadLetter stats + 1\<rparr>
      | JobStateCancelled \<Rightarrow> stats\<lparr>QCancelled := QCancelled stats + 1\<rparr>
      | _ \<Rightarrow> stats)"

definition counted_total :: "QueueStats \<Rightarrow> int" where
  "counted_total st = QPending st + QScheduled st + QRunning st + QDelayed st +
     QCompleted st + QFailed st + QDeadLetter st + QCancelled st"

definition uncounted :: "Job \<Rightarrow> bool" where
  "uncounted j =
     (case State j of JobStateRetrying \<Rightarrow> True | JobStateOther s \<Rightarrow> True | _ \<Rightarrow> False)"

lemma counted_total_tally:
  "counted_total (tally_state j st) = counted_total st + (if uncounted j then 0 else 1)"
  by (cases "State j") (simp_all add: tally_state_def counted_total_def uncounted_def)

lemma QTotalJobs_tally [simp]: "QTotalJobs (tally_state j st) = QTotalJobs st"
  by (cases "State j") (simp_all add: tally_state_def)

lemma counted_total_fold:
  "counted_total (fold tally_state js st) =
     counted_total st + int (length js) - int (length (filter uncounted js))"
  by (induction js arbitrary: st) (auto simp: counted_total_tally)

lemma QTotalJobs_fold [simp]: "QTotalJobs (fold tally_state js st) = QTotalJobs st"
  by (induction js arbitrary: st) auto

definition count_in :: "JobState \<Rightarrow> Job list \<Rightarrow> int" where
  "count_in st js = int (length (filter (\<lambda>j. State j = st) js))"

lemma count_in_simps [simp]:
  "count_in st [] = 0"
  "count_in st (j # js) = (if State j = st then 1 else 0) + count_in st js"
  by (simp_all add: count_in_def)

text \<open>Each counter ends up with the number of jobs in its state.\<close>

lemma tally_fold:
  "fold tally_state js st =
     st\<lparr>QPending := QPending st + count_in JobStatePending js,
        QScheduled := QScheduled st + count_in JobStateScheduled js,
        QRunning := QRunning st + count_in JobStateRunning js,
        QDelayed := QDelayed st + count_in JobStateDelayed js,
        QCompleted := QCompleted st + count_in JobStateCompleted js,
        QFailed := QFailed st + count_in JobStateFailed js,
        QDeadLetter := QDeadLetter st + count_in JobStateDeadLetter js,
        QCancelled := QCancelled st + count_in JobStateCancelled js\<rparr>"
proof (induction js arbitrary: st)
  case Nil
  then show ?case by simp
next
  case (Cons j js)
  show ?case unfolding fold_simps Cons.IH
    by (cases "State j") (simp_all add: tally_state_def add.assoc)
qed

lemma count_in_mset: "mset js = mset js' \<Longrightarrow> count_in st js = count_in st js'"
  unfolding count_in_def by (metis mset_filter size_mset)

section \<open>The interface\<close>

text \<open>
  A store operation takes the state of the store and returns the new one. An operation
  that reads the clock takes the reading. \<open>Update\<close> also sets the timestamp of the
  job the caller passed, and returns it. \<open>ClaimJob\<close> and \<open>Cleanup\<close> return a value
  and an error, as in Go; the contexts are not used by either implementation.
\<close>

record 's JobStore =
  Create :: "Job \<Rightarrow> 's \<Rightarrow> gerror option \<times> 's"
  Get :: "uuid \<Rightarrow> 's \<Rightarrow> gerror + Job"
  GetByIdempotencyKey :: "string \<Rightarrow> 's \<Rightarrow> gerror + Job"
  Update :: "instant \<Rightarrow> Job \<Rightarrow> 's \<Rightarrow> Job \<times> gerror option \<times> 's"
  UpdateState :: "instant \<Rightarrow> uuid \<Rightarrow> JobState \<Rightarrow> 's \<Rightarrow> gerror option \<times> 's"
  Delete :: "uuid \<Rightarrow> 's \<Rightarrow> gerror option \<times> 's"
  List :: "JobFilter \<Rightarrow> 's \<Rightarrow> gerror + Job list"
  Count :: "JobFilter \<Rightarrow> 's \<Rightarrow> gerror + int"
  GetPending :: "int \<Rightarrow> 's \<Rightarrow> gerror + Job list"
  GetDelayed :: "instant \<Rightarrow> int \<Rightarrow> 's \<Rightarrow> gerror + Job list"
  GetStuck :: "instant \<Rightarrow> duration \<Rightarrow> 's \<Rightarrow> gerror + Job list"
  ClaimJob :: "instant \<Rightarrow> uuid \<Rightarrow> string \<Rightarrow> 's \<Rightarrow> bool \<times> gerror option \<times> 's"
  SaveResult :: "JobResult \<Rightarrow> 's \<Rightarrow> gerror option \<times> 's"
  GetResult :: "uuid \<Rightarrow> 's \<Rightarrow> gerror + JobResult"
  SaveCheckpoint :: "uuid \<Rightarrow> bytes \<Rightarrow> 's \<Rightarrow> gerror option \<times> 's"
  GetCheckpoint :: "uuid \<Rightarrow> 's \<Rightarrow> gerror + bytes option"
  Stats :: "instant \<Rightarrow> 's \<Rightarrow> gerror + QueueStats"
  Cleanup :: "instant \<Rightarrow> duration \<Rightarrow> 's \<Rightarrow> int \<times> gerror option \<times> 's"

text \<open>What claiming writes, and the instants the two scans compare with.\<close>

definition claimed_by :: "instant \<Rightarrow> string \<Rightarrow> Job \<Rightarrow> Job" where
  "claimed_by t worker j = j\<lparr>State := JobStateRunning, WorkerID := worker, StartedAt := t,
     UpdatedAt := t, Attempt := wrap64 (Attempt j + 1)\<rparr>"

definition ago :: "instant \<Rightarrow> duration \<Rightarrow> instant" where
  "ago t d = t + wrap64 (- d)"

lemma claimed_by_simps [simp]:
  "State (claimed_by t w j) = JobStateRunning"
  "ID (claimed_by t w j) = ID j"
  "JobType (claimed_by t w j) = JobType j"
  "MaxAttempts (claimed_by t w j) = MaxAttempts j"
  "Attempt (claimed_by t w j) = wrap64 (Attempt j + 1)"
  "WorkerID (claimed_by t w j) = w"
  "StartedAt (claimed_by t w j) = t"
  by (simp_all add: claimed_by_def)

text \<open>
  A sequence of claims on one job, each with its clock reading and worker: which of them
  were granted.
\<close>

fun claim_results ::
    "'s JobStore \<Rightarrow> uuid \<Rightarrow> (instant \<times> string) list \<Rightarrow> 's \<Rightarrow> bool list" where
  "claim_results ops i [] s = []"
| "claim_results ops i ((t, w) # claims) s =
     (let (claimed, err, s') = ClaimJob ops t i w s
      in (claimed \<and> err = None) # claim_results ops i claims s')"

text \<open>A sequence of submissions, one after the other, with the answer to each.\<close>

fun create_all :: "'s JobStore \<Rightarrow> Job list \<Rightarrow> 's \<Rightarrow> gerror option list \<times> 's" where
  "create_all ops [] s = ([], s)"
| "create_all ops (j # js) s =
     (let (err, s1) = Create ops j s; (errs, s2) = create_all ops js s1 in (err # errs, s2))"

section \<open>The contract\<close>

text \<open>
  What a client of the store relies on. \<open>jobs_of\<close>, \<open>results_of\<close>,
  \<open>checkpoints_of\<close> and \<open>idem_of\<close> are the abstract contents, \<open>inv\<close> the
  implementation's invariant, and \<open>storable s j\<close> says that the implementation can write
  the job \<open>j\<close> in state \<open>s\<close> (always in memory). The laws say what a call returns and how the contents change,
  on the error paths too.
\<close>

locale job_store =
  fixes ops :: "'s JobStore"
    and inv :: "'s \<Rightarrow> bool"
    and storable :: "'s \<Rightarrow> Job \<Rightarrow> bool"
    and jobs_of :: "'s \<Rightarrow> uuid \<Rightarrow> Job option"
    and results_of :: "'s \<Rightarrow> uuid \<Rightarrow> JobResult option"
    and checkpoints_of :: "'s \<Rightarrow> uuid \<Rightarrow> bytes option"
    and idem_of :: "'s \<Rightarrow> string \<Rightarrow> uuid option"
  assumes jobs_ID: "inv s \<Longrightarrow> jobs_of s i = Some j \<Longrightarrow> ID j = i"
    and Get: "inv s \<Longrightarrow>
      Get ops i s = (case jobs_of s i of None \<Rightarrow> Inl ErrJobNotFound | Some j \<Rightarrow> Inr j)"
    and GetByIdempotencyKey: "inv s \<Longrightarrow> GetByIdempotencyKey ops key s =
      (case idem_of s key of
         None \<Rightarrow> Inl ErrJobNotFound
       | Some i \<Rightarrow> (case jobs_of s i of None \<Rightarrow> Inl ErrJobNotFound | Some j \<Rightarrow> Inr j))"
    and Create_ok: "inv s \<Longrightarrow> Create ops j s = (None, s') \<Longrightarrow>
      inv s' \<and> jobs_of s (ID j) = None \<and> jobs_of s' = (jobs_of s)(ID j \<mapsto> j) \<and>
      results_of s' = results_of s \<and> checkpoints_of s' = checkpoints_of s \<and>
      (IdempotencyKey j = '''' \<longrightarrow> idem_of s' = idem_of s) \<and>
      (IdempotencyKey j \<noteq> '''' \<longrightarrow> idem_of s (IdempotencyKey j) = None \<and>
         idem_of s' = (idem_of s)(IdempotencyKey j \<mapsto> ID j))"
    and Create_err: "inv s \<Longrightarrow> Create ops j s = (Some e, s') \<Longrightarrow>
      inv s' \<and> jobs_of s' = jobs_of s \<and> results_of s' = results_of s \<and>
      checkpoints_of s' = checkpoints_of s"
    and Create_key_exists: "inv s \<Longrightarrow> IdempotencyKey j \<noteq> '''' \<Longrightarrow>
      idem_of s (IdempotencyKey j) \<noteq> None \<Longrightarrow> Create ops j s = (Some ErrJobAlreadyExists, s)"
    and Create_ID_exists: "inv s \<Longrightarrow> jobs_of s (ID j) \<noteq> None \<Longrightarrow>
      fst (Create ops j s) = Some ErrJobAlreadyExists"
    and Update_ok: "inv s \<Longrightarrow> Update ops t j s = (j', None, s') \<Longrightarrow>
      inv s' \<and> jobs_of s (ID j) \<noteq> None \<and> j' = j\<lparr>UpdatedAt := t\<rparr> \<and>
      jobs_of s' = (jobs_of s)(ID j \<mapsto> j') \<and> results_of s' = results_of s \<and>
      checkpoints_of s' = checkpoints_of s \<and> idem_of s' = idem_of s"
    and Update_err: "inv s \<Longrightarrow> Update ops t j s = (j', Some e, s') \<Longrightarrow> s' = s"
    and Update_missing: "inv s \<Longrightarrow> jobs_of s (ID j) = None \<Longrightarrow>
      fst (snd (Update ops t j s)) = Some ErrJobNotFound"
    and Update_succeeds: "inv s \<Longrightarrow> jobs_of s (ID j) \<noteq> None \<Longrightarrow>
      storable s (j\<lparr>UpdatedAt := t\<rparr>) \<Longrightarrow> fst (snd (Update ops t j s)) = None"
    and UpdateState_ok: "inv s \<Longrightarrow> UpdateState ops t i st s = (None, s') \<Longrightarrow>
      \<exists>j. jobs_of s i = Some j \<and> inv s' \<and>
        jobs_of s' = (jobs_of s)(i \<mapsto> j\<lparr>State := st, UpdatedAt := t\<rparr>) \<and>
        results_of s' = results_of s \<and> checkpoints_of s' = checkpoints_of s \<and>
        idem_of s' = idem_of s"
    and UpdateState_err: "inv s \<Longrightarrow> UpdateState ops t i st s = (Some e, s') \<Longrightarrow> s' = s"
    and UpdateState_missing: "inv s \<Longrightarrow> jobs_of s i = None \<Longrightarrow>
      fst (UpdateState ops t i st s) = Some ErrJobNotFound"
    and UpdateState_succeeds: "inv s \<Longrightarrow> jobs_of s i = Some j \<Longrightarrow>
      storable s (j\<lparr>State := st, UpdatedAt := t\<rparr>) \<Longrightarrow> fst (UpdateState ops t i st s) = None"
    and Delete_ok: "inv s \<Longrightarrow> Delete ops i s = (None, s') \<Longrightarrow>
      inv s' \<and> jobs_of s i \<noteq> None \<and> jobs_of s' = (jobs_of s)(i := None) \<and>
      results_of s' = (results_of s)(i := None) \<and>
      checkpoints_of s' = (checkpoints_of s)(i := None)"
    and Delete_err: "inv s \<Longrightarrow> Delete ops i s = (Some e, s') \<Longrightarrow> s' = s"
    and Delete_missing: "inv s \<Longrightarrow> jobs_of s i = None \<Longrightarrow>
      fst (Delete ops i s) = Some ErrJobNotFound"
    and ClaimJob_ok: "inv s \<Longrightarrow> ClaimJob ops t i w s = (True, None, s') \<Longrightarrow>
      \<exists>j. jobs_of s i = Some j \<and> is_pending j \<and> inv s' \<and>
        jobs_of s' = (jobs_of s)(i \<mapsto> claimed_by t w j) \<and>
        results_of s' = results_of s \<and> checkpoints_of s' = checkpoints_of s \<and>
        idem_of s' = idem_of s"
    and ClaimJob_no: "inv s \<Longrightarrow> ClaimJob ops t i w s = (b, err, s') \<Longrightarrow>
      (b, err) \<noteq> (True, None) \<Longrightarrow> s' = s"
    and ClaimJob_missing: "inv s \<Longrightarrow> jobs_of s i = None \<Longrightarrow>
      ClaimJob ops t i w s = (False, Some ErrJobNotFound, s)"
    and ClaimJob_refused: "inv s \<Longrightarrow> jobs_of s i = Some j \<Longrightarrow> \<not> is_pending j \<Longrightarrow>
      fst (ClaimJob ops t i w s) = False"
    and ClaimJob_succeeds: "inv s \<Longrightarrow> jobs_of s i = Some j \<Longrightarrow> is_pending j \<Longrightarrow>
      storable s (claimed_by t w j) \<Longrightarrow> \<exists>s'. ClaimJob ops t i w s = (True, None, s')"
    and GetPending: "inv s \<Longrightarrow> \<exists>js. GetPending ops limit s = Inr js \<and> distinct (map ID js) \<and>
      (\<forall>j \<in> set js. jobs_of s (ID j) = Some j \<and> is_pending j) \<and>
      int (length js) \<le> effective_limit limit \<and>
      (int (length js) < effective_limit limit \<longrightarrow>
         (\<forall>i j. jobs_of s i = Some j \<and> is_pending j \<longrightarrow> j \<in> set js))"
    and GetDelayed: "inv s \<Longrightarrow> \<exists>js. GetDelayed ops t limit s = Inr js \<and> distinct (map ID js) \<and>
      (\<forall>j \<in> set js. jobs_of s (ID j) = Some j \<and> State j = JobStateDelayed \<and> ScheduledAt j \<le> t)"
    and GetStuck: "inv s \<Longrightarrow> \<exists>js. GetStuck ops t d s = Inr js \<and> distinct (map ID js) \<and>
      (\<forall>j \<in> set js. jobs_of s (ID j) = Some j \<and> State j = JobStateRunning \<and>
         StartedAt j < ago t d) \<and>
      (\<forall>i j. jobs_of s i = Some j \<and> State j = JobStateRunning \<and> StartedAt j \<noteq> 0 \<and>
         StartedAt j < ago t d \<longrightarrow> j \<in> set js)"
    and SaveResult_ok: "inv s \<Longrightarrow> SaveResult ops r s = (None, s') \<Longrightarrow>
      inv s' \<and> jobs_of s' = jobs_of s \<and> results_of s' = (results_of s)(JobID r \<mapsto> r) \<and>
      checkpoints_of s' = checkpoints_of s \<and> idem_of s' = idem_of s"
    and SaveResult_err: "inv s \<Longrightarrow> SaveResult ops r s = (Some e, s') \<Longrightarrow> s' = s"
    and GetResult: "inv s \<Longrightarrow> GetResult ops i s =
      (case results_of s i of None \<Rightarrow> Inl ErrJobNotFound | Some r \<Rightarrow> Inr r)"
    and SaveCheckpoint_ok: "inv s \<Longrightarrow> SaveCheckpoint ops i data s = (None, s') \<Longrightarrow>
      inv s' \<and> jobs_of s' = jobs_of s \<and> results_of s' = results_of s \<and>
      checkpoints_of s' = (checkpoints_of s)(i \<mapsto> data) \<and> idem_of s' = idem_of s"
    and SaveCheckpoint_err: "inv s \<Longrightarrow> SaveCheckpoint ops i data s = (Some e, s') \<Longrightarrow> s' = s"
    and GetCheckpoint: "inv s \<Longrightarrow> GetCheckpoint ops i s = Inr (checkpoints_of s i)"
begin

lemma Get_Some: "inv s \<Longrightarrow> Get ops i s = Inr j \<longleftrightarrow> jobs_of s i = Some j"
  by (simp add: Get split: option.split)

lemma Update_cases:
  assumes "inv s" and "Update ops t j s = (j', e, s')"
  obtains (ok) "e = None" "inv s'" "j' = j\<lparr>UpdatedAt := t\<rparr>" "jobs_of s (ID j) \<noteq> None"
      "jobs_of s' = (jobs_of s)(ID j \<mapsto> j\<lparr>UpdatedAt := t\<rparr>)" "results_of s' = results_of s"
      "checkpoints_of s' = checkpoints_of s" "idem_of s' = idem_of s"
    | (err) x where "e = Some x" "s' = s"
proof (cases e)
  case None
  with assms have U: "Update ops t j s = (j', None, s')" by simp
  from Update_ok [OF assms(1) U] None show ?thesis by (intro ok) simp_all
next
  case (Some x)
  with assms have U: "Update ops t j s = (j', Some x, s')" by simp
  from Update_err [OF assms(1) U] Some show ?thesis by (intro err)
qed

lemma Update_inv: "inv s \<Longrightarrow> Update ops t j s = (j', e, s') \<Longrightarrow> inv s'"
  by (cases rule: Update_cases [of s t j j' e s']) simp_all

lemma UpdateState_inv: "inv s \<Longrightarrow> UpdateState ops t i st s = (e, s') \<Longrightarrow> inv s'"
  using UpdateState_ok [of s t i st s'] UpdateState_err [of s t i st _ s'] by (cases e) auto

lemma SaveResult_inv: "inv s \<Longrightarrow> SaveResult ops r s = (e, s') \<Longrightarrow> inv s'"
  using SaveResult_ok [of s r s'] SaveResult_err [of s r _ s'] by (cases e) auto

lemma ClaimJob_inv: "inv s \<Longrightarrow> ClaimJob ops t i w s = (b, e, s') \<Longrightarrow> inv s'"
  using ClaimJob_ok [of s t i w s'] ClaimJob_no [of s t i w b e s'] by (cases "(b, e) = (True, None)") auto

text \<open>A submission with a key can be repeated: the key finds the first job.\<close>

lemma Create_then_find:
  assumes "inv s" and "Create ops j s = (None, s')" and "IdempotencyKey j \<noteq> ''''"
  shows "GetByIdempotencyKey ops (IdempotencyKey j) s' = Inr j"
  using Create_ok [OF assms(1,2)] assms(3) by (auto simp: GetByIdempotencyKey)

lemma create_all_refused:
  assumes "inv s" and "idem_of s key \<noteq> None" and "key \<noteq> ''''"
    and "list_all (\<lambda>k. IdempotencyKey k = key) ks"
  shows "create_all ops ks s = (replicate (length ks) (Some ErrJobAlreadyExists), s)"
  using assms(4)
proof (induction ks)
  case Nil
  then show ?case by simp
next
  case (Cons k ks)
  then have "Create ops k s = (Some ErrJobAlreadyExists, s)"
    using assms(1-3) by (intro Create_key_exists) auto
  with Cons show ?case by simp
qed

text \<open>
  Whatever is submitted with the key after that, the key keeps its job: every later
  \<open>Create\<close> with it is refused, and the key still finds the first job.
\<close>

lemma Create_idempotent:
  assumes "inv s" and "Create ops j s = (None, s')" and "IdempotencyKey j \<noteq> ''''"
    and "list_all (\<lambda>k. IdempotencyKey k = IdempotencyKey j) ks"
  shows "\<exists>s''. create_all ops ks s' = (replicate (length ks) (Some ErrJobAlreadyExists), s'') \<and>
    GetByIdempotencyKey ops (IdempotencyKey j) s'' = Inr j"
proof -
  have "create_all ops ks s' = (replicate (length ks) (Some ErrJobAlreadyExists), s')"
    using Create_ok [OF assms(1,2)] assms(3,4)
    by (intro create_all_refused [where key = "IdempotencyKey j"]) auto
  then show ?thesis using Create_then_find [OF assms(1-3)] by blast
qed

text \<open>A job that has been claimed cannot be claimed again before its state changes.\<close>

lemma claim_excludes:
  assumes "inv s" and "ClaimJob ops t i w s = (True, None, s')"
  shows "fst (ClaimJob ops t' i w' s') = False"
proof -
  from ClaimJob_ok [OF assms] obtain j where "inv s'" "jobs_of s' i = Some (claimed_by t w j)"
    by auto
  then show ?thesis by (rule ClaimJob_refused) (simp add: is_pending_def)
qed

lemma claims_after_claim:
  assumes "inv s" and "jobs_of s i = Some j" and "\<not> is_pending j"
  shows "claim_results ops i claims s = replicate (length claims) False"
  using assms
proof (induction claims)
  case Nil
  then show ?case by simp
next
  case (Cons c claims)
  obtain t w where c: "c = (t, w)" by (cases c)
  obtain b e s' where step: "ClaimJob ops t i w s = (b, e, s')"
    by (cases "ClaimJob ops t i w s")
  have "b = False" using ClaimJob_refused [OF Cons.prems, of t w] step by simp
  moreover from this have "s' = s" using ClaimJob_no [OF Cons.prems(1) step] by simp
  ultimately show ?case using Cons step c by simp
qed

text \<open>Of any claims on a job, one after the other, at most one is granted.\<close>

lemma claims_at_most_one:
  assumes "inv s"
  shows "count_list (claim_results ops i claims s) True \<le> 1"
  using assms
proof (induction claims)
  case Nil
  then show ?case by simp
next
  case (Cons c claims)
  obtain t w where c: "c = (t, w)" by (cases c)
  obtain b e s' where step: "ClaimJob ops t i w s = (b, e, s')"
    by (cases "ClaimJob ops t i w s")
  show ?case
  proof (cases "(b, e) = (True, None)")
    case True
    with step have "ClaimJob ops t i w s = (True, None, s')" by simp
    from ClaimJob_ok [OF Cons.prems this] obtain j
      where "inv s'" "jobs_of s' i = Some (claimed_by t w j)"
      by auto
    then have "claim_results ops i claims s' = replicate (length claims) False"
      by (rule claims_after_claim) (simp add: is_pending_def)
    with True step c show ?thesis by (simp add: count_list_0_iff)
  next
    case False
    then have "s' = s" by (rule ClaimJob_no [OF Cons.prems step])
    with False step c Cons show ?thesis by auto
  qed
qed

end

end
