(* ===== verification/GQ_Sort.thy ===== *)
theory GQ_Sort
  imports GQ_Store
begin

text \<open>
  Sorting jobs: the contract of \<open>sort.Slice\<close> as a locale, the comparison functions the
  program passes to it, and \<open>sortJobs\<close> of \<open>persistence/bolt_store.go\<close>.
  \<open>sort.Slice\<close> is not stable, so its result is only known to be an ordered permutation;
  every definition that sorts takes the sorting function as an argument.
\<close>

section \<open>The contract of \<open>sort.Slice\<close>\<close>

type_synonym sorter = "(Job \<Rightarrow> Job \<Rightarrow> bool) \<Rightarrow> Job list \<Rightarrow> Job list"

definition strict_weak :: "('a \<Rightarrow> 'a \<Rightarrow> bool) \<Rightarrow> bool" where
  "strict_weak lt \<longleftrightarrow>
     (\<forall>x y. lt x y \<longrightarrow> \<not> lt y x) \<and> (\<forall>x y z. lt x y \<longrightarrow> lt x z \<or> lt z y)"

text \<open>No element is less than one before it.\<close>

abbreviation ordered_by :: "('a \<Rightarrow> 'a \<Rightarrow> bool) \<Rightarrow> 'a list \<Rightarrow> bool" where
  "ordered_by lt xs \<equiv> sorted_wrt (\<lambda>x y. \<not> lt y x) xs"

lemma sorted_wrt_take_drop:
  "sorted_wrt P xs \<Longrightarrow> x \<in> set (take n xs) \<Longrightarrow> y \<in> set (drop n xs) \<Longrightarrow> P x y"
  by (metis append_take_drop_id sorted_wrt_append)

locale go_sort =
  fixes sort_slice :: sorter
  assumes sort_mset: "mset (sort_slice lt xs) = mset xs"
    and sort_ordered: "strict_weak lt \<Longrightarrow> ordered_by lt (sort_slice lt xs)"
begin

lemma sort_set [simp]: "set (sort_slice lt xs) = set xs"
  by (rule mset_eq_setD) (rule sort_mset)

lemma sort_length [simp]: "length (sort_slice lt xs) = length xs"
  by (rule mset_eq_length) (rule sort_mset)

lemma sort_distinct: "distinct (map f (sort_slice lt xs)) = distinct (map f xs)"
proof -
  have "mset (map f (sort_slice lt xs)) = mset (map f xs)" by (simp add: sort_mset)
  then show ?thesis by (rule mset_eq_imp_distinct_iff)
qed

text \<open>A prefix of a sorted list holds the least elements.\<close>

lemma sort_take_least:
  assumes "strict_weak lt" and "x \<in> set (take n (sort_slice lt xs))"
    and "y \<in> set (drop n (sort_slice lt xs))"
  shows "\<not> lt y x"
  using sorted_wrt_take_drop [OF sort_ordered [OF assms(1)] assms(2,3)] .

end

section \<open>Insertion sort\<close>

text \<open>
  What \<open>sort.Slice\<close> runs on short slices: each element moves left past the elements it
  is less than.
\<close>

fun insert_by :: "('a \<Rightarrow> 'a \<Rightarrow> bool) \<Rightarrow> 'a \<Rightarrow> 'a list \<Rightarrow> 'a list" where
  "insert_by lt x [] = [x]"
| "insert_by lt x (y # ys) = (if lt y x then y # insert_by lt x ys else x # y # ys)"

definition insertion_sort :: "('a \<Rightarrow> 'a \<Rightarrow> bool) \<Rightarrow> 'a list \<Rightarrow> 'a list" where
  "insertion_sort lt xs = foldr (insert_by lt) xs []"

lemma mset_insert_by: "mset (insert_by lt x xs) = add_mset x (mset xs)"
  by (induction xs) auto

lemma set_insert_by: "set (insert_by lt x xs) = insert x (set xs)"
  using mset_insert_by [of lt x xs] by (metis set_mset_add_mset_insert set_mset_mset)

lemma ordered_insert_by:
  assumes "strict_weak lt" and "ordered_by lt xs"
  shows "ordered_by lt (insert_by lt x xs)"
  using assms(2)
proof (induction xs)
  case Nil
  then show ?case by simp
next
  case (Cons y ys)
  show ?case
  proof (cases "lt y x")
    case True
    with assms(1) have "\<not> lt x y" by (auto simp: strict_weak_def)
    with True Cons show ?thesis by (auto simp: set_insert_by)
  next
    case False
    have "\<not> lt z x" if "z \<in> set ys" for z
      using assms(1) False that Cons.prems unfolding strict_weak_def by auto metis
    with False Cons.prems show ?thesis by auto
  qed
qed

interpretation ins: go_sort insertion_sort
proof unfold_locales
  fix lt :: "Job \<Rightarrow> Job \<Rightarrow> bool" and xs
  show "mset (insertion_sort lt xs) = mset xs"
    by (induction xs) (simp_all add: insertion_sort_def mset_insert_by)
  show "ordered_by lt (insertion_sort lt xs)" if "strict_weak lt"
    using that by (induction xs) (simp_all add: insertion_sort_def ordered_insert_by)
qed

section \<open>The program's orders\<close>

definition priority_less :: "Job \<Rightarrow> Job \<Rightarrow> bool" where
  "priority_less a b =
     (if Priority a \<noteq> Priority b then Priority a < Priority b else CreatedAt a < CreatedAt b)"

definition created_less :: "Job \<Rightarrow> Job \<Rightarrow> bool" where
  "created_less a b \<longleftrightarrow> CreatedAt a < CreatedAt b"

definition created_greater :: "Job \<Rightarrow> Job \<Rightarrow> bool" where
  "created_greater a b \<longleftrightarrow> CreatedAt a > CreatedAt b"

definition updated_greater :: "Job \<Rightarrow> Job \<Rightarrow> bool" where
  "updated_greater a b \<longleftrightarrow> UpdatedAt a > UpdatedAt b"

lemma strict_weak_orders [simp]:
  "strict_weak priority_less" "strict_weak created_less" "strict_weak created_greater"
  "strict_weak updated_greater"
  unfolding strict_weak_def priority_less_def created_less_def created_greater_def
    updated_greater_def
  by (auto split: if_splits)

text \<open>\<open>sortJobs\<close> has no case for an unknown order: the slice stays as it is.\<close>

definition sortJobs :: "sorter \<Rightarrow> Job list \<Rightarrow> ListOrder \<Rightarrow> Job list" where
  "sortJobs sort_slice jobs order =
     (case order of
        OrderCreatedAsc \<Rightarrow> sort_slice created_less jobs
      | OrderCreatedDesc \<Rightarrow> sort_slice created_greater jobs
      | OrderUpdatedDesc \<Rightarrow> sort_slice updated_greater jobs
      | OrderPriorityAsc \<Rightarrow> sort_slice priority_less jobs
      | OrderOther _ \<Rightarrow> jobs)"

fun less_of_order :: "ListOrder \<Rightarrow> Job \<Rightarrow> Job \<Rightarrow> bool" where
  "less_of_order OrderCreatedAsc = created_less"
| "less_of_order OrderCreatedDesc = created_greater"
| "less_of_order OrderUpdatedDesc = updated_greater"
| "less_of_order OrderPriorityAsc = priority_less"
| "less_of_order (OrderOther _) = (\<lambda>_ _. False)"

lemma strict_weak_less_of_order [simp]: "strict_weak (less_of_order order)"
  by (cases order) (simp_all, simp add: strict_weak_def)

context go_sort
begin

lemma sortJobs_mset: "mset (sortJobs sort_slice js order) = mset js"
  by (cases order) (simp_all add: sortJobs_def sort_mset)

lemma sortJobs_set [simp]: "set (sortJobs sort_slice js order) = set js"
  by (rule mset_eq_setD) (rule sortJobs_mset)

lemma sortJobs_length [simp]: "length (sortJobs sort_slice js order) = length js"
  by (rule mset_eq_length) (rule sortJobs_mset)

lemma sortJobs_distinct: "distinct (map f (sortJobs sort_slice js order)) = distinct (map f js)"
  by (cases order) (simp_all add: sortJobs_def sort_distinct)

lemma sortJobs_ordered: "ordered_by (less_of_order order) (sortJobs sort_slice js order)"
  by (cases order) (simp_all add: sortJobs_def sort_ordered sorted_wrt_true)

lemma sortJobs_take_least:
  assumes "x \<in> set (take n (sortJobs sort_slice js order))"
    and "y \<in> set (drop n (sortJobs sort_slice js order))"
  shows "\<not> less_of_order order y x"
  using sorted_wrt_take_drop [OF sortJobs_ordered assms] .

end

end
