(* ===== verification/GQ_Bolt.thy ===== *)
theory GQ_Bolt
  imports GQ_Sort "HOL-Library.Countable" "HOL-Library.List_Lexorder" "HOL-Library.Char_ord"
begin

text \<open>
  The durable store (\<open>persistence/bolt_store.go\<close>): one definition per method, run in
  the transactions of the bbolt database. The database, the gob codec, the UUID printer,
  \<open>sort.Slice\<close> and the size of the database file are not code of the repository: they
  are the record \<open>bolt_env\<close> of parameters, and the locale \<open>bolt_backend\<close> states the
  documented behaviour the store relies on. The store is shown to satisfy the contract of
  \<open>GQ_Store\<close> for every such environment.
\<close>

section \<open>The environment\<close>

datatype bucket =
    jobsBucket
  | resultsBucket
  | checkpointBucket
  | idempotencyBucket
  | indexBucket

text \<open>
  \<open>db_get\<close>, \<open>db_put\<close>, \<open>db_delete\<close> and \<open>db_cursor\<close> are the bucket operations
  inside a transaction (\<open>Put\<close> can fail, for instance on an oversized key),
  \<open>db_commit\<close> is the outcome of committing a read-write transaction.
\<close>

record 'db bolt_env =
  db_get :: "'db \<Rightarrow> bucket \<Rightarrow> bytes \<Rightarrow> bytes option"
  db_put :: "bucket \<Rightarrow> bytes \<Rightarrow> bytes \<Rightarrow> 'db \<Rightarrow> gerror + 'db"
  db_delete :: "bucket \<Rightarrow> bytes \<Rightarrow> 'db \<Rightarrow> gerror option \<times> 'db"
  db_cursor :: "'db \<Rightarrow> bucket \<Rightarrow> (bytes \<times> bytes) list"
  db_commit :: "'db \<Rightarrow> gerror option"
  gob_encode_job :: "Job \<Rightarrow> gerror + bytes"
  gob_decode_job :: "bytes \<Rightarrow> gerror + Job"
  gob_encode_result :: "JobResult \<Rightarrow> gerror + bytes"
  gob_decode_result :: "bytes \<Rightarrow> gerror + JobResult"
  uuid_String :: "uuid \<Rightarrow> bytes"
  sort_Slice :: sorter
  file_size :: "'db \<Rightarrow> int option"

text \<open>
  \<open>db.Update\<close>: the closure runs on the transaction's view; its error rolls the
  transaction back, and so does a failed commit. The first component is the variable the
  closure captures from the method.
\<close>

definition db_Update ::
    "'db bolt_env \<Rightarrow> ('db \<Rightarrow> 'a \<times> (gerror + 'db)) \<Rightarrow> 'db \<Rightarrow> 'a \<times> gerror option \<times> 'db" where
  "db_Update env f db =
     (case f db of
        (a, Inl e) \<Rightarrow> (a, Some e, db)
      | (a, Inr db') \<Rightarrow>
          (case db_commit env db' of Some e \<Rightarrow> (a, Some e, db) | None \<Rightarrow> (a, None, db')))"

definition db_Update_only ::
    "'db bolt_env \<Rightarrow> ('db \<Rightarrow> gerror + 'db) \<Rightarrow> 'db \<Rightarrow> gerror option \<times> 'db" where
  "db_Update_only env f db = snd (db_Update env (\<lambda>tx. ((), f tx)) db)"

definition encodeJob :: "'db bolt_env \<Rightarrow> Job \<Rightarrow> gerror + bytes" where
  "encodeJob env job = gob_encode_job env job"

definition decodeJob :: "'db bolt_env \<Rightarrow> bytes \<Rightarrow> gerror + Job" where
  "decodeJob env data = gob_decode_job env data"

definition encodeResult :: "'db bolt_env \<Rightarrow> JobResult \<Rightarrow> gerror + bytes" where
  "encodeResult env result = gob_encode_result env result"

definition decodeResult :: "'db bolt_env \<Rightarrow> bytes \<Rightarrow> gerror + JobResult" where
  "decodeResult env data = gob_decode_result env data"

section \<open>Operations\<close>

definition bolt_Create :: "'db bolt_env \<Rightarrow> Job \<Rightarrow> 'db \<Rightarrow> gerror option \<times> 'db" where
  "bolt_Create env job = db_Update_only env (\<lambda>tx.
     let key = uuid_String env (ID job)
     in if IdempotencyKey job \<noteq> '''' \<and> db_get env tx idempotencyBucket (IdempotencyKey job) \<noteq> None
        then Inl ErrJobAlreadyExists
        else if db_get env tx jobsBucket key \<noteq> None then Inl ErrJobAlreadyExists
        else case encodeJob env job of
            Inl e \<Rightarrow> Inl e
          | Inr data \<Rightarrow>
              (case db_put env jobsBucket key data tx of
                 Inl e \<Rightarrow> Inl e
               | Inr tx1 \<Rightarrow>
                   if IdempotencyKey job \<noteq> ''''
                   then db_put env idempotencyBucket (IdempotencyKey job) key tx1
                   else Inr tx1))"

definition bolt_Get :: "'db bolt_env \<Rightarrow> uuid \<Rightarrow> 'db \<Rightarrow> gerror + Job" where
  "bolt_Get env i db =
     (case db_get env db jobsBucket (uuid_String env i) of
        None \<Rightarrow> Inl ErrJobNotFound
      | Some data \<Rightarrow> decodeJob env data)"

definition bolt_GetByIdempotencyKey :: "'db bolt_env \<Rightarrow> string \<Rightarrow> 'db \<Rightarrow> gerror + Job" where
  "bolt_GetByIdempotencyKey env key db =
     (case db_get env db idempotencyBucket key of
        None \<Rightarrow> Inl ErrJobNotFound
      | Some jobID \<Rightarrow>
          (case db_get env db jobsBucket jobID of
             None \<Rightarrow> Inl ErrJobNotFound
           | Some data \<Rightarrow> decodeJob env data))"

text \<open>The timestamp is set on the caller's job before the transaction starts.\<close>

definition bolt_Update ::
    "'db bolt_env \<Rightarrow> instant \<Rightarrow> Job \<Rightarrow> 'db \<Rightarrow> Job \<times> gerror option \<times> 'db" where
  "bolt_Update env t job db =
     (let job' = job\<lparr>UpdatedAt := t\<rparr>; key = uuid_String env (ID job')
      in (job', db_Update_only env (\<lambda>tx.
            if db_get env tx jobsBucket key = None then Inl ErrJobNotFound
            else case encodeJob env job' of
                Inl e \<Rightarrow> Inl e
              | Inr data \<Rightarrow> db_put env jobsBucket key data tx) db))"

definition bolt_UpdateState ::
    "'db bolt_env \<Rightarrow> instant \<Rightarrow> uuid \<Rightarrow> JobState \<Rightarrow> 'db \<Rightarrow> gerror option \<times> 'db" where
  "bolt_UpdateState env t i st = db_Update_only env (\<lambda>tx.
     let key = uuid_String env i
     in case db_get env tx jobsBucket key of
          None \<Rightarrow> Inl ErrJobNotFound
        | Some data \<Rightarrow>
            (case decodeJob env data of
               Inl e \<Rightarrow> Inl e
             | Inr job \<Rightarrow>
                 (case encodeJob env (job\<lparr>State := st, UpdatedAt := t\<rparr>) of
                    Inl e \<Rightarrow> Inl e
                  | Inr newData \<Rightarrow> db_put env jobsBucket key newData tx)))"

text \<open>The errors of the first three deletions are ignored.\<close>

definition bolt_Delete :: "'db bolt_env \<Rightarrow> uuid \<Rightarrow> 'db \<Rightarrow> gerror option \<times> 'db" where
  "bolt_Delete env i = db_Update_only env (\<lambda>tx.
     let key = uuid_String env i
     in case db_get env tx jobsBucket key of
          None \<Rightarrow> Inl ErrJobNotFound
        | Some data \<Rightarrow>
            (case decodeJob env data of
               Inl e \<Rightarrow> Inl e
             | Inr job \<Rightarrow>
                 let tx1 = (if IdempotencyKey job \<noteq> ''''
                            then snd (db_delete env idempotencyBucket (IdempotencyKey job) tx)
                            else tx);
                     tx2 = snd (db_delete env checkpointBucket key tx1);
                     tx3 = snd (db_delete env resultsBucket key tx2)
                 in case db_delete env jobsBucket key tx3 of
                      (Some e, _) \<Rightarrow> Inl e
                    | (None, tx4) \<Rightarrow> Inr tx4))"

text \<open>
  The cursor loops decode each entry in key order and skip the ones that do not decode.
\<close>

fun decoded_jobs :: "'db bolt_env \<Rightarrow> (bytes \<times> bytes) list \<Rightarrow> Job list" where
  "decoded_jobs env [] = []"
| "decoded_jobs env ((k, v) # kvs) =
     (case decodeJob env v of
        Inl e \<Rightarrow> decoded_jobs env kvs
      | Inr job \<Rightarrow> job # decoded_jobs env kvs)"

definition scan_jobs :: "'db bolt_env \<Rightarrow> 'db \<Rightarrow> Job list" where
  "scan_jobs env db = decoded_jobs env (db_cursor env db jobsBucket)"

definition bolt_List :: "'db bolt_env \<Rightarrow> JobFilter \<Rightarrow> 'db \<Rightarrow> gerror + Job list" where
  "bolt_List env flt db =
     (let limit = (if Limit flt \<le> 0 then 100 else Limit flt);
          result = filter (\<lambda>job. matchesFilter job flt) (scan_jobs env db);
          sorted = sortJobs (sort_Slice env) result (Order flt)
      in Inr (if int (length sorted) > limit then take (nat limit) sorted else sorted))"

definition bolt_Count :: "'db bolt_env \<Rightarrow> JobFilter \<Rightarrow> 'db \<Rightarrow> gerror + int" where
  "bolt_Count env flt db =
     Inr (fold (\<lambda>job n. if matchesFilter job flt then n + 1 else n) (scan_jobs env db) 0)"

definition bolt_GetPending :: "'db bolt_env \<Rightarrow> int \<Rightarrow> 'db \<Rightarrow> gerror + Job list" where
  "bolt_GetPending env limit db =
     (case bolt_List env (pending_filter limit) db of
        Inl e \<Rightarrow> Inl e
      | Inr jobs \<Rightarrow> Inr (sort_Slice env priority_less jobs))"

definition bolt_GetDelayed :: "'db bolt_env \<Rightarrow> instant \<Rightarrow> int \<Rightarrow> 'db \<Rightarrow> gerror + Job list" where
  "bolt_GetDelayed env t limit db =
     Inr (scan_while (\<lambda>job. State job = JobStateDelayed \<and> \<not> ScheduledAt job > t) limit
       (scan_jobs env db) [])"

definition bolt_GetStuck :: "'db bolt_env \<Rightarrow> instant \<Rightarrow> duration \<Rightarrow> 'db \<Rightarrow> gerror + Job list" where
  "bolt_GetStuck env t visibilityTimeout db =
     (let cutoff = ago t visibilityTimeout
      in Inr (filter (\<lambda>job. State job = JobStateRunning \<and> \<not> IsZero (StartedAt job) \<and>
                StartedAt job < cutoff) (scan_jobs env db)))"

text \<open>\<open>claimed\<close> is set before the final \<open>Put\<close>, so it can be true next to an error.\<close>

definition bolt_ClaimJob ::
    "'db bolt_env \<Rightarrow> instant \<Rightarrow> uuid \<Rightarrow> string \<Rightarrow> 'db \<Rightarrow> bool \<times> gerror option \<times> 'db" where
  "bolt_ClaimJob env t i workerID = db_Update env (\<lambda>tx.
     let key = uuid_String env i
     in case db_get env tx jobsBucket key of
          None \<Rightarrow> (False, Inl ErrJobNotFound)
        | Some data \<Rightarrow>
            (case decodeJob env data of
               Inl e \<Rightarrow> (False, Inl e)
             | Inr job \<Rightarrow>
                 if State job \<noteq> JobStateScheduled \<and> State job \<noteq> JobStatePending
                 then (False, Inr tx)
                 else case encodeJob env
                     (job\<lparr>State := JobStateRunning, WorkerID := workerID, StartedAt := t,
                          UpdatedAt := t, Attempt := wrap64 (Attempt job + 1)\<rparr>) of
                     Inl e \<Rightarrow> (False, Inl e)
                   | Inr newData \<Rightarrow> (True, db_put env jobsBucket key newData tx)))"

definition bolt_SaveResult :: "'db bolt_env \<Rightarrow> JobResult \<Rightarrow> 'db \<Rightarrow> gerror option \<times> 'db" where
  "bolt_SaveResult env result = db_Update_only env (\<lambda>tx.
     case encodeResult env result of
       Inl e \<Rightarrow> Inl e
     | Inr data \<Rightarrow> db_put env resultsBucket (uuid_String env (JobID result)) data tx)"

definition bolt_GetResult :: "'db bolt_env \<Rightarrow> uuid \<Rightarrow> 'db \<Rightarrow> gerror + JobResult" where
  "bolt_GetResult env i db =
     (case db_get env db resultsBucket (uuid_String env i) of
        None \<Rightarrow> Inl ErrJobNotFound
      | Some data \<Rightarrow> decodeResult env data)"

definition bolt_SaveCheckpoint ::
    "'db bolt_env \<Rightarrow> uuid \<Rightarrow> bytes \<Rightarrow> 'db \<Rightarrow> gerror option \<times> 'db" where
  "bolt_SaveCheckpoint env i data = db_Update_only env (\<lambda>tx.
     db_put env checkpointBucket (uuid_String env i) data tx)"

definition bolt_GetCheckpoint :: "'db bolt_env \<Rightarrow> uuid \<Rightarrow> 'db \<Rightarrow> gerror + bytes option" where
  "bolt_GetCheckpoint env i db = Inr (db_get env db checkpointBucket (uuid_String env i))"

definition bolt_Stats :: "'db bolt_env \<Rightarrow> instant \<Rightarrow> 'db \<Rightarrow> gerror + QueueStats" where
  "bolt_Stats env t db =
     (let stats = fold (\<lambda>job st. tally_state job (st\<lparr>QTotalJobs := QTotalJobs st + 1\<rparr>))
            (scan_jobs env db) (zero_QueueStats\<lparr>QTimestamp := t\<rparr>)
      in Inr (case file_size env db of
                None \<Rightarrow> stats
              | Some n \<Rightarrow> stats\<lparr>QStorageBytes := n\<rparr>))"

definition bolt_expired :: "instant \<Rightarrow> Job \<Rightarrow> bool" where
  "bolt_expired cutoff job \<longleftrightarrow>
     (State job = JobStateCompleted \<or> State job = JobStateFailed \<or>
      State job = JobStateCancelled) \<and>
     \<not> IsZero (CompletedAt job) \<and> CompletedAt job < cutoff"

text \<open>The first loop collects the keys and deletes the idempotency entries.\<close>

definition bolt_cleanup_entry ::
    "'db bolt_env \<Rightarrow> instant \<Rightarrow> bytes \<times> bytes \<Rightarrow> bytes list \<times> 'db \<Rightarrow> bytes list \<times> 'db" where
  "bolt_cleanup_entry env cutoff = (\<lambda>(k, v) (toDelete, tx).
     case decodeJob env v of
       Inl e \<Rightarrow> (toDelete, tx)
     | Inr job \<Rightarrow>
         if bolt_expired cutoff job
         then (toDelete @ [k],
               if IdempotencyKey job \<noteq> ''''
               then snd (db_delete env idempotencyBucket (IdempotencyKey job) tx)
               else tx)
         else (toDelete, tx))"

text \<open>The second loop deletes, and counts.\<close>

definition bolt_cleanup_delete ::
    "'db bolt_env \<Rightarrow> bytes \<Rightarrow> int \<times> 'db \<Rightarrow> int \<times> 'db" where
  "bolt_cleanup_delete env k = (\<lambda>(removed, tx).
     (removed + 1,
      snd (db_delete env checkpointBucket k
        (snd (db_delete env resultsBucket k (snd (db_delete env jobsBucket k tx)))))))"

definition bolt_Cleanup ::
    "'db bolt_env \<Rightarrow> instant \<Rightarrow> duration \<Rightarrow> 'db \<Rightarrow> int \<times> gerror option \<times> 'db" where
  "bolt_Cleanup env t retention = db_Update env (\<lambda>tx.
     let cutoff = ago t retention;
         (toDelete, tx1) =
           fold (bolt_cleanup_entry env cutoff) (db_cursor env tx jobsBucket) ([], tx);
         (removed, tx2) = fold (bolt_cleanup_delete env) toDelete (0, tx1)
     in (removed, Inr tx2))"

definition bolt_store :: "'db bolt_env \<Rightarrow> 'db JobStore" where
  "bolt_store env = \<lparr>Create = bolt_Create env, Get = bolt_Get env,
     GetByIdempotencyKey = bolt_GetByIdempotencyKey env, Update = bolt_Update env,
     UpdateState = bolt_UpdateState env, Delete = bolt_Delete env, List = bolt_List env,
     Count = bolt_Count env, GetPending = bolt_GetPending env,
     GetDelayed = bolt_GetDelayed env, GetStuck = bolt_GetStuck env,
     ClaimJob = bolt_ClaimJob env, SaveResult = bolt_SaveResult env,
     GetResult = bolt_GetResult env, SaveCheckpoint = bolt_SaveCheckpoint env,
     GetCheckpoint = bolt_GetCheckpoint env, Stats = bolt_Stats env,
     Cleanup = bolt_Cleanup env\<rparr>"

lemma bolt_store_simps [simp]:
  "Create (bolt_store env) = bolt_Create env" "Get (bolt_store env) = bolt_Get env"
  "GetByIdempotencyKey (bolt_store env) = bolt_GetByIdempotencyKey env"
  "Update (bolt_store env) = bolt_Update env" "UpdateState (bolt_store env) = bolt_UpdateState env"
  "Delete (bolt_store env) = bolt_Delete env" "List (bolt_store env) = bolt_List env"
  "Count (bolt_store env) = bolt_Count env" "GetPending (bolt_store env) = bolt_GetPending env"
  "GetDelayed (bolt_store env) = bolt_GetDelayed env" "GetStuck (bolt_store env) = bolt_GetStuck env"
  "ClaimJob (bolt_store env) = bolt_ClaimJob env" "SaveResult (bolt_store env) = bolt_SaveResult env"
  "GetResult (bolt_store env) = bolt_GetResult env"
  "SaveCheckpoint (bolt_store env) = bolt_SaveCheckpoint env"
  "GetCheckpoint (bolt_store env) = bolt_GetCheckpoint env" "Stats (bolt_store env) = bolt_Stats env"
  "Cleanup (bolt_store env) = bolt_Cleanup env"
  by (simp_all add: bolt_store_def)

section \<open>What the store relies on\<close>

text \<open>
  The documented behaviour of the parameters. \<open>db_ok\<close> is whatever invariant the database
  keeps of its files. A bucket returns what was last put; its cursor lists its entries in
  the byte order of the keys; deleting in a read-write transaction does not fail. What gob
  encodes, it decodes back. Distinct UUIDs print differently, and never as the empty string.
\<close>

locale bolt_backend = go_sort "sort_Slice env" for env :: "'db bolt_env" +
  fixes db_ok :: "'db \<Rightarrow> bool"
  assumes get_put: "db_ok db \<Longrightarrow> db_put env b k v db = Inr db' \<Longrightarrow>
      db_ok db' \<and> db_get env db' b' k' = (if b' = b \<and> k' = k then Some v else db_get env db b' k')"
    and get_delete: "db_ok db \<Longrightarrow> db_delete env b k db = (e, db') \<Longrightarrow>
      e = None \<and> db_ok db' \<and>
      db_get env db' b' k' = (if b' = b \<and> k' = k then None else db_get env db b' k')"
    and cursor_sorted: "db_ok db \<Longrightarrow> sorted_wrt (<) (map fst (db_cursor env db b))"
    and cursor_get: "db_ok db \<Longrightarrow> map_of (db_cursor env db b) k = db_get env db b k"
    and decode_job: "gob_encode_job env j = Inr data \<Longrightarrow> gob_decode_job env data = Inr j"
    and decode_result: "gob_encode_result env r = Inr data \<Longrightarrow> gob_decode_result env data = Inr r"
    and uuid_inj: "inj (uuid_String env)"
    and uuid_nonempty: "uuid_String env i \<noteq> []"

text \<open>
  The abstract contents of a database, and the store's own invariant: a job's entry decodes
  to a job whose ID is the entry's key, a result's entry decodes, and an idempotency entry
  names a UUID.
\<close>

definition bolt_jobs_of :: "'db bolt_env \<Rightarrow> 'db \<Rightarrow> uuid \<Rightarrow> Job option" where
  "bolt_jobs_of env db i =
     (case db_get env db jobsBucket (uuid_String env i) of
        None \<Rightarrow> None
      | Some data \<Rightarrow> (case decodeJob env data of Inl e \<Rightarrow> None | Inr j \<Rightarrow> Some j))"

definition bolt_results_of :: "'db bolt_env \<Rightarrow> 'db \<Rightarrow> uuid \<Rightarrow> JobResult option" where
  "bolt_results_of env db i =
     (case db_get env db resultsBucket (uuid_String env i) of
        None \<Rightarrow> None
      | Some data \<Rightarrow> (case decodeResult env data of Inl e \<Rightarrow> None | Inr r \<Rightarrow> Some r))"

definition bolt_checkpoints_of :: "'db bolt_env \<Rightarrow> 'db \<Rightarrow> uuid \<Rightarrow> bytes option" where
  "bolt_checkpoints_of env db i = db_get env db checkpointBucket (uuid_String env i)"

definition bolt_idem_of :: "'db bolt_env \<Rightarrow> 'db \<Rightarrow> string \<Rightarrow> uuid option" where
  "bolt_idem_of env db key =
     map_option (the_inv (uuid_String env)) (db_get env db idempotencyBucket key)"

definition job_entry :: "'db bolt_env \<Rightarrow> bytes \<Rightarrow> bytes \<Rightarrow> bool" where
  "job_entry env k data \<longleftrightarrow> (\<exists>j. decodeJob env data = Inr j \<and> k = uuid_String env (ID j))"

definition bolt_inv :: "'db bolt_env \<Rightarrow> ('db \<Rightarrow> bool) \<Rightarrow> 'db \<Rightarrow> bool" where
  "bolt_inv env db_ok db \<longleftrightarrow> db_ok db \<and>
     (\<forall>k data. db_get env db jobsBucket k = Some data \<longrightarrow> job_entry env k data) \<and>
     (\<forall>k data. db_get env db resultsBucket k = Some data \<longrightarrow> (\<exists>r. decodeResult env data = Inr r)) \<and>
     (\<forall>k data. db_get env db idempotencyBucket k = Some data \<longrightarrow> (\<exists>i. data = uuid_String env i))"

text \<open>Writing a job can succeed: it encodes, the bucket takes it and the commit goes through.\<close>

definition bolt_writable :: "'db bolt_env \<Rightarrow> 'db \<Rightarrow> Job \<Rightarrow> bool" where
  "bolt_writable env db j \<longleftrightarrow>
     (\<exists>data db'. encodeJob env j = Inr data \<and>
        db_put env jobsBucket (uuid_String env (ID j)) data db = Inr db' \<and>
        db_commit env db' = None)"

section \<open>Transactions\<close>

lemma db_Update_err:
  "db_Update env f db = (a, Some e, db') \<Longrightarrow> db' = db"
  by (auto simp: db_Update_def split: prod.splits sum.splits option.splits)

lemma db_Update_ok:
  "db_Update env f db = (a, None, db') \<longleftrightarrow> f db = (a, Inr db') \<and> db_commit env db' = None"
  by (auto simp: db_Update_def split: prod.splits sum.splits option.splits)

lemma db_Update_fails:
  "f db = (a, Inl e) \<Longrightarrow> db_Update env f db = (a, Some e, db)"
  by (simp add: db_Update_def)

lemma db_Update_fst: "fst (db_Update env f db) = fst (f db)"
  by (auto simp: db_Update_def split: prod.splits sum.splits option.splits)

lemma db_Update_only_err:
  "db_Update_only env f db = (Some e, db') \<Longrightarrow> db' = db"
  by (auto simp: db_Update_only_def db_Update_def split: sum.splits option.splits)

lemma db_Update_only_ok:
  "db_Update_only env f db = (None, db') \<longleftrightarrow> f db = Inr db' \<and> db_commit env db' = None"
  by (auto simp: db_Update_only_def db_Update_def split: sum.splits option.splits)

lemma db_Update_only_fails:
  "f db = Inl e \<Longrightarrow> db_Update_only env f db = (Some e, db)"
  by (simp add: db_Update_only_def db_Update_def)

section \<open>The store satisfies the contract\<close>

context bolt_backend
begin

lemma decode_encode_job [simp]: "encodeJob env j = Inr data \<Longrightarrow> decodeJob env data = Inr j"
  by (simp add: encodeJob_def decodeJob_def decode_job)

lemma decode_encode_result [simp]:
  "encodeResult env r = Inr data \<Longrightarrow> decodeResult env data = Inr r"
  by (simp add: encodeResult_def decodeResult_def decode_result)

lemma uuid_eq [simp]: "uuid_String env i = uuid_String env i' \<longleftrightarrow> i = i'"
  using uuid_inj by (auto dest: injD)

lemma the_inv_uuid [simp]: "the_inv (uuid_String env) (uuid_String env i) = i"
  using uuid_inj by (rule the_inv_f_f)

abbreviation "binv \<equiv> bolt_inv env db_ok"
abbreviation "jobs_of \<equiv> bolt_jobs_of env"
abbreviation "results_of \<equiv> bolt_results_of env"
abbreviation "checkpoints_of \<equiv> bolt_checkpoints_of env"
abbreviation "idem_of \<equiv> bolt_idem_of env"

lemma entry_decodes:
  assumes "binv db" and "db_get env db jobsBucket (uuid_String env i) = Some data"
  shows "\<exists>j. decodeJob env data = Inr j \<and> ID j = i"
  using assms unfolding bolt_inv_def job_entry_def by fastforce

lemma jobs_of_None:
  assumes "binv db"
  shows "jobs_of db i = None \<longleftrightarrow> db_get env db jobsBucket (uuid_String env i) = None"
  using entry_decodes [OF assms, of i] by (auto simp: bolt_jobs_of_def split: option.splits sum.splits)

lemma jobs_of_Some:
  assumes "binv db"
  shows "jobs_of db i = Some j \<longleftrightarrow>
    (\<exists>data. db_get env db jobsBucket (uuid_String env i) = Some data \<and> decodeJob env data = Inr j)"
  by (auto simp: bolt_jobs_of_def split: option.splits sum.splits)

lemma jobs_of_ID:
  assumes "binv db" and "jobs_of db i = Some j"
  shows "ID j = i"
  using assms(2) entry_decodes [OF assms(1), of i] unfolding jobs_of_Some [OF assms(1)] by force

lemma put_job:
  assumes "binv db" and "encodeJob env j = Inr data"
    and "db_put env jobsBucket (uuid_String env (ID j)) data db = Inr db'"
  shows "binv db'" and "jobs_of db' = (jobs_of db)(ID j \<mapsto> j)" and "results_of db' = results_of db"
    and "checkpoints_of db' = checkpoints_of db" and "idem_of db' = idem_of db"
proof -
  have ok: "db_ok db" using assms(1) by (simp add: bolt_inv_def)
  note get = get_put [OF ok assms(3), THEN conjunct2]
  show "jobs_of db' = (jobs_of db)(ID j \<mapsto> j)"
    using assms(2) by (auto simp: bolt_jobs_of_def get fun_eq_iff)
  show "results_of db' = results_of db" and "checkpoints_of db' = checkpoints_of db"
    and "idem_of db' = idem_of db"
    by (simp_all add: bolt_results_of_def bolt_checkpoints_of_def bolt_idem_of_def get fun_eq_iff)
  show "binv db'"
    using assms(1,2) get_put [OF ok assms(3), THEN conjunct1]
    unfolding bolt_inv_def get by (auto simp: job_entry_def)
qed

lemma put_idem:
  assumes "binv db" and "db_put env idempotencyBucket key (uuid_String env i) db = Inr db'"
  shows "binv db'" and "jobs_of db' = jobs_of db" and "results_of db' = results_of db"
    and "checkpoints_of db' = checkpoints_of db" and "idem_of db' = (idem_of db)(key \<mapsto> i)"
proof -
  have ok: "db_ok db" using assms(1) by (simp add: bolt_inv_def)
  note get = get_put [OF ok assms(2), THEN conjunct2]
  show "jobs_of db' = jobs_of db" and "results_of db' = results_of db"
    and "checkpoints_of db' = checkpoints_of db" and "idem_of db' = (idem_of db)(key \<mapsto> i)"
    by (auto simp: bolt_jobs_of_def bolt_results_of_def bolt_checkpoints_of_def bolt_idem_of_def
        get fun_eq_iff)
  show "binv db'"
    using assms(1) get_put [OF ok assms(2), THEN conjunct1] unfolding bolt_inv_def get by auto
qed

lemma put_result:
  assumes "binv db" and "encodeResult env r = Inr data"
    and "db_put env resultsBucket (uuid_String env (JobID r)) data db = Inr db'"
  shows "binv db'" and "jobs_of db' = jobs_of db"
    and "results_of db' = (results_of db)(JobID r \<mapsto> r)"
    and "checkpoints_of db' = checkpoints_of db" and "idem_of db' = idem_of db"
proof -
  have ok: "db_ok db" using assms(1) by (simp add: bolt_inv_def)
  note get = get_put [OF ok assms(3), THEN conjunct2]
  show "jobs_of db' = jobs_of db" and "results_of db' = (results_of db)(JobID r \<mapsto> r)"
    and "checkpoints_of db' = checkpoints_of db" and "idem_of db' = idem_of db"
    using assms(2)
    by (auto simp: bolt_jobs_of_def bolt_results_of_def bolt_checkpoints_of_def bolt_idem_of_def
        get fun_eq_iff)
  show "binv db'"
    using assms(1,2) get_put [OF ok assms(3), THEN conjunct1] unfolding bolt_inv_def get by auto
qed

lemma put_checkpoint:
  assumes "binv db" and "db_put env checkpointBucket (uuid_String env i) data db = Inr db'"
  shows "binv db'" and "jobs_of db' = jobs_of db" and "results_of db' = results_of db"
    and "checkpoints_of db' = (checkpoints_of db)(i \<mapsto> data)" and "idem_of db' = idem_of db"
proof -
  have ok: "db_ok db" using assms(1) by (simp add: bolt_inv_def)
  note get = get_put [OF ok assms(2), THEN conjunct2]
  show "jobs_of db' = jobs_of db" and "results_of db' = results_of db"
    and "checkpoints_of db' = (checkpoints_of db)(i \<mapsto> data)" and "idem_of db' = idem_of db"
    by (auto simp: bolt_jobs_of_def bolt_results_of_def bolt_checkpoints_of_def bolt_idem_of_def
        get fun_eq_iff)
  show "binv db'"
    using assms(1) get_put [OF ok assms(2), THEN conjunct1] unfolding bolt_inv_def get by auto
qed

lemma delete_get:
  assumes "db_ok db"
  shows "db_get env (snd (db_delete env b k db)) b' k' =
      (if b' = b \<and> k' = k then None else db_get env db b' k')"
    and "db_ok (snd (db_delete env b k db))" and "fst (db_delete env b k db) = None"
  using get_delete [OF assms, of b k] by (cases "db_delete env b k db", force)+

lemma delete_binv: "binv db \<Longrightarrow> binv (snd (db_delete env b k db))"
  unfolding bolt_inv_def by (auto simp: delete_get split: if_splits)

text \<open>The scans: the decoded jobs of the cursor are the stored jobs, each once.\<close>

lemma decoded_mem: "j \<in> set (decoded_jobs env kvs) \<longleftrightarrow> (\<exists>(k, v) \<in> set kvs. decodeJob env v = Inr j)"
  by (induction kvs) (auto split: sum.splits)

lemma decoded_keys:
  "list_all (\<lambda>(k, v). job_entry env k v) kvs \<Longrightarrow>
     map (\<lambda>j. uuid_String env (ID j)) (decoded_jobs env kvs) = map fst kvs"
  by (induction kvs) (auto simp: job_entry_def)

lemma cursor_mem:
  assumes "db_ok db"
  shows "(k, v) \<in> set (db_cursor env db b) \<longleftrightarrow> db_get env db b k = Some v"
    and "distinct (map fst (db_cursor env db b))"
proof -
  show d: "distinct (map fst (db_cursor env db b))"
    using cursor_sorted [OF assms, of b] by (simp add: strict_sorted_iff)
  show "(k, v) \<in> set (db_cursor env db b) \<longleftrightarrow> db_get env db b k = Some v"
    using cursor_get [OF assms, of b k] d by (metis map_of_eq_Some_iff)
qed

lemma scan_entries:
  assumes "binv db"
  shows "list_all (\<lambda>(k, v). job_entry env k v) (db_cursor env db jobsBucket)"
  using assms cursor_mem(1) by (auto simp: bolt_inv_def list_all_iff)

lemma scan_mem:
  assumes "binv db"
  shows "j \<in> set (scan_jobs env db) \<longleftrightarrow> jobs_of db (ID j) = Some j"
proof -
  have ok: "db_ok db" using assms by (simp add: bolt_inv_def)
  have "j \<in> set (scan_jobs env db) \<longleftrightarrow>
      (\<exists>k v. db_get env db jobsBucket k = Some v \<and> decodeJob env v = Inr j)"
    unfolding scan_jobs_def decoded_mem using cursor_mem(1) [OF ok] by blast
  also have "\<dots> \<longleftrightarrow> jobs_of db (ID j) = Some j"
    unfolding jobs_of_Some [OF assms] using assms by (fastforce simp: bolt_inv_def job_entry_def)
  finally show ?thesis .
qed

lemma scan_distinct:
  assumes "binv db"
  shows "distinct (map ID (scan_jobs env db))"
proof -
  have "map (uuid_String env) (map ID (scan_jobs env db)) = map fst (db_cursor env db jobsBucket)"
    using decoded_keys [OF scan_entries [OF assms]] by (simp add: scan_jobs_def comp_def)
  then have "distinct (map (uuid_String env) (map ID (scan_jobs env db)))"
    using cursor_mem(2) assms by (simp add: bolt_inv_def)
  then show ?thesis by (simp only: distinct_map)
qed

lemma bolt_List_eq:
  "bolt_List env flt db = Inr (take (nat (effective_limit (Limit flt)))
     (sortJobs (sort_Slice env) (filter (\<lambda>j. matchesFilter j flt) (scan_jobs env db)) (Order flt)))"
  by (auto simp: bolt_List_def effective_limit_def Let_def)

lemma bolt_GetPending_eq:
  "bolt_GetPending env limit db = Inr (sort_Slice env priority_less
     (take (nat (effective_limit limit))
       (sortJobs (sort_Slice env) (filter is_pending (scan_jobs env db)) OrderPriorityAsc)))"
  by (simp add: bolt_GetPending_def bolt_List_eq) (simp add: pending_filter_def)

lemma bolt_GetPending_law:
  assumes "binv db"
  shows "\<exists>js. bolt_GetPending env limit db = Inr js \<and> distinct (map ID js) \<and>
      (\<forall>j \<in> set js. jobs_of db (ID j) = Some j \<and> is_pending j) \<and>
      int (length js) \<le> effective_limit limit \<and>
      (int (length js) < effective_limit limit \<longrightarrow>
         (\<forall>i j. jobs_of db i = Some j \<and> is_pending j \<longrightarrow> j \<in> set js))"
proof -
  let ?all = "sortJobs (sort_Slice env) (filter is_pending (scan_jobs env db)) OrderPriorityAsc"
  let ?n = "nat (effective_limit limit)"
  let ?js = "sort_Slice env priority_less (take ?n ?all)"
  have mem: "j \<in> set ?all \<longleftrightarrow> jobs_of db (ID j) = Some j \<and> is_pending j" for j
    using scan_mem [OF assms] by auto
  have "distinct (map ID ?all)"
    unfolding sortJobs_distinct by (rule distinct_map_filter) (rule scan_distinct [OF assms])
  then have "distinct (map ID ?js)"
    unfolding sort_distinct by (metis distinct_take take_map)
  moreover have "\<forall>j \<in> set ?js. jobs_of db (ID j) = Some j \<and> is_pending j"
    unfolding sort_set using mem in_set_takeD by metis
  moreover have "int (length ?js) \<le> effective_limit limit"
    using less_imp_le [OF effective_limit_pos [of limit]] by auto
  moreover have "j \<in> set ?js"
    if "int (length ?js) < effective_limit limit" "jobs_of db i = Some j" "is_pending j" for i j
  proof -
    from that(1) have "take ?n ?all = ?all" by (auto simp: min_def split: if_splits)
    moreover have "j \<in> set ?all"
      using mem that(2,3) jobs_of_ID [OF assms that(2)] by simp
    ultimately show ?thesis unfolding sort_set by simp
  qed
  ultimately show ?thesis unfolding bolt_GetPending_eq by blast
qed

lemma bolt_GetDelayed_law:
  assumes "binv db"
  shows "\<exists>js. bolt_GetDelayed env t limit db = Inr js \<and> distinct (map ID js) \<and>
      (\<forall>j \<in> set js. jobs_of db (ID j) = Some j \<and> State j = JobStateDelayed \<and> ScheduledAt j \<le> t)"
proof -
  let ?p = "\<lambda>job. State job = JobStateDelayed \<and> \<not> ScheduledAt job > t"
  let ?js = "take (nat limit) (filter ?p (scan_jobs env db))"
  have "j \<in> set (filter ?p (scan_jobs env db))" if "j \<in> set ?js" for j
    using that by (rule in_set_takeD)
  then have "\<forall>j \<in> set ?js. jobs_of db (ID j) = Some j \<and> State j = JobStateDelayed \<and>
      ScheduledAt j \<le> t"
    unfolding set_filter mem_Collect_eq scan_mem [OF assms] not_less by blast
  moreover have "distinct (map ID ?js)"
    by (rule distinct_map_filter_take) (rule scan_distinct [OF assms])
  ultimately show ?thesis unfolding bolt_GetDelayed_def scan_while_take by blast
qed

lemma bolt_GetStuck_law:
  assumes "binv db"
  shows "\<exists>js. bolt_GetStuck env t d db = Inr js \<and> distinct (map ID js) \<and>
      (\<forall>j. j \<in> set js \<longleftrightarrow> jobs_of db (ID j) = Some j \<and> State j = JobStateRunning \<and>
         StartedAt j \<noteq> 0 \<and> StartedAt j < ago t d)"
proof -
  let ?p = "\<lambda>job. State job = JobStateRunning \<and> \<not> IsZero (StartedAt job) \<and> StartedAt job < ago t d"
  have "distinct (map ID (filter ?p (scan_jobs env db)))"
    by (rule distinct_map_filter) (rule scan_distinct [OF assms])
  then show ?thesis
    unfolding bolt_GetStuck_def Let_def using scan_mem [OF assms] by (auto simp: IsZero_def)
qed

text \<open>The writing operations.\<close>

lemma bolt_Create_ok:
  assumes "binv db" and "bolt_Create env j db = (None, db')"
  shows "binv db' \<and> jobs_of db (ID j) = None \<and> jobs_of db' = (jobs_of db)(ID j \<mapsto> j) \<and>
      results_of db' = results_of db \<and> checkpoints_of db' = checkpoints_of db \<and>
      (IdempotencyKey j = [] \<longrightarrow> idem_of db' = idem_of db) \<and>
      (IdempotencyKey j \<noteq> [] \<longrightarrow> idem_of db (IdempotencyKey j) = None \<and>
         idem_of db' = (idem_of db)(IdempotencyKey j \<mapsto> ID j))"
proof -
  let ?k = "uuid_String env (ID j)"
  from assms(2) obtain data db1
    where free: "IdempotencyKey j = [] \<or> db_get env db idempotencyBucket (IdempotencyKey j) = None"
      and new: "db_get env db jobsBucket ?k = None"
      and enc: "encodeJob env j = Inr data"
      and put: "db_put env jobsBucket ?k data db = Inr db1"
      and last: "(if IdempotencyKey j \<noteq> [] then db_put env idempotencyBucket (IdempotencyKey j) ?k db1
          else Inr db1) = Inr db'"
    unfolding bolt_Create_def db_Update_only_ok
    by (auto simp: Let_def split: if_splits sum.splits)
  note job = put_job [OF assms(1) enc put]
  from new have none: "jobs_of db (ID j) = None" by (simp add: bolt_jobs_of_def)
  show ?thesis
  proof (cases "IdempotencyKey j = []")
    case True
    with last job none show ?thesis by simp
  next
    case False
    with last have p: "db_put env idempotencyBucket (IdempotencyKey j) ?k db1 = Inr db'" by simp
    from False free have "idem_of db (IdempotencyKey j) = None" by (simp add: bolt_idem_of_def)
    with put_idem [OF job(1) p] job none False show ?thesis by simp
  qed
qed

lemma bolt_Update_ok:
  assumes "binv db" and "bolt_Update env t j db = (j', None, db')"
  shows "binv db' \<and> jobs_of db (ID j) \<noteq> None \<and> j' = j\<lparr>UpdatedAt := t\<rparr> \<and>
      jobs_of db' = (jobs_of db)(ID j \<mapsto> j') \<and> results_of db' = results_of db \<and>
      checkpoints_of db' = checkpoints_of db \<and> idem_of db' = idem_of db"
proof -
  let ?j = "j\<lparr>UpdatedAt := t\<rparr>"
  from assms(2) obtain data
    where j': "j' = ?j" and old: "db_get env db jobsBucket (uuid_String env (ID j)) \<noteq> None"
      and enc: "encodeJob env ?j = Inr data"
      and put: "db_put env jobsBucket (uuid_String env (ID ?j)) data db = Inr db'"
    unfolding bolt_Update_def by (auto simp: db_Update_only_ok Let_def split: if_splits sum.splits)
  from put_job [OF assms(1) enc put] old j' show ?thesis by (simp add: jobs_of_None [OF assms(1)])
qed

lemma bolt_UpdateState_ok:
  assumes "binv db" and "bolt_UpdateState env t i st db = (None, db')"
  shows "\<exists>j. jobs_of db i = Some j \<and> binv db' \<and>
        jobs_of db' = (jobs_of db)(i \<mapsto> j\<lparr>State := st, UpdatedAt := t\<rparr>) \<and>
        results_of db' = results_of db \<and> checkpoints_of db' = checkpoints_of db \<and>
        idem_of db' = idem_of db"
proof -
  from assms(2) obtain data0 j data
    where get: "db_get env db jobsBucket (uuid_String env i) = Some data0"
      and dec: "decodeJob env data0 = Inr j"
      and enc: "encodeJob env (j\<lparr>State := st, UpdatedAt := t\<rparr>) = Inr data"
      and put: "db_put env jobsBucket (uuid_String env i) data db = Inr db'"
    unfolding bolt_UpdateState_def db_Update_only_ok
    by (auto simp: Let_def split: option.splits sum.splits)
  have j: "jobs_of db i = Some j" using get dec jobs_of_Some [OF assms(1)] by blast
  have i: "ID (j\<lparr>State := st, UpdatedAt := t\<rparr>) = i" using jobs_of_ID [OF assms(1) j] by simp
  with put_job [OF assms(1) enc, of db'] put j show ?thesis by simp
qed

lemma bolt_ClaimJob_ok:
  assumes "binv db" and "bolt_ClaimJob env t i w db = (True, None, db')"
  shows "\<exists>j. jobs_of db i = Some j \<and> is_pending j \<and> binv db' \<and>
        jobs_of db' = (jobs_of db)(i \<mapsto> claimed_by t w j) \<and>
        results_of db' = results_of db \<and> checkpoints_of db' = checkpoints_of db \<and>
        idem_of db' = idem_of db"
proof -
  from assms(2) obtain data0 j data
    where get: "db_get env db jobsBucket (uuid_String env i) = Some data0"
      and dec: "decodeJob env data0 = Inr j" and pend: "is_pending j"
      and enc: "encodeJob env (claimed_by t w j) = Inr data"
      and put: "db_put env jobsBucket (uuid_String env i) data db = Inr db'"
    unfolding bolt_ClaimJob_def db_Update_ok
    by (auto simp: Let_def is_pending_def claimed_by_def split: option.splits sum.splits if_splits)
  have j: "jobs_of db i = Some j" using get dec jobs_of_Some [OF assms(1)] by blast
  have i: "ID (claimed_by t w j) = i" using jobs_of_ID [OF assms(1) j] by simp
  with put_job [OF assms(1) enc, of db'] put j pend show ?thesis by simp
qed

lemma bolt_Delete_ok:
  assumes "binv db" and "bolt_Delete env i db = (None, db')"
  shows "binv db' \<and> jobs_of db i \<noteq> None \<and> jobs_of db' = (jobs_of db)(i := None) \<and>
      results_of db' = (results_of db)(i := None) \<and>
      checkpoints_of db' = (checkpoints_of db)(i := None)"
proof -
  let ?k = "uuid_String env i"
  let ?del = "\<lambda>b k tx. snd (db_delete env b k tx)"
  from assms(2) obtain data j
    where get: "db_get env db jobsBucket ?k = Some data" and "decodeJob env data = Inr j"
      and db': "db' = ?del jobsBucket ?k (?del resultsBucket ?k (?del checkpointBucket ?k
        (if IdempotencyKey j \<noteq> [] then ?del idempotencyBucket (IdempotencyKey j) db else db)))"
    unfolding bolt_Delete_def db_Update_only_ok
    by (auto simp: Let_def split: option.splits sum.splits prod.splits if_splits)
  have ok: "db_ok db" using assms(1) by (simp add: bolt_inv_def)
  have inv: "binv db'" unfolding db' using assms(1) by (auto intro: delete_binv)
  have "jobs_of db i \<noteq> None" using jobs_of_None [OF assms(1)] get by simp
  moreover have "jobs_of db' = (jobs_of db)(i := None)"
      "results_of db' = (results_of db)(i := None)"
      "checkpoints_of db' = (checkpoints_of db)(i := None)"
    using ok by (simp_all add: db' bolt_jobs_of_def bolt_results_of_def bolt_checkpoints_of_def
        fun_eq_iff delete_get)
  ultimately show ?thesis using inv by simp
qed

end

lemmas bolt_fail_defs =
  bolt_Create_def bolt_UpdateState_def bolt_Delete_def bolt_SaveResult_def bolt_SaveCheckpoint_def

sublocale bolt_backend \<subseteq> store: job_store "bolt_store env" "bolt_inv env db_ok"
  "bolt_writable env" "bolt_jobs_of env" "bolt_results_of env" "bolt_checkpoints_of env"
  "bolt_idem_of env"
proof (unfold_locales, goal_cases)
  case 1 then show ?case by (rule jobs_of_ID)
next
  case (2 db i) then show ?case
    using entry_decodes [of db i]
    by (auto simp: bolt_Get_def bolt_jobs_of_def split: option.splits sum.splits)
next
  case (3 db key) show ?case
  proof (cases "db_get env db idempotencyBucket key")
    case None
    then show ?thesis by (simp add: bolt_GetByIdempotencyKey_def bolt_idem_of_def)
  next
    case (Some data)
    with 3 obtain i where "data = uuid_String env i" unfolding bolt_inv_def by blast
    with Some entry_decodes [OF 3, of i] show ?thesis
      by (auto simp: bolt_GetByIdempotencyKey_def bolt_idem_of_def bolt_jobs_of_def
          split: option.splits sum.splits)
  qed
next
  case (4 db j db') then show ?case using bolt_Create_ok [of db j db'] by simp
next
  case (5 db j e db') then show ?case
    by (auto simp: bolt_Create_def dest: db_Update_only_err)
next
  case (6 db j) then show ?case
    by (auto simp: bolt_Create_def bolt_idem_of_def intro!: db_Update_only_fails)
next
  case (7 db j) then show ?case
    by (auto simp: bolt_Create_def jobs_of_None db_Update_only_def db_Update_def Let_def)
next
  case (8 db t j j' db') then show ?case using bolt_Update_ok [of db t j j' db'] by simp
next
  case (9 db t j j' e db') then show ?case
    by (auto simp: bolt_Update_def Let_def dest: db_Update_only_err)
next
  case (10 db j t) then show ?case
    using jobs_of_None [of db "ID j"]
    by (simp add: bolt_Update_def Let_def db_Update_only_fails)
next
  case (11 db j t)
  then obtain data db' where "encodeJob env (j\<lparr>UpdatedAt := t\<rparr>) = Inr data"
      "db_put env jobsBucket (uuid_String env (ID j)) data db = Inr db'" "db_commit env db' = None"
    by (auto simp: bolt_writable_def)
  with 11 jobs_of_None [of db "ID j"] show ?case
    by (simp add: bolt_Update_def Let_def db_Update_only_def db_Update_def)
next
  case (12 db t i st db') then show ?case using bolt_UpdateState_ok [of db t i st db'] by simp
next
  case (13 db t i st e db') then show ?case
    by (auto simp: bolt_UpdateState_def dest: db_Update_only_err)
next
  case (14 db i t st) then show ?case
    using jobs_of_None [of db i] by (simp add: bolt_UpdateState_def Let_def db_Update_only_fails)
next
  case (15 db i j t st)
  then obtain data0 where "db_get env db jobsBucket (uuid_String env i) = Some data0"
      "decodeJob env data0 = Inr j"
    using jobs_of_Some [of db i j] by blast
  moreover have "ID j = i" using 15(1,2) by (rule jobs_of_ID)
  moreover obtain data db' where "encodeJob env (j\<lparr>State := st, UpdatedAt := t\<rparr>) = Inr data"
      "db_put env jobsBucket (uuid_String env (ID j)) data db = Inr db'" "db_commit env db' = None"
    using 15(3) by (auto simp: bolt_writable_def)
  ultimately show ?case
    by (simp add: bolt_UpdateState_def Let_def db_Update_only_def db_Update_def)
next
  case (16 db i db') then show ?case using bolt_Delete_ok [of db i db'] by simp
next
  case (17 db i e db') then show ?case by (auto simp: bolt_Delete_def dest: db_Update_only_err)
next
  case (18 db i) then show ?case
    using jobs_of_None [of db i] by (simp add: bolt_Delete_def Let_def db_Update_only_fails)
next
  case (19 db t i w db') then show ?case using bolt_ClaimJob_ok [of db t i w db'] by simp
next
  case (20 db t i w b err db')
  show ?case
  proof (cases err)
    case (Some e)
    with 20(2) show ?thesis by (auto simp: bolt_ClaimJob_def dest: db_Update_err)
  next
    case None
    with 20 show ?thesis
      by (auto simp: bolt_ClaimJob_def db_Update_ok Let_def split: option.splits sum.splits if_splits)
  qed
next
  case (21 db i t w) then show ?case
    using jobs_of_None [of db i] by (simp add: bolt_ClaimJob_def Let_def db_Update_fails)
next
  case (22 db i j t w)
  then obtain data0 where "db_get env db jobsBucket (uuid_String env i) = Some data0"
      "decodeJob env data0 = Inr j"
    using jobs_of_Some [of db i j] by blast
  with 22(3) show ?case
    by (simp add: bolt_ClaimJob_def db_Update_fst Let_def is_pending_def)
next
  case (23 db i j t w)
  then obtain data0 where "db_get env db jobsBucket (uuid_String env i) = Some data0"
      "decodeJob env data0 = Inr j"
    using jobs_of_Some [of db i j] by blast
  moreover have "ID j = i" using 23(1,2) by (rule jobs_of_ID)
  moreover obtain data db' where "encodeJob env (claimed_by t w j) = Inr data"
      "db_put env jobsBucket (uuid_String env i) data db = Inr db'" "db_commit env db' = None"
    using 23(4) \<open>ID j = i\<close> by (auto simp: bolt_writable_def)
  ultimately show ?case
    using 23(3) by (auto simp: bolt_ClaimJob_def db_Update_ok Let_def is_pending_def claimed_by_def)
next
  case (24 db limit) then show ?case using bolt_GetPending_law [of db limit] by simp
next
  case (25 db t limit) then show ?case using bolt_GetDelayed_law [of db t limit] by simp
next
  case (26 db t d) then show ?case
    using bolt_GetStuck_law [OF 26, of t d] jobs_of_ID [OF 26] by (auto simp: bolt_store_simps)
next
  case (27 db r db')
  then obtain data where "encodeResult env r = Inr data"
      "db_put env resultsBucket (uuid_String env (JobID r)) data db = Inr db'"
    by (auto simp: bolt_SaveResult_def db_Update_only_ok split: sum.splits)
  from put_result [OF 27(1) this] show ?case by simp
next
  case (28 db r e db') then show ?case by (auto simp: bolt_SaveResult_def dest: db_Update_only_err)
next
  case (29 db i) show ?case
  proof (cases "db_get env db resultsBucket (uuid_String env i)")
    case (Some data)
    with 29 obtain r where "decodeResult env data = Inr r" unfolding bolt_inv_def by blast
    with Some show ?thesis by (simp add: bolt_GetResult_def bolt_results_of_def)
  qed (simp add: bolt_GetResult_def bolt_results_of_def)
next
  case (30 db i data db')
  then have "db_put env checkpointBucket (uuid_String env i) data db = Inr db'"
    by (simp add: bolt_SaveCheckpoint_def db_Update_only_ok)
  from put_checkpoint [OF 30(1) this] show ?case by simp
next
  case (31 db i data e db') then show ?case
    by (auto simp: bolt_SaveCheckpoint_def dest: db_Update_only_err)
next
  case (32 db i) then show ?case by (simp add: bolt_GetCheckpoint_def bolt_checkpoints_of_def)
qed

section \<open>A concrete environment\<close>

text \<open>
  Buckets as association lists sorted by key, a commit that always succeeds, keys of up to
  32768 bytes as in bbolt, and a codec that writes a value as its number in an enumeration
  of all values. It satisfies \<open>bolt_backend\<close>, so nothing proved from that locale is
  vacuous.
\<close>

instance float64 :: countable by countable_datatype
instance any_value :: countable by countable_datatype
instance JobState :: countable by countable_datatype
instance BackoffStrategy :: countable by countable_datatype
instance ErrorCategory :: countable by countable_datatype

definition job_tuple where
  "job_tuple j = ((ID j, IdempotencyKey j, CorrelationID j, JobType j, Payload j, Tags j),
     (Priority j, Delay j, ScheduledAt j, Timeout j, MaxAttempts j, Attempt j),
     (BackoffStrategy j, BackoffInitial j, BackoffMax j, BackoffMultiplier j),
     (DependsOn j, BlockedBy j, State j, WorkerID j, Progress j, ProgressMessage j),
     (LastError j, ErrorCategory j, CreatedAt j, UpdatedAt j, StartedAt j, CompletedAt j),
     Metadata j)"

lemma job_tuple_inj: "job_tuple j = job_tuple j' \<Longrightarrow> j = (j' :: Job)"
  by (cases j; cases j') (simp add: job_tuple_def)

definition result_tuple where
  "result_tuple r = (JobID r, Success r, Output r, ResultError r, ResultCategory r, Duration r,
     ResultCompletedAt r, RetryAfter r)"

lemma result_tuple_inj: "result_tuple r = result_tuple r' \<Longrightarrow> r = (r' :: JobResult)"
  by (cases r; cases r') (simp add: result_tuple_def)

definition unary :: "nat \<Rightarrow> bytes" where
  "unary n = replicate n (CHR ''1'')"

lemma unary_inj: "unary m = unary n \<longleftrightarrow> m = n"
  by (metis length_replicate unary_def)

type_synonym ref_db = "bucket \<Rightarrow> (bytes \<times> bytes) list"

fun sorted_put :: "bytes \<Rightarrow> bytes \<Rightarrow> (bytes \<times> bytes) list \<Rightarrow> (bytes \<times> bytes) list" where
  "sorted_put k v [] = [(k, v)]"
| "sorted_put k v ((k', v') # kvs) =
     (if k < k' then (k, v) # (k', v') # kvs
      else if k = k' then (k, v) # kvs
      else (k', v') # sorted_put k v kvs)"

definition uuid_bits :: "uuid \<Rightarrow> bytes" where
  "uuid_bits i = map (\<lambda>n. if bit i n then CHR ''1'' else CHR ''0'') [0..<128]"

definition ref_put :: "bucket \<Rightarrow> bytes \<Rightarrow> bytes \<Rightarrow> ref_db \<Rightarrow> gerror + ref_db" where
  "ref_put b k v db =
     (if k = [] then Inl (ErrorString ''key required'')
      else if length k > 32768 then Inl (ErrorString ''key too large'')
      else Inr (db(b := sorted_put k v (db b))))"

definition ref_delete :: "bucket \<Rightarrow> bytes \<Rightarrow> ref_db \<Rightarrow> gerror option \<times> ref_db" where
  "ref_delete b k db = (None, db(b := filter (\<lambda>(k', v). k' \<noteq> k) (db b)))"

definition ref_encode_job :: "Job \<Rightarrow> gerror + bytes" where
  "ref_encode_job j = Inr (unary (to_nat (job_tuple j)))"

definition ref_decode_job :: "bytes \<Rightarrow> gerror + Job" where
  "ref_decode_job data =
     (if \<exists>j. ref_encode_job j = Inr data then Inr (SOME j. ref_encode_job j = Inr data)
      else Inl (ErrorString ''bad data''))"

definition ref_encode_result :: "JobResult \<Rightarrow> gerror + bytes" where
  "ref_encode_result r = Inr (unary (to_nat (result_tuple r)))"

definition ref_decode_result :: "bytes \<Rightarrow> gerror + JobResult" where
  "ref_decode_result data =
     (if \<exists>r. ref_encode_result r = Inr data then Inr (SOME r. ref_encode_result r = Inr data)
      else Inl (ErrorString ''bad data''))"

definition ref_env :: "ref_db bolt_env" where
  "ref_env = \<lparr>db_get = (\<lambda>db b k. map_of (db b) k), db_put = ref_put, db_delete = ref_delete,
     db_cursor = (\<lambda>db b. db b), db_commit = (\<lambda>db. None),
     gob_encode_job = ref_encode_job, gob_decode_job = ref_decode_job,
     gob_encode_result = ref_encode_result, gob_decode_result = ref_decode_result,
     uuid_String = uuid_bits, sort_Slice = insertion_sort, file_size = (\<lambda>db. None)\<rparr>"

definition ref_ok :: "ref_db \<Rightarrow> bool" where
  "ref_ok db \<longleftrightarrow> (\<forall>b. sorted_wrt (<) (map fst (db b)))"

definition ref_empty :: ref_db where
  "ref_empty = (\<lambda>b. [])"

lemma ref_env_simps [simp]:
  "db_get ref_env db b k = map_of (db b) k" "db_put ref_env = ref_put"
  "db_delete ref_env = ref_delete" "db_cursor ref_env db b = db b" "db_commit ref_env db = None"
  "gob_encode_job ref_env = ref_encode_job" "gob_decode_job ref_env = ref_decode_job"
  "gob_encode_result ref_env = ref_encode_result" "gob_decode_result ref_env = ref_decode_result"
  "uuid_String ref_env = uuid_bits" "sort_Slice ref_env = insertion_sort"
  "file_size ref_env db = None"
  by (simp_all add: ref_env_def)

lemma sorted_put_keys: "set (map fst (sorted_put k v kvs)) = insert k (set (map fst kvs))"
  by (induction k v kvs rule: sorted_put.induct) auto

lemma sorted_put_sorted:
  "sorted_wrt (<) (map fst kvs) \<Longrightarrow> sorted_wrt (<) (map fst (sorted_put k v kvs))"
proof (induction k v kvs rule: sorted_put.induct)
  case (1 k v)
  then show ?case by simp
next
  case (2 k v k' v' kvs)
  then show ?case using sorted_put_keys [of k v kvs] by (auto dest: order.strict_trans)
qed

lemma sorted_put_map_of:
  "sorted_wrt (<) (map fst kvs) \<Longrightarrow> map_of (sorted_put k v kvs) = (map_of kvs)(k \<mapsto> v)"
  by (induction k v kvs rule: sorted_put.induct) (auto simp: fun_eq_iff)

lemma map_of_filter_key: "map_of (filter (\<lambda>(k', v). k' \<noteq> k) kvs) = (map_of kvs)(k := None)"
  by (induction kvs) (auto simp: fun_eq_iff)

lemma uuid_bits_inj: "inj uuid_bits"
proof (rule injI)
  fix i j :: uuid
  assume eq: "uuid_bits i = uuid_bits j"
  have "bit i n \<longleftrightarrow> bit j n" if "n < 128" for n
    using eq that by (auto simp: uuid_bits_def list_eq_iff_nth_eq split: if_splits)
  then show "i = j" by (intro bit_word_eqI) simp
qed

lemma length_uuid_bits [simp]: "length (uuid_bits i) = 128"
  by (simp add: uuid_bits_def)

lemma ref_encode_job_inj: "ref_encode_job j = ref_encode_job j' \<longleftrightarrow> j = j'"
  by (auto simp: ref_encode_job_def unary_inj job_tuple_inj)

lemma ref_encode_result_inj: "ref_encode_result r = ref_encode_result r' \<longleftrightarrow> r = r'"
  by (auto simp: ref_encode_result_def unary_inj result_tuple_inj)

interpretation ref: bolt_backend ref_env ref_ok
proof unfold_locales
  fix db db' :: ref_db and b b' k k' v e i j r data
  show "mset (sort_Slice ref_env lt xs) = mset xs" for lt xs
    by (simp add: ins.sort_mset)
  show "strict_weak lt \<Longrightarrow> ordered_by lt (sort_Slice ref_env lt xs)" for lt xs
    by (simp add: ins.sort_ordered)
  show "ref_ok db \<Longrightarrow> db_put ref_env b k v db = Inr db' \<Longrightarrow>
      ref_ok db' \<and> db_get ref_env db' b' k' =
        (if b' = b \<and> k' = k then Some v else db_get ref_env db b' k')"
    by (auto simp: ref_put_def ref_ok_def sorted_put_sorted sorted_put_map_of split: if_splits)
  show "ref_ok db \<Longrightarrow> db_delete ref_env b k db = (e, db') \<Longrightarrow>
      e = None \<and> ref_ok db' \<and> db_get ref_env db' b' k' =
        (if b' = b \<and> k' = k then None else db_get ref_env db b' k')"
    by (auto simp: ref_delete_def ref_ok_def map_of_filter_key sorted_wrt_map sorted_wrt_filter
        split: if_splits)
  show "ref_ok db \<Longrightarrow> sorted_wrt (<) (map fst (db_cursor ref_env db b))"
    by (simp add: ref_ok_def)
  show "map_of (db_cursor ref_env db b) k = db_get ref_env db b k" by simp
  show "gob_encode_job ref_env j = Inr data \<Longrightarrow> gob_decode_job ref_env data = Inr j"
    by (auto simp: ref_decode_job_def ref_encode_job_inj dest: sym)
  show "gob_encode_result ref_env r = Inr data \<Longrightarrow> gob_decode_result ref_env data = Inr r"
    by (auto simp: ref_decode_result_def ref_encode_result_inj dest: sym)
  show "inj (uuid_String ref_env)" by (simp add: uuid_bits_inj)
  show "uuid_String ref_env i \<noteq> []" using length_uuid_bits [of i] by (auto simp del: length_uuid_bits)
qed

end
