(* ===== verification/GQ_Memory.thy ===== *)
theory GQ_Memory
  imports GQ_Store
begin

text \<open>
  The in-memory store (\<open>persistence/memory_store.go\<close>): four maps, one definition per
  method, and the interpretation of the store contract on them. An operation that ranges
  over the job map takes the range order as its argument \<open>ord\<close>.
\<close>

section \<open>State and operations\<close>

record MemoryStore =
  mem_jobs :: "(uuid, Job) gomap"
  mem_results :: "(uuid, JobResult) gomap"
  mem_checkpoints :: "(uuid, bytes) gomap"
  mem_idempotency :: "(string, uuid) gomap"

definition NewMemoryStore :: MemoryStore where
  "NewMemoryStore = \<lparr>mem_jobs = [], mem_results = [], mem_checkpoints = [], mem_idempotency = []\<rparr>"

text \<open>
  The key is recorded before the check for a duplicate ID, and stays recorded when that
  check fails.
\<close>

definition mem_Create :: "Job \<Rightarrow> MemoryStore \<Rightarrow> gerror option \<times> MemoryStore" where
  "mem_Create job m =
     (let key = IdempotencyKey job
      in if key \<noteq> '''' \<and> map_of (mem_idempotency m) key \<noteq> None
         then (Some ErrJobAlreadyExists, m)
         else let m1 = (if key \<noteq> ''''
                  then m\<lparr>mem_idempotency := AList.update key (ID job) (mem_idempotency m)\<rparr>
                  else m)
              in if map_of (mem_jobs m1) (ID job) \<noteq> None
                 then (Some ErrJobAlreadyExists, m1)
                 else (None, m1\<lparr>mem_jobs := AList.update (ID job) job (mem_jobs m1)\<rparr>))"

definition mem_Get :: "uuid \<Rightarrow> MemoryStore \<Rightarrow> gerror + Job" where
  "mem_Get i m = (case map_of (mem_jobs m) i of None \<Rightarrow> Inl ErrJobNotFound | Some j \<Rightarrow> Inr j)"

definition mem_GetByIdempotencyKey :: "string \<Rightarrow> MemoryStore \<Rightarrow> gerror + Job" where
  "mem_GetByIdempotencyKey key m =
     (case map_of (mem_idempotency m) key of
        None \<Rightarrow> Inl ErrJobNotFound
      | Some i \<Rightarrow> (case map_of (mem_jobs m) i of None \<Rightarrow> Inl ErrJobNotFound | Some j \<Rightarrow> Inr j))"

definition mem_Update :: "instant \<Rightarrow> Job \<Rightarrow> MemoryStore \<Rightarrow> Job \<times> gerror option \<times> MemoryStore" where
  "mem_Update t job m =
     (if map_of (mem_jobs m) (ID job) = None then (job, Some ErrJobNotFound, m)
      else let job' = job\<lparr>UpdatedAt := t\<rparr>
           in (job', None, m\<lparr>mem_jobs := AList.update (ID job') job' (mem_jobs m)\<rparr>))"

definition mem_UpdateState ::
    "instant \<Rightarrow> uuid \<Rightarrow> JobState \<Rightarrow> MemoryStore \<Rightarrow> gerror option \<times> MemoryStore" where
  "mem_UpdateState t i st m =
     (case map_of (mem_jobs m) i of
        None \<Rightarrow> (Some ErrJobNotFound, m)
      | Some job \<Rightarrow>
          (None, m\<lparr>mem_jobs := AList.update i (job\<lparr>State := st, UpdatedAt := t\<rparr>) (mem_jobs m)\<rparr>))"

definition mem_Delete :: "uuid \<Rightarrow> MemoryStore \<Rightarrow> gerror option \<times> MemoryStore" where
  "mem_Delete i m =
     (case map_of (mem_jobs m) i of
        None \<Rightarrow> (Some ErrJobNotFound, m)
      | Some job \<Rightarrow>
          let m1 = (if IdempotencyKey job \<noteq> ''''
                    then m\<lparr>mem_idempotency := AList.delete (IdempotencyKey job) (mem_idempotency m)\<rparr>
                    else m)
          in (None, m1\<lparr>mem_jobs := AList.delete i (mem_jobs m1),
                       mem_results := AList.delete i (mem_results m1),
                       mem_checkpoints := AList.delete i (mem_checkpoints m1)\<rparr>))"

definition mem_List ::
    "(uuid, Job) range_order \<Rightarrow> JobFilter \<Rightarrow> MemoryStore \<Rightarrow> gerror + Job list" where
  "mem_List ord flt m =
     (let limit = (if Limit flt \<le> 0 then 100 else Limit flt)
      in Inr (scan_upto (\<lambda>job. matchesFilter job flt) limit (map snd (ord (mem_jobs m))) []))"

definition mem_Count ::
    "(uuid, Job) range_order \<Rightarrow> JobFilter \<Rightarrow> MemoryStore \<Rightarrow> gerror + int" where
  "mem_Count ord flt m =
     Inr (fold (\<lambda>job n. if matchesFilter job flt then n + 1 else n) (map snd (ord (mem_jobs m))) 0)"

definition mem_GetPending ::
    "(uuid, Job) range_order \<Rightarrow> int \<Rightarrow> MemoryStore \<Rightarrow> gerror + Job list" where
  "mem_GetPending ord limit m = mem_List ord (pending_filter limit) m"

definition mem_GetDelayed ::
    "(uuid, Job) range_order \<Rightarrow> instant \<Rightarrow> int \<Rightarrow> MemoryStore \<Rightarrow> gerror + Job list" where
  "mem_GetDelayed ord t limit m =
     Inr (scan_upto (\<lambda>job. State job = JobStateDelayed \<and> \<not> ScheduledAt job > t) limit
       (map snd (ord (mem_jobs m))) [])"

definition mem_GetStuck ::
    "(uuid, Job) range_order \<Rightarrow> instant \<Rightarrow> duration \<Rightarrow> MemoryStore \<Rightarrow> gerror + Job list" where
  "mem_GetStuck ord t visibilityTimeout m =
     (let cutoff = ago t visibilityTimeout
      in Inr (filter (\<lambda>job. State job = JobStateRunning \<and> StartedAt job < cutoff)
                (map snd (ord (mem_jobs m)))))"

definition mem_ClaimJob ::
    "instant \<Rightarrow> uuid \<Rightarrow> string \<Rightarrow> MemoryStore \<Rightarrow> bool \<times> gerror option \<times> MemoryStore" where
  "mem_ClaimJob t i workerID m =
     (case map_of (mem_jobs m) i of
        None \<Rightarrow> (False, Some ErrJobNotFound, m)
      | Some job \<Rightarrow>
          if State job \<noteq> JobStateScheduled \<and> State job \<noteq> JobStatePending then (False, None, m)
          else (True, None,
                m\<lparr>mem_jobs := AList.update i
                    (job\<lparr>State := JobStateRunning, WorkerID := workerID, StartedAt := t,
                         UpdatedAt := t, Attempt := wrap64 (Attempt job + 1)\<rparr>) (mem_jobs m)\<rparr>))"

definition mem_SaveResult :: "JobResult \<Rightarrow> MemoryStore \<Rightarrow> gerror option \<times> MemoryStore" where
  "mem_SaveResult result m =
     (None, m\<lparr>mem_results := AList.update (JobID result) result (mem_results m)\<rparr>)"

definition mem_GetResult :: "uuid \<Rightarrow> MemoryStore \<Rightarrow> gerror + JobResult" where
  "mem_GetResult i m =
     (case map_of (mem_results m) i of None \<Rightarrow> Inl ErrJobNotFound | Some r \<Rightarrow> Inr r)"

definition mem_SaveCheckpoint ::
    "uuid \<Rightarrow> bytes \<Rightarrow> MemoryStore \<Rightarrow> gerror option \<times> MemoryStore" where
  "mem_SaveCheckpoint i data m =
     (None, m\<lparr>mem_checkpoints := AList.update i data (mem_checkpoints m)\<rparr>)"

definition mem_GetCheckpoint :: "uuid \<Rightarrow> MemoryStore \<Rightarrow> gerror + bytes option" where
  "mem_GetCheckpoint i m = Inr (map_of (mem_checkpoints m) i)"

definition mem_Stats ::
    "(uuid, Job) range_order \<Rightarrow> instant \<Rightarrow> MemoryStore \<Rightarrow> gerror + QueueStats" where
  "mem_Stats ord t m =
     Inr (fold tally_state (map snd (ord (mem_jobs m)))
       (zero_QueueStats\<lparr>QTimestamp := t, QTotalJobs := int (length (mem_jobs m))\<rparr>))"

definition mem_expired :: "instant \<Rightarrow> Job \<Rightarrow> bool" where
  "mem_expired cutoff job \<longleftrightarrow>
     (State job = JobStateCompleted \<or> State job = JobStateFailed) \<and> CompletedAt job < cutoff"

definition mem_cleanup_entry ::
    "instant \<Rightarrow> uuid \<times> Job \<Rightarrow> int \<times> MemoryStore \<Rightarrow> int \<times> MemoryStore" where
  "mem_cleanup_entry cutoff = (\<lambda>(i, job) (removed, m).
     if mem_expired cutoff job
     then let m1 = (if IdempotencyKey job \<noteq> ''''
                    then m\<lparr>mem_idempotency := AList.delete (IdempotencyKey job) (mem_idempotency m)\<rparr>
                    else m)
          in (removed + 1, m1\<lparr>mem_jobs := AList.delete i (mem_jobs m1),
                              mem_results := AList.delete i (mem_results m1),
                              mem_checkpoints := AList.delete i (mem_checkpoints m1)\<rparr>)
     else (removed, m))"

definition mem_Cleanup ::
    "(uuid, Job) range_order \<Rightarrow> instant \<Rightarrow> duration \<Rightarrow> MemoryStore \<Rightarrow>
       int \<times> gerror option \<times> MemoryStore" where
  "mem_Cleanup ord t retention m =
     (let cutoff = ago t retention;
          (removed, m') = fold (mem_cleanup_entry cutoff) (ord (mem_jobs m)) (0, m)
      in (removed, None, m'))"

definition mem_Close :: "MemoryStore \<Rightarrow> gerror option \<times> MemoryStore" where
  "mem_Close m = (None, m)"

definition memory_store :: "(uuid, Job) range_order \<Rightarrow> MemoryStore JobStore" where
  "memory_store ord = \<lparr>Create = mem_Create, Get = mem_Get,
     GetByIdempotencyKey = mem_GetByIdempotencyKey, Update = mem_Update,
     UpdateState = mem_UpdateState, Delete = mem_Delete, List = mem_List ord,
     Count = mem_Count ord, GetPending = mem_GetPending ord, GetDelayed = mem_GetDelayed ord,
     GetStuck = mem_GetStuck ord, ClaimJob = mem_ClaimJob, SaveResult = mem_SaveResult,
     GetResult = mem_GetResult, SaveCheckpoint = mem_SaveCheckpoint,
     GetCheckpoint = mem_GetCheckpoint, Stats = mem_Stats ord, Cleanup = mem_Cleanup ord\<rparr>"

section \<open>Invariant and contract\<close>

text \<open>Each ID is stored once, with a job that has that ID.\<close>

definition jobs_ok :: "(uuid, Job) gomap \<Rightarrow> bool" where
  "jobs_ok jobs \<longleftrightarrow> keys_distinct jobs \<and> list_all (\<lambda>(i, j). ID j = i) jobs"

definition mem_inv :: "MemoryStore \<Rightarrow> bool" where
  "mem_inv m \<longleftrightarrow> jobs_ok (mem_jobs m)"

definition mem_jobs_of :: "MemoryStore \<Rightarrow> uuid \<Rightarrow> Job option" where
  "mem_jobs_of m = map_of (mem_jobs m)"

lemma mem_inv_New: "mem_inv NewMemoryStore"
  by (simp add: mem_inv_def jobs_ok_def NewMemoryStore_def)

lemma list_all_update:
  "list_all P m \<Longrightarrow> P (k, v) \<Longrightarrow> list_all P (AList.update k v m)"
  by (induction m) auto

lemma list_all_delete: "list_all P m \<Longrightarrow> list_all P (AList.delete k m)"
  by (auto simp: AList.delete_eq list_all_iff)

lemmas mem_op_defs =
  mem_Create_def mem_Get_def mem_GetByIdempotencyKey_def mem_Update_def mem_UpdateState_def
  mem_Delete_def mem_ClaimJob_def mem_SaveResult_def mem_GetResult_def mem_SaveCheckpoint_def
  mem_GetCheckpoint_def

lemma mem_inv_ID: "mem_inv m \<Longrightarrow> map_of (mem_jobs m) i = Some j \<Longrightarrow> ID j = i"
  by (auto simp: mem_inv_def jobs_ok_def list_all_iff dest: map_of_SomeD)

lemma mem_inv_updates [simp]:
  "mem_inv (m\<lparr>mem_jobs := xs\<rparr>) = jobs_ok xs"
  "mem_inv (m\<lparr>mem_results := rs\<rparr>) = mem_inv m"
  "mem_inv (m\<lparr>mem_checkpoints := cs\<rparr>) = mem_inv m"
  "mem_inv (m\<lparr>mem_idempotency := ks\<rparr>) = mem_inv m"
  by (simp_all add: mem_inv_def)

lemma jobs_ok_put [simp]: "mem_inv m \<Longrightarrow> ID j = i \<Longrightarrow> jobs_ok (AList.update i j (mem_jobs m))"
  by (simp add: mem_inv_def jobs_ok_def list_all_update)

lemma jobs_ok_delete [simp]: "jobs_ok xs \<Longrightarrow> jobs_ok (AList.delete i xs)"
  by (simp add: jobs_ok_def list_all_delete)

lemma mem_invD [simp]: "mem_inv m \<Longrightarrow> jobs_ok (mem_jobs m)"
  by (simp add: mem_inv_def)

text \<open>The scans: membership in the ranged map is being stored under one's ID.\<close>

lemma mem_range_set:
  assumes "mem_inv m" and "permutes_entries ord"
  shows "j \<in> set (map snd (ord (mem_jobs m))) \<longleftrightarrow> map_of (mem_jobs m) (ID j) = Some j"
proof -
  have "j \<in> set (map snd (ord (mem_jobs m))) \<longleftrightarrow> j \<in> snd ` set (mem_jobs m)"
    using permutes_entriesD(2) [OF assms(2), of "mem_jobs m"] by simp
  also have "\<dots> \<longleftrightarrow> (ID j, j) \<in> set (mem_jobs m)"
    using assms(1) by (force simp: mem_inv_def jobs_ok_def list_all_iff)
  also have "\<dots> \<longleftrightarrow> map_of (mem_jobs m) (ID j) = Some j"
    using assms(1) by (simp add: mem_inv_def jobs_ok_def)
  finally show ?thesis .
qed

lemma mem_range_IDs:
  assumes "mem_inv m" and "permutes_entries ord"
  shows "distinct (map ID (map snd (ord (mem_jobs m))))"
proof -
  have eq: "map ID (map snd (ord (mem_jobs m))) = map fst (ord (mem_jobs m))"
    using assms permutes_entriesD(2) [OF assms(2), of "mem_jobs m"]
    by (auto simp: mem_inv_def jobs_ok_def list_all_iff)
  show ?thesis unfolding eq
    using permutes_entries_distinct [OF assms(2)] assms(1) by (simp add: mem_inv_def jobs_ok_def)
qed

lemma mem_List_eq:
  "mem_List ord flt m = Inr (take (nat (effective_limit (Limit flt)))
     (filter (\<lambda>job. matchesFilter job flt) (map snd (ord (mem_jobs m)))))"
  by (simp add: mem_List_def scan_upto_take effective_limit_def)

lemma mem_GetPending_eq:
  "mem_GetPending ord limit m = Inr (take (nat (effective_limit limit))
     (filter is_pending (map snd (ord (mem_jobs m)))))"
  by (simp add: mem_GetPending_def mem_List_eq) (simp add: pending_filter_def)

lemma mem_GetPending_law:
  assumes "mem_inv m" and "permutes_entries ord"
  shows "\<exists>js. mem_GetPending ord limit m = Inr js \<and> distinct (map ID js) \<and>
      (\<forall>j \<in> set js. map_of (mem_jobs m) (ID j) = Some j \<and> is_pending j) \<and>
      int (length js) \<le> effective_limit limit \<and>
      (int (length js) < effective_limit limit \<longrightarrow>
         (\<forall>i j. map_of (mem_jobs m) i = Some j \<and> is_pending j \<longrightarrow> j \<in> set js))"
proof -
  let ?all = "filter is_pending (map snd (ord (mem_jobs m)))"
  let ?n = "nat (effective_limit limit)"
  have mem: "j \<in> set ?all \<longleftrightarrow> map_of (mem_jobs m) (ID j) = Some j \<and> is_pending j" for j
    using mem_range_set [OF assms] by auto
  have "\<forall>j \<in> set (take ?n ?all). map_of (mem_jobs m) (ID j) = Some j \<and> is_pending j"
    using mem in_set_takeD by metis
  moreover have "j \<in> set (take ?n ?all)"
    if "int (length (take ?n ?all)) < effective_limit limit"
      and "map_of (mem_jobs m) i = Some j" "is_pending j" for i j
  proof -
    from that(1) have "take ?n ?all = ?all" by (auto simp: min_def split: if_splits)
    moreover have "j \<in> set ?all"
      using mem that(2,3) mem_inv_ID [OF assms(1) that(2)] by simp
    ultimately show ?thesis by simp
  qed
  moreover have "distinct (map ID (take ?n ?all))"
    by (rule distinct_map_filter_take) (rule mem_range_IDs [OF assms])
  moreover have "int (length (take ?n ?all)) \<le> effective_limit limit"
    using less_imp_le [OF effective_limit_pos [of limit]] by auto
  ultimately show ?thesis unfolding mem_GetPending_eq by blast
qed

lemma mem_GetDelayed_law:
  assumes "mem_inv m" and "permutes_entries ord"
  shows "\<exists>js. mem_GetDelayed ord t limit m = Inr js \<and> distinct (map ID js) \<and>
      (\<forall>j \<in> set js. map_of (mem_jobs m) (ID j) = Some j \<and> State j = JobStateDelayed \<and>
         ScheduledAt j \<le> t)"
proof -
  let ?p = "\<lambda>job. State job = JobStateDelayed \<and> \<not> ScheduledAt job > t"
  let ?xs = "map snd (ord (mem_jobs m))"
  obtain n where js: "scan_upto ?p limit ?xs [] = take n (filter ?p ?xs)"
    using scan_upto_prefix [of ?p limit ?xs "[]"] by auto
  have "j \<in> set (filter ?p ?xs)" if "j \<in> set (take n (filter ?p ?xs))" for j
    using that by (rule in_set_takeD)
  then have "\<forall>j \<in> set (take n (filter ?p ?xs)). map_of (mem_jobs m) (ID j) = Some j \<and>
      State j = JobStateDelayed \<and> ScheduledAt j \<le> t"
    unfolding set_filter mem_Collect_eq mem_range_set [OF assms] not_less by blast
  moreover have "distinct (map ID (take n (filter ?p ?xs)))"
    by (rule distinct_map_filter_take) (rule mem_range_IDs [OF assms])
  ultimately show ?thesis unfolding mem_GetDelayed_def js by blast
qed

lemma mem_GetStuck_law:
  assumes "mem_inv m" and "permutes_entries ord"
  shows "\<exists>js. mem_GetStuck ord t d m = Inr js \<and> distinct (map ID js) \<and>
      (\<forall>j. j \<in> set js \<longleftrightarrow> map_of (mem_jobs m) (ID j) = Some j \<and> State j = JobStateRunning \<and>
         StartedAt j < ago t d)"
proof -
  let ?p = "\<lambda>job. State job = JobStateRunning \<and> StartedAt job < ago t d"
  let ?xs = "map snd (ord (mem_jobs m))"
  have "distinct (map ID (filter ?p ?xs))"
    by (rule distinct_map_filter) (rule mem_range_IDs [OF assms])
  moreover have "j \<in> set (filter ?p ?xs) \<longleftrightarrow> map_of (mem_jobs m) (ID j) = Some j \<and> ?p j" for j
    using mem_range_set [OF assms] by (simp add: conj_commute)
  ultimately show ?thesis unfolding mem_GetStuck_def Let_def by blast
qed

lemma memory_store_simps [simp]:
  "Create (memory_store ord) = mem_Create" "Get (memory_store ord) = mem_Get"
  "GetByIdempotencyKey (memory_store ord) = mem_GetByIdempotencyKey"
  "Update (memory_store ord) = mem_Update" "UpdateState (memory_store ord) = mem_UpdateState"
  "Delete (memory_store ord) = mem_Delete" "List (memory_store ord) = mem_List ord"
  "Count (memory_store ord) = mem_Count ord" "GetPending (memory_store ord) = mem_GetPending ord"
  "GetDelayed (memory_store ord) = mem_GetDelayed ord"
  "GetStuck (memory_store ord) = mem_GetStuck ord" "ClaimJob (memory_store ord) = mem_ClaimJob"
  "SaveResult (memory_store ord) = mem_SaveResult" "GetResult (memory_store ord) = mem_GetResult"
  "SaveCheckpoint (memory_store ord) = mem_SaveCheckpoint"
  "GetCheckpoint (memory_store ord) = mem_GetCheckpoint" "Stats (memory_store ord) = mem_Stats ord"
  "Cleanup (memory_store ord) = mem_Cleanup ord"
  by (simp_all add: memory_store_def)

lemma mem_job_store:
  assumes ord: "permutes_entries ord"
  shows "job_store (memory_store ord) mem_inv (\<lambda>_ _. True) mem_jobs_of
    (\<lambda>m. map_of (mem_results m)) (\<lambda>m. map_of (mem_checkpoints m))
    (\<lambda>m. map_of (mem_idempotency m))"
proof (unfold_locales, goal_cases)
  case (1 s i j) then show ?case by (simp add: mem_jobs_of_def mem_inv_ID)
next
  case 24 then show ?case using mem_GetPending_law [OF _ ord] by (simp add: mem_jobs_of_def)
next
  case 25 then show ?case using mem_GetDelayed_law [OF _ ord] by (simp add: mem_jobs_of_def)
next
  case (26 s t d) then show ?case
    using mem_GetStuck_law [OF 26 ord, of t d] mem_inv_ID [OF 26]
    by (fastforce simp: mem_jobs_of_def)
qed (auto simp: mem_op_defs Let_def mem_jobs_of_def mem_inv_ID is_pending_def
      claimed_by_def split: option.splits if_splits)

text \<open>The contract holds for every order in which Go may range over the job map.\<close>

interpretation mem: job_store "memory_store (\<lambda>m. m)" mem_inv "\<lambda>_ _. True" mem_jobs_of
    "\<lambda>m. map_of (mem_results m)" "\<lambda>m. map_of (mem_checkpoints m)"
    "\<lambda>m. map_of (mem_idempotency m)"
  by (rule mem_job_store) (rule permutes_entries_id)

section \<open>Cleanup, statistics, listing\<close>

text \<open>One step of the cleanup loop changes the abstract contents at the entry's ID only.\<close>

lemma mem_cleanup_entry_eq:
  "mem_cleanup_entry cutoff (i, job) p =
     (if mem_expired cutoff job
      then (fst p + 1, (snd p)\<lparr>mem_jobs := AList.delete i (mem_jobs (snd p)),
              mem_results := AList.delete i (mem_results (snd p)),
              mem_checkpoints := AList.delete i (mem_checkpoints (snd p)),
              mem_idempotency := (if IdempotencyKey job = [] then mem_idempotency (snd p)
                else AList.delete (IdempotencyKey job) (mem_idempotency (snd p)))\<rparr>)
      else p)"
  by (cases p) (simp add: mem_cleanup_entry_def)

definition expired_keys :: "instant \<Rightarrow> (uuid, Job) gomap \<Rightarrow> uuid set" where
  "expired_keys cutoff es = fst ` set (filter (\<lambda>(i, job). mem_expired cutoff job) es)"

lemma expired_keys_simps:
  "expired_keys cutoff [] = {}"
  "expired_keys cutoff ((i, j) # es) =
     (if mem_expired cutoff j then insert i (expired_keys cutoff es) else expired_keys cutoff es)"
  by (simp_all add: expired_keys_def)

text \<open>The loop: how the counter and each map come out, from any starting pair.\<close>

lemma mem_cleanup_fold:
  shows "fst (fold (mem_cleanup_entry cutoff) es p) =
      fst p + int (length (filter (\<lambda>(i, job). mem_expired cutoff job) es))"
    and "map_of (mem_jobs (snd (fold (mem_cleanup_entry cutoff) es p))) =
      map_of (mem_jobs (snd p)) |` (- expired_keys cutoff es)"
    and "map_of (mem_results (snd (fold (mem_cleanup_entry cutoff) es p))) =
      map_of (mem_results (snd p)) |` (- expired_keys cutoff es)"
    and "map_of (mem_checkpoints (snd (fold (mem_cleanup_entry cutoff) es p))) =
      map_of (mem_checkpoints (snd p)) |` (- expired_keys cutoff es)"
    and "mem_inv (snd p) \<Longrightarrow> mem_inv (snd (fold (mem_cleanup_entry cutoff) es p))"
proof (induction es arbitrary: p)
  case Nil
  { case 1 then show ?case by simp }
  { case 2 then show ?case by (simp add: expired_keys_simps) }
  { case 3 then show ?case by (simp add: expired_keys_simps) }
  { case 4 then show ?case by (simp add: expired_keys_simps) }
  { case 5 then show ?case by simp }
next
  case (Cons e es)
  obtain i j where e: "e = (i, j)" by (cases e)
  note simps = e mem_cleanup_entry_eq expired_keys_simps Cons.IH
  { case 1 then show ?case by (simp add: simps) }
  { case 2 then show ?case by (auto simp: simps restrict_map_def fun_eq_iff) }
  { case 3 then show ?case by (auto simp: simps restrict_map_def fun_eq_iff) }
  { case 4 then show ?case by (auto simp: simps restrict_map_def fun_eq_iff) }
  { case 5 then show ?case by (simp add: simps) }
qed

lemma expired_keys_jobs:
  assumes "keys_distinct es"
  shows "expired_keys cutoff es = {i. \<exists>j. map_of es i = Some j \<and> mem_expired cutoff j}"
  using assms by (auto simp: expired_keys_def image_iff)

lemma card_expired_keys:
  assumes "keys_distinct es"
  shows "int (card (expired_keys cutoff es)) =
    int (length (filter (\<lambda>(i, job). mem_expired cutoff job) es))"
proof -
  let ?f = "filter (\<lambda>(i, job). mem_expired cutoff job) es"
  have "distinct (map fst ?f)" using assms by (rule distinct_map_filter)
  then have "card (set (map fst ?f)) = length ?f"
    by (metis distinct_card length_map)
  then show ?thesis by (simp add: expired_keys_def)
qed

lemma map_of_permuted:
  assumes "permutes_entries ord" and "keys_distinct m"
  shows "map_of (ord m) = map_of m"
proof (rule map_of_eqI)
  show "set (map fst (ord m)) = set (map fst m)"
    using permutes_entriesD(2) [OF assms(1), of m] by simp
  show "\<forall>k \<in> set (map fst (ord m)). map_of (ord m) k = map_of m k"
  proof
    fix k assume "k \<in> set (map fst (ord m))"
    then obtain v where v: "(k, v) \<in> set (ord m)" by auto
    then have "(k, v) \<in> set m" using permutes_entriesD(2) [OF assms(1), of m] by simp
    with v assms permutes_entries_distinct [OF assms] show "map_of (ord m) k = map_of m k"
      by (simp add: map_of_is_SomeI)
  qed
qed

text \<open>
  \<open>Cleanup\<close> of the in-memory store removes exactly the completed and failed jobs whose
  completion lies before the cutoff, together with their results and checkpoints, leaves
  every other job, result and checkpoint as it is, and returns how many it removed,
  whatever order it ranges over the map in.
\<close>

theorem mem_Cleanup_exact:
  assumes "mem_inv m" and "permutes_entries ord"
    and "mem_Cleanup ord t retention m = (n, err, m')"
    and "expired = {i. \<exists>j. map_of (mem_jobs m) i = Some j \<and> mem_expired (ago t retention) j}"
  shows "err = None \<and> mem_inv m' \<and> n = int (card expired) \<and>
    map_of (mem_jobs m') = map_of (mem_jobs m) |` (- expired) \<and>
    map_of (mem_results m') = map_of (mem_results m) |` (- expired) \<and>
    map_of (mem_checkpoints m') = map_of (mem_checkpoints m) |` (- expired)"
proof -
  let ?es = "ord (mem_jobs m)" and ?c = "ago t retention"
  have dist: "keys_distinct (mem_jobs m)" using assms(1) by (simp add: mem_inv_def jobs_ok_def)
  have exp: "expired_keys ?c ?es = expired"
    using expired_keys_jobs [OF permutes_entries_distinct [OF assms(2) dist], of ?c]
    by (simp add: map_of_permuted [OF assms(2) dist] assms(4))
  have res: "err = None" "n = fst (fold (mem_cleanup_entry ?c) ?es (0, m))"
    "m' = snd (fold (mem_cleanup_entry ?c) ?es (0, m))"
    using assms(3) by (auto simp: mem_Cleanup_def Let_def split: prod.splits)
  show ?thesis
    using assms(1) card_expired_keys [OF permutes_entries_distinct [OF assms(2) dist], of ?c]
    by (simp add: res mem_cleanup_fold exp)
qed

definition example_job :: "uuid \<Rightarrow> JobState \<Rightarrow> int \<Rightarrow> Job" where
  "example_job i st prio = zero_Job\<lparr>ID := i, State := st, Priority := prio, MaxAttempts := 3\<rparr>"

lemma example_job_simps [simp]:
  "ID (example_job i st prio) = i" "State (example_job i st prio) = st"
  "Priority (example_job i st prio) = prio" "CompletedAt (example_job i st prio) = 0"
  "IdempotencyKey (example_job i st prio) = ''''" "Attempt (example_job i st prio) = 0"
  "MaxAttempts (example_job i st prio) = 3" "CreatedAt (example_job i st prio) = 0"
  "ScheduledAt (example_job i st prio) = 0" "StartedAt (example_job i st prio) = 0"
  "Timeout (example_job i st prio) = 0" "JobType (example_job i st prio) = ''''"
  by (simp_all add: example_job_def zero_Job_def)

definition example_store :: "Job list \<Rightarrow> MemoryStore" where
  "example_store js = NewMemoryStore\<lparr>mem_jobs := map (\<lambda>j. (ID j, j)) js\<rparr>"

lemma example_store_inv [simp]: "distinct (map ID js) \<Longrightarrow> mem_inv (example_store js)"
  by (auto simp: example_store_def jobs_ok_def list_all_iff comp_def)

theorem mem_Cleanup_exact_witness:
  "\<exists>m'. mem_Cleanup rev 100 50 (example_store [example_job 1 JobStateCompleted 0,
     example_job 2 JobStateRunning 0]) = (1, None, m') \<and> map_of (mem_jobs m') 1 = None"
proof -
  let ?m = "example_store [example_job 1 JobStateCompleted 0, example_job 2 JobStateRunning 0]"
  obtain n err m' where c: "mem_Cleanup rev 100 50 ?m = (n, err, m')"
    by (cases "mem_Cleanup rev 100 50 ?m")
  have ex: "{1} = {i. \<exists>j. map_of (mem_jobs ?m) i = Some j \<and> mem_expired (ago 100 50) j}"
    by (auto simp: example_store_def mem_expired_def ago_def int64_range_def split: if_splits)
  have "err = None \<and> mem_inv m' \<and> n = int (card {1 :: uuid}) \<and>
    map_of (mem_jobs m') = map_of (mem_jobs ?m) |` (- {1}) \<and>
    map_of (mem_results m') = map_of (mem_results ?m) |` (- {1}) \<and>
    map_of (mem_checkpoints m') = map_of (mem_checkpoints ?m) |` (- {1})"
    by (rule mem_Cleanup_exact [OF _ permutes_entries_rev c ex]) simp
  with c show ?thesis by simp
qed

text \<open>
  The statistics of the in-memory store hold the number of stored jobs in each of
  the eight states the interface reports, and the total number of jobs; the retrying
  jobs are in the total and in no counter.
\<close>

theorem mem_Stats_counts:
  assumes "permutes_entries ord" and "js = map snd (mem_jobs m)"
  shows "mem_Stats ord t m = Inr
    \<lparr>QPending = count_in JobStatePending js, QScheduled = count_in JobStateScheduled js,
     QRunning = count_in JobStateRunning js, QDelayed = count_in JobStateDelayed js,
     QCompleted = count_in JobStateCompleted js, QFailed = count_in JobStateFailed js,
     QDeadLetter = count_in JobStateDeadLetter js, QCancelled = count_in JobStateCancelled js,
     QTotalJobs = int (length js), QStorageBytes = 0, QTimestamp = t\<rparr>"
proof -
  have "mset (map snd (ord (mem_jobs m))) = mset js"
    using permutes_entriesD(1) [OF assms(1)] by (simp add: assms(2))
  then have "count_in st (map snd (ord (mem_jobs m))) = count_in st js" for st
    by (rule count_in_mset)
  then show ?thesis by (simp add: mem_Stats_def tally_fold zero_QueueStats_def assms(2))
qed

theorem mem_Stats_counts_witness:
  "mem_Stats rev 5 (example_store [example_job 1 JobStatePending 0,
     example_job 2 JobStateRetrying 0]) = Inr
    \<lparr>QPending = 1, QScheduled = 0, QRunning = 0, QDelayed = 0, QCompleted = 0, QFailed = 0,
     QDeadLetter = 0, QCancelled = 0, QTotalJobs = 2, QStorageBytes = 0, QTimestamp = 5\<rparr>"
  using mem_Stats_counts [OF permutes_entries_rev refl, of 5
      "example_store [example_job 1 JobStatePending 0, example_job 2 JobStateRetrying 0]"]
  by (simp add: example_store_def)

text \<open>
  Of any sequence of claims on one job of the in-memory store, by whatever workers at
  whatever times, at most one is granted.
\<close>

theorem mem_claim_exclusive:
  assumes "mem_inv m"
  shows "count_list (claim_results (memory_store (\<lambda>es. es)) i claims m) True \<le> 1"
  using assms by (rule mem.claims_at_most_one)

theorem mem_claim_exclusive_witness:
  "claim_results (memory_store (\<lambda>es. es)) 1 [(10, ''a''), (11, ''b'')]
     (example_store [example_job 1 JobStatePending 0]) = [True, False] \<and>
   count_list (claim_results (memory_store (\<lambda>es. es)) 1 [(10, ''a''), (11, ''b'')]
     (example_store [example_job 1 JobStatePending 0])) True \<le> 1"
  using mem_claim_exclusive [of "example_store [example_job 1 JobStatePending 0]"]
  by (simp add: mem_ClaimJob_def example_store_def)

text \<open>
  A submission with an idempotency key is accepted once: after the in-memory store
  has accepted it, every later submission with the same key, whatever its other fields, is
  refused as already existing, and looking the key up still returns the first job.
\<close>

theorem mem_Create_idempotent:
  assumes "mem_inv m" and "mem_Create j m = (None, m')" and "IdempotencyKey j \<noteq> ''''"
    and "list_all (\<lambda>k. IdempotencyKey k = IdempotencyKey j) ks"
  shows "\<exists>m''. create_all (memory_store (\<lambda>es. es)) ks m' =
      (replicate (length ks) (Some ErrJobAlreadyExists), m'') \<and>
    mem_GetByIdempotencyKey (IdempotencyKey j) m'' = Inr j"
  using mem.Create_idempotent [OF assms(1) _ assms(3,4)] assms(2) by simp

theorem mem_Create_idempotent_witness:
  "\<exists>m''. create_all (memory_store (\<lambda>es. es))
      [(example_job 2 JobStatePending 1)\<lparr>IdempotencyKey := ''k''\<rparr>]
      (snd (mem_Create ((example_job 1 JobStatePending 0)\<lparr>IdempotencyKey := ''k''\<rparr>) NewMemoryStore)) =
      ([Some ErrJobAlreadyExists], m'') \<and>
    mem_GetByIdempotencyKey ''k'' m'' =
      Inr ((example_job 1 JobStatePending 0)\<lparr>IdempotencyKey := ''k''\<rparr>)"
proof -
  let ?j = "(example_job 1 JobStatePending 0)\<lparr>IdempotencyKey := ''k''\<rparr>"
  have "mem_Create ?j NewMemoryStore = (None, snd (mem_Create ?j NewMemoryStore))"
    by (simp add: mem_Create_def NewMemoryStore_def Let_def)
  from mem_Create_idempotent [OF mem_inv_New this,
      of "[(example_job 2 JobStatePending 1)\<lparr>IdempotencyKey := ''k''\<rparr>]"]
  show ?thesis by simp
qed

text \<open>
  A submission the in-memory store refuses because its ID is taken still leaves its
  fresh idempotency key behind: the key then finds the job that holds the ID, which was
  never submitted with that key, and a later submission with the key and an unused ID is
  refused.
\<close>

theorem mem_Create_leaks_key:
  assumes "map_of (mem_jobs m) (ID j) = Some other" and "IdempotencyKey j \<noteq> ''''"
    and "map_of (mem_idempotency m) (IdempotencyKey j) = None"
  shows "\<exists>m'. mem_Create j m = (Some ErrJobAlreadyExists, m') \<and>
    mem_GetByIdempotencyKey (IdempotencyKey j) m' = Inr other \<and>
    fst (mem_Create (j\<lparr>ID := i\<rparr>) m') = Some ErrJobAlreadyExists"
  using assms by (auto simp: mem_Create_def mem_GetByIdempotencyKey_def Let_def)

theorem mem_Create_leaks_key_witness:
  "\<exists>m'. mem_Create ((example_job 1 JobStatePending 0)\<lparr>IdempotencyKey := ''k''\<rparr>)
      (example_store [example_job 1 JobStateRunning 3]) = (Some ErrJobAlreadyExists, m') \<and>
    mem_GetByIdempotencyKey ''k'' m' = Inr (example_job 1 JobStateRunning 3)"
  using mem_Create_leaks_key [of "example_store [example_job 1 JobStateRunning 3]"
      "(example_job 1 JobStatePending 0)\<lparr>IdempotencyKey := ''k''\<rparr>" "example_job 1 JobStateRunning 3" 2]
  by (auto simp: example_store_def NewMemoryStore_def)

text \<open>
  The in-memory \<open>GetPending\<close> applies its limit before any ordering, so with two
  pending jobs and a limit of one it can return the less urgent job and leave a critical
  one out.
\<close>

theorem mem_GetPending_unordered:
  "\<exists>ord. permutes_entries ord \<and>
     mem_GetPending ord 1 (example_store [example_job 1 JobStatePending PriorityCritical,
       example_job 2 JobStatePending PriorityBulk]) =
     Inr [example_job 2 JobStatePending PriorityBulk]"
  by (rule exI [of _ rev])
    (simp add: permutes_entries_rev mem_GetPending_eq example_store_def effective_limit_def
      is_pending_def)

text \<open>
  \<open>List\<close> of the in-memory store returns stored jobs that match the filter, each
  once, and as many of them as there are up to the limit (100 when none is set): the number
  is the smaller of the limit and what \<open>Count\<close> returns.
\<close>

theorem mem_List_Count:
  assumes "mem_inv m" and "permutes_entries ord" and "permutes_entries ord'"
  shows "\<exists>js. mem_List ord flt m = Inr js \<and> distinct (map ID js) \<and>
    set js \<subseteq> {j. map_of (mem_jobs m) (ID j) = Some j \<and> matchesFilter j flt} \<and>
    mem_Count ord' flt m = Inr (int (card {j. map_of (mem_jobs m) (ID j) = Some j \<and>
      matchesFilter j flt})) \<and>
    int (length js) = min (effective_limit (Limit flt))
      (int (card {j. map_of (mem_jobs m) (ID j) = Some j \<and> matchesFilter j flt}))"
proof -
  let ?p = "\<lambda>j. matchesFilter j flt"
  let ?xs = "filter ?p (map snd (ord (mem_jobs m)))"
  let ?S = "{j. map_of (mem_jobs m) (ID j) = Some j \<and> ?p j}"
  have S: "set ?xs = ?S" using mem_range_set [OF assms(1,2)] by auto
  have dID: "distinct (map ID ?xs)"
    by (rule distinct_map_filter) (rule mem_range_IDs [OF assms(1,2)])
  then have "distinct ?xs" by (simp only: distinct_map)
  then have card: "card ?S = length ?xs" by (simp only: S [symmetric] distinct_card)
  have fold_count: "fold (\<lambda>job n. if ?p job then n + 1 else n) js c = c + int (length (filter ?p js))"
    for js and c :: int
    by (induction js arbitrary: c) auto
  have "length (filter ?p (map snd (ord' (mem_jobs m)))) = length ?xs"
    using length_filter_map_snd [OF assms(3)] length_filter_map_snd [OF assms(2)] by metis
  then have count: "mem_Count ord' flt m = Inr (int (card ?S))"
    by (simp add: mem_Count_def fold_count card del: filter_map map_map)
  have "set (take (nat (effective_limit (Limit flt))) ?xs) \<subseteq> ?S"
    using S set_take_subset by fastforce
  moreover have "distinct (map ID (take (nat (effective_limit (Limit flt))) ?xs))"
    using dID by (metis distinct_take take_map)
  moreover have "int (length (take (nat (effective_limit (Limit flt))) ?xs)) =
      min (effective_limit (Limit flt)) (int (card ?S))"
    using less_imp_le [OF effective_limit_pos [of "Limit flt"]] card by auto
  ultimately show ?thesis using count unfolding mem_List_eq by blast
qed

theorem mem_List_Count_witness:
  "\<exists>js. mem_List rev (empty_filter\<lparr>Priorities := [0]\<rparr>)
     (example_store [example_job 1 JobStatePending 0, example_job 2 JobStatePending 1]) = Inr js \<and>
     distinct (map ID js)"
  using mem_List_Count [OF _ permutes_entries_rev permutes_entries_id,
      of "example_store [example_job 1 JobStatePending 0, example_job 2 JobStatePending 1]"
        "empty_filter\<lparr>Priorities := [0]\<rparr>"]
  by auto

end
