(* ===== verification/GQ_Bolt_Props.thy ===== *)
theory GQ_Bolt_Props
  imports GQ_Bolt GQ_Memory
begin

text \<open>
  Properties of the durable store, for every environment that satisfies
  \<open>bolt_backend\<close>: refinement of the store contract, the order and optimality of
  \<open>GetPending\<close>, exactness of \<open>Cleanup\<close>, consistency of the idempotency index.
  The witnesses use the concrete environment \<open>ref_env\<close>.
\<close>

section \<open>Databases with a few jobs\<close>

lemma ref_inv_empty [simp]: "bolt_inv ref_env ref_ok ref_empty"
  by (simp add: bolt_inv_def ref_ok_def ref_empty_def)

lemma uuid_bits_nonempty [simp]: "uuid_bits i \<noteq> []"
  using length_uuid_bits [of i] by (auto simp del: length_uuid_bits)

lemma ref_Create:
  assumes "bolt_inv ref_env ref_ok db" and "bolt_jobs_of ref_env db (ID j) = None"
    and "IdempotencyKey j = ''''"
  shows "bolt_Create ref_env j db = (None, snd (bolt_Create ref_env j db))"
  using assms by (auto simp: bolt_Create_def ref.jobs_of_None db_Update_only_def db_Update_def
      encodeJob_def ref_encode_job_def ref_put_def Let_def)

lemma ref_jobs_empty [simp]: "bolt_jobs_of ref_env ref_empty = (\<lambda>_. None)"
  by (simp add: bolt_jobs_of_def ref_empty_def fun_eq_iff)

text \<open>The database after submitting one job, and then another, to the empty one.\<close>

definition ref_one :: "Job \<Rightarrow> ref_db" where
  "ref_one j = snd (bolt_Create ref_env j ref_empty)"

definition ref_two :: "Job \<Rightarrow> Job \<Rightarrow> ref_db" where
  "ref_two j k = snd (bolt_Create ref_env k (ref_one j))"

lemma ref_one:
  assumes "IdempotencyKey j = ''''"
  shows "bolt_inv ref_env ref_ok (ref_one j)"
    and "bolt_jobs_of ref_env (ref_one j) = [ID j \<mapsto> j]"
proof -
  have "bolt_Create ref_env j ref_empty = (None, ref_one j)"
    using ref_Create [of ref_empty j] assms by (simp add: ref_one_def)
  from ref.bolt_Create_ok [OF ref_inv_empty this]
  show "bolt_inv ref_env ref_ok (ref_one j)"
    and "bolt_jobs_of ref_env (ref_one j) = [ID j \<mapsto> j]"
    by simp_all
qed

lemma ref_two:
  assumes "IdempotencyKey j = ''''" and "IdempotencyKey k = ''''" and "ID j \<noteq> ID k"
  shows "bolt_inv ref_env ref_ok (ref_two j k)"
    and "bolt_jobs_of ref_env (ref_two j k) = [ID j \<mapsto> j, ID k \<mapsto> k]"
proof -
  have "bolt_Create ref_env k (ref_one j) = (None, ref_two j k)"
    using ref_Create [of "ref_one j" k] ref_one [of j] assms by (simp add: ref_two_def)
  from ref.bolt_Create_ok [OF ref_one(1) this] ref_one [of j] assms
  show "bolt_inv ref_env ref_ok (ref_two j k)"
    and "bolt_jobs_of ref_env (ref_two j k) = [ID j \<mapsto> j, ID k \<mapsto> k]"
    by simp_all
qed

section \<open>Refinement\<close>

context bolt_backend
begin

lemma contract: "job_store (bolt_store env) binv (bolt_writable env) jobs_of results_of
    checkpoints_of idem_of"
  by (rule store.job_store_axioms)

end

text \<open>
  C1: the durable store implements the store contract for every database, codec, UUID
  printer and sorting function with the documented behaviour: on its abstract contents its
  methods return and change exactly what the contract says, and an operation that fails, in
  the bucket, in the codec or at commit, changes nothing.
\<close>

theorem bolt_refines_contract:
  assumes "bolt_backend env db_ok"
  shows "job_store (bolt_store env) (bolt_inv env db_ok) (bolt_writable env) (bolt_jobs_of env)
    (bolt_results_of env) (bolt_checkpoints_of env) (bolt_idem_of env)"
  by (rule bolt_backend.contract [OF assms])

theorem bolt_refines_contract_witness:
  "job_store (bolt_store ref_env) (bolt_inv ref_env ref_ok) (bolt_writable ref_env)
     (bolt_jobs_of ref_env) (bolt_results_of ref_env) (bolt_checkpoints_of ref_env)
     (bolt_idem_of ref_env)"
  by (rule bolt_refines_contract) (rule ref.bolt_backend_axioms)

section \<open>The order of pending jobs\<close>

context bolt_backend
begin

lemma GetPending_optimal:
  assumes "binv db" and "bolt_GetPending env limit db = Inr js"
  shows "ordered_by priority_less js"
    and "jobs_of db i = Some j \<Longrightarrow> is_pending j \<Longrightarrow> j \<notin> set js \<Longrightarrow> x \<in> set js \<Longrightarrow> \<not> priority_less j x"
proof -
  let ?all = "sortJobs (sort_Slice env) (filter is_pending (scan_jobs env db)) OrderPriorityAsc"
  let ?n = "nat (effective_limit limit)"
  have js: "js = sort_Slice env priority_less (take ?n ?all)"
    using assms(2) by (simp add: bolt_GetPending_eq)
  show "ordered_by priority_less js" unfolding js by (rule sort_ordered) simp
  assume j: "jobs_of db i = Some j" "is_pending j" "j \<notin> set js" "x \<in> set js"
  have "j \<in> set ?all"
    using j(1,2) jobs_of_ID [OF assms(1) j(1)] scan_mem [OF assms(1)] by simp
  with j(3) have "j \<in> set (drop ?n ?all)"
    unfolding js sort_set by (metis Un_iff append_take_drop_id set_append)
  moreover have "x \<in> set (take ?n ?all)" using j(4) unfolding js sort_set .
  ultimately show "\<not> priority_less j x"
    using sortJobs_take_least [of x ?n _ OrderPriorityAsc j] by simp
qed

end

text \<open>
  The durable store hands out pending jobs in the documented order and picks the right
  ones: the list is ordered by priority and then by age, and no pending job left out by the
  limit should have come before one that is in the list.
\<close>

theorem bolt_GetPending_order:
  assumes "bolt_backend env db_ok" and "bolt_inv env db_ok db"
    and "bolt_GetPending env limit db = Inr js"
  shows "ordered_by priority_less js \<and>
    (\<forall>i j x. bolt_jobs_of env db i = Some j \<and> is_pending j \<and> j \<notin> set js \<and> x \<in> set js \<longrightarrow>
       \<not> priority_less j x)"
  using bolt_backend.GetPending_optimal [OF assms] by blast

theorem bolt_GetPending_order_witness:
  "bolt_GetPending ref_env 1 (ref_two (example_job 1 JobStatePending 3)
     (example_job 2 JobStatePending 0)) = Inr [example_job 2 JobStatePending 0]"
proof -
  let ?a = "example_job 1 JobStatePending 3" and ?b = "example_job 2 JobStatePending 0"
  let ?db = "ref_two ?a ?b"
  have inv: "bolt_inv ref_env ref_ok ?db"
    and jobs: "bolt_jobs_of ref_env ?db = [1 \<mapsto> ?a, 2 \<mapsto> ?b]"
    using ref_two [of ?a ?b] by simp_all
  obtain js where js: "bolt_GetPending ref_env 1 ?db = Inr js"
    and mem: "\<forall>j \<in> set js. bolt_jobs_of ref_env ?db (ID j) = Some j"
    and len: "int (length js) \<le> 1"
    and all: "int (length js) < 1 \<longrightarrow>
      (\<forall>i j. bolt_jobs_of ref_env ?db i = Some j \<and> is_pending j \<longrightarrow> j \<in> set js)"
    using ref.bolt_GetPending_law [OF inv, of 1] unfolding effective_limit_def by auto
  have pend: "is_pending ?b" by (simp add: is_pending_def)
  have b2: "bolt_jobs_of ref_env ?db 2 = Some ?b" by (simp add: jobs)
  have "js \<noteq> []" using all b2 pend by auto
  with len obtain x where x: "js = [x]" by (cases js) auto
  with mem have "x = ?a \<or> x = ?b" by (auto simp: jobs split: if_splits)
  moreover have "?b \<in> set js \<or> \<not> priority_less ?b x"
    using bolt_GetPending_order [OF ref.bolt_backend_axioms inv js] b2 pend x by auto
  moreover have "priority_less ?b ?a" by (simp add: priority_less_def)
  ultimately show ?thesis using js x by auto
qed

section \<open>Cleanup\<close>

context bolt_backend
begin

abbreviation (input) "keyed_dead cutoff key \<equiv> list_ex (\<lambda>(k' :: bytes, v).
  \<exists>j. decodeJob env v = Inr j \<and> bolt_expired cutoff j \<and> IdempotencyKey j = key)"

abbreviation (input) "dead_entry cutoff \<equiv>
  (\<lambda>(k :: bytes, v). \<exists>j. decodeJob env v = Inr j \<and> bolt_expired cutoff j)"

text \<open>The first loop: the keys of the expired jobs, and the index without their entries.\<close>

lemma cleanup_entries:
  assumes "db_ok tx"
  shows "\<exists>tx'. fold (bolt_cleanup_entry env cutoff) kvs (ks, tx) =
      (ks @ map fst (filter (dead_entry cutoff) kvs), tx') \<and> db_ok tx' \<and>
    (\<forall>b k. db_get env tx' b k =
       (if b = idempotencyBucket \<and> k \<noteq> '''' \<and>
           keyed_dead cutoff k kvs
        then None else db_get env tx b k))"
  using assms
proof (induction kvs arbitrary: ks tx)
  case Nil
  then show ?case by simp
next
  case (Cons kv kvs)
  obtain k v where kv: "kv = (k, v)" by (cases kv)
  show ?case
  proof (cases "\<exists>j. decodeJob env v = Inr j \<and> bolt_expired cutoff j")
    case False
    then have step: "bolt_cleanup_entry env cutoff kv (ks, tx) = (ks, tx)"
      by (auto simp: kv bolt_cleanup_entry_def split: sum.splits)
    from Cons.IH [OF Cons.prems, of ks] obtain tx' where
      "fold (bolt_cleanup_entry env cutoff) kvs (ks, tx) =
        (ks @ map fst (filter (dead_entry cutoff) kvs), tx')" and "db_ok tx'"
      and "\<forall>b k. db_get env tx' b k =
        (if b = idempotencyBucket \<and> k \<noteq> '''' \<and> keyed_dead cutoff k kvs then None else db_get env tx b k)"
      by blast
    moreover have "keyed_dead cutoff key (kv # kvs) = keyed_dead cutoff key kvs" for key
      using False by (auto simp: kv)
    ultimately show ?thesis
      unfolding fold_simps step using False by (intro exI [of _ tx']) (simp add: kv)
  next
    case True
    then obtain j where j: "decodeJob env v = Inr j" "bolt_expired cutoff j" by blast
    let ?tx = "if IdempotencyKey j \<noteq> [] then snd (db_delete env idempotencyBucket (IdempotencyKey j) tx)
      else tx"
    have step: "bolt_cleanup_entry env cutoff kv (ks, tx) = (ks @ [k], ?tx)"
      by (simp add: kv bolt_cleanup_entry_def j)
    have ok: "db_ok ?tx" using Cons.prems by (simp add: delete_get)
    have get: "db_get env ?tx b k' = (if b = idempotencyBucket \<and> k' \<noteq> [] \<and> IdempotencyKey j = k'
        then None else db_get env tx b k')" for b k'
      using Cons.prems by (auto simp: delete_get)
    from Cons.IH [OF ok, of "ks @ [k]"] obtain tx' where
      "fold (bolt_cleanup_entry env cutoff) kvs (ks @ [k], ?tx) =
        (ks @ [k] @ map fst (filter (dead_entry cutoff) kvs), tx')" and "db_ok tx'"
      and "\<forall>b k. db_get env tx' b k =
        (if b = idempotencyBucket \<and> k \<noteq> '''' \<and> keyed_dead cutoff k kvs then None
         else db_get env ?tx b k)"
      by auto
    moreover have "keyed_dead cutoff key (kv # kvs) \<longleftrightarrow>
        IdempotencyKey j = key \<or> keyed_dead cutoff key kvs" for key
      using j by (auto simp: kv)
    ultimately show ?thesis
      unfolding fold_simps step get using j by (intro exI [of _ tx']) (auto simp: kv)
  qed
qed

text \<open>The second loop.\<close>

lemma cleanup_deletes:
  assumes "db_ok tx"
  shows "\<exists>tx'. fold (bolt_cleanup_delete env) ks (n, tx) = (n + int (length ks), tx') \<and> db_ok tx' \<and>
    (\<forall>b k. db_get env tx' b k =
       (if b \<in> {jobsBucket, resultsBucket, checkpointBucket} \<and> k \<in> set ks
        then None else db_get env tx b k))"
  using assms
proof (induction ks arbitrary: n tx)
  case Nil
  then show ?case by simp
next
  case (Cons k ks)
  let ?tx = "snd (db_delete env checkpointBucket k
        (snd (db_delete env resultsBucket k (snd (db_delete env jobsBucket k tx)))))"
  have step: "bolt_cleanup_delete env k (n, tx) = (n + 1, ?tx)"
    by (simp add: bolt_cleanup_delete_def)
  have ok: "db_ok ?tx" using Cons.prems by (simp add: delete_get)
  have get: "db_get env ?tx b k' = (if b \<in> {jobsBucket, resultsBucket, checkpointBucket} \<and> k' = k
      then None else db_get env tx b k')" for b k'
    using Cons.prems by (auto simp: delete_get)
  from Cons.IH [OF ok, of "n + 1"] show ?case
    unfolding fold_simps step by (auto simp: get)
qed

end


text \<open>What \<open>Cleanup\<close> removes, over the abstract contents.\<close>

definition bolt_dead :: "'db bolt_env \<Rightarrow> instant \<Rightarrow> 'db \<Rightarrow> uuid set" where
  "bolt_dead env cutoff db = {i. \<exists>j. bolt_jobs_of env db i = Some j \<and> bolt_expired cutoff j}"

definition bolt_dead_keys :: "'db bolt_env \<Rightarrow> instant \<Rightarrow> 'db \<Rightarrow> string set" where
  "bolt_dead_keys env cutoff db = {key. key \<noteq> '''' \<and>
     (\<exists>i j. bolt_jobs_of env db i = Some j \<and> bolt_expired cutoff j \<and> IdempotencyKey j = key)}"

context bolt_backend
begin

lemma dead_entries:
  assumes "binv db"
  shows "set (map fst (filter (dead_entry cutoff) (db_cursor env db jobsBucket))) =
      uuid_String env ` bolt_dead env cutoff db"
    and "keyed_dead cutoff key (db_cursor env db jobsBucket) \<and> key \<noteq> '''' \<longleftrightarrow>
      key \<in> bolt_dead_keys env cutoff db"
proof -
  have ok: "db_ok db" using assms by (simp add: bolt_inv_def)
  have ent: "db_get env db jobsBucket k = Some v \<Longrightarrow> decodeJob env v = Inr j \<Longrightarrow>
      k = uuid_String env (ID j) \<and> jobs_of db (ID j) = Some j" for k v j
    using assms unfolding jobs_of_Some [OF assms] by (force simp: bolt_inv_def job_entry_def)
  show "set (map fst (filter (dead_entry cutoff) (db_cursor env db jobsBucket))) =
      uuid_String env ` bolt_dead env cutoff db"
    using ent jobs_of_Some [OF assms]
    by (force simp: cursor_mem(1) [OF ok] bolt_dead_def image_iff)
  show "keyed_dead cutoff key (db_cursor env db jobsBucket) \<and> key \<noteq> '''' \<longleftrightarrow>
      key \<in> bolt_dead_keys env cutoff db"
    using ent jobs_of_Some [OF assms]
    by (fastforce simp: list_ex_iff cursor_mem(1) [OF ok] bolt_dead_keys_def)
qed

lemma Cleanup_exact:
  assumes "binv db" and "bolt_Cleanup env t retention db = (n, None, db')"
  shows "binv db'" and "n = int (card (bolt_dead env (ago t retention) db))"
    and "jobs_of db' = jobs_of db |` (- bolt_dead env (ago t retention) db)"
    and "results_of db' = results_of db |` (- bolt_dead env (ago t retention) db)"
    and "checkpoints_of db' = checkpoints_of db |` (- bolt_dead env (ago t retention) db)"
    and "idem_of db' = idem_of db |` (- bolt_dead_keys env (ago t retention) db)"
proof -
  let ?c = "ago t retention" and ?kvs = "db_cursor env db jobsBucket"
  let ?ks = "map fst (filter (dead_entry ?c) ?kvs)"
  let ?dead = "bolt_dead env ?c db"
  have ok: "db_ok db" using assms(1) by (simp add: bolt_inv_def)
  obtain tx1 where tx1: "fold (bolt_cleanup_entry env ?c) ?kvs ([], db) = (?ks, tx1)" "db_ok tx1"
    and get1: "\<forall>b k. db_get env tx1 b k =
      (if b = idempotencyBucket \<and> k \<noteq> '''' \<and> keyed_dead ?c k ?kvs then None else db_get env db b k)"
    using cleanup_entries [OF ok, of ?c ?kvs "[]"] by auto
  obtain tx2 where tx2: "fold (bolt_cleanup_delete env) ?ks (0, tx1) = (int (length ?ks), tx2)"
      "db_ok tx2"
    and get2: "\<forall>b k. db_get env tx2 b k =
       (if b \<in> {jobsBucket, resultsBucket, checkpointBucket} \<and> k \<in> set ?ks
        then None else db_get env tx1 b k)"
    using cleanup_deletes [OF tx1(2), of ?ks 0] by auto
  have "n = int (length ?ks) \<and> db' = tx2"
    using assms(2) unfolding bolt_Cleanup_def db_Update_ok Let_def tx1(1) prod.case tx2(1)
    by simp
  then have n: "n = int (length ?ks)" and db': "db' = tx2" by simp_all
  have get: "db_get env db' b k =
      (if b \<in> {jobsBucket, resultsBucket, checkpointBucket} \<and> k \<in> uuid_String env ` ?dead \<or>
          b = idempotencyBucket \<and> k \<in> bolt_dead_keys env ?c db
       then None else db_get env db b k)" for b k
    unfolding dead_entries(2) [OF assms(1), symmetric] dead_entries(1) [OF assms(1), symmetric]
    using get1 get2 by (auto simp: db')
  have img: "uuid_String env i \<in> uuid_String env ` ?dead \<longleftrightarrow> i \<in> ?dead" for i by auto
  show "jobs_of db' = jobs_of db |` (- ?dead)" "results_of db' = results_of db |` (- ?dead)"
      "checkpoints_of db' = checkpoints_of db |` (- ?dead)"
    by (simp_all add: bolt_jobs_of_def bolt_results_of_def bolt_checkpoints_of_def get img
        restrict_map_def fun_eq_iff)
  show "idem_of db' = idem_of db |` (- bolt_dead_keys env ?c db)"
    by (simp add: bolt_idem_of_def get restrict_map_def fun_eq_iff)
  have "db_get env db' b k = Some v \<Longrightarrow> db_get env db b k = Some v" for b k v
    unfolding get by (simp split: if_splits)
  note sub = this
  show "binv db'"
    unfolding bolt_inv_def
  proof (intro conjI allI impI)
    show "db_ok db'" using tx2(2) by (simp add: db')
    show "job_entry env k v" if "db_get env db' jobsBucket k = Some v" for k v
      using sub [OF that] assms(1) by (simp add: bolt_inv_def)
    show "\<exists>r. decodeResult env v = Inr r" if "db_get env db' resultsBucket k = Some v" for k v
      using sub [OF that] assms(1) by (simp add: bolt_inv_def)
    show "\<exists>i. v = uuid_String env i" if "db_get env db' idempotencyBucket k = Some v" for k v
      using sub [OF that] assms(1) by (simp add: bolt_inv_def)
  qed
  have "distinct ?ks" using cursor_mem(2) [OF ok] by (rule distinct_map_filter)
  then have "length ?ks = card (set ?ks)" by (rule distinct_card [symmetric])
  also have "\<dots> = card (uuid_String env ` ?dead)" by (simp only: dead_entries(1) [OF assms(1)])
  also have "\<dots> = card ?dead" by (rule card_image) (simp add: inj_on_def)
  finally show "n = int (card ?dead)" unfolding n by (rule arg_cong)
qed

end

text \<open>
  C27: a \<open>Cleanup\<close> of the durable store that commits removes exactly the completed, failed
  and cancelled jobs with a completion time before the cutoff, with their results,
  checkpoints and idempotency keys, keeps everything else and returns how many it removed;
  one that fails to commit changes nothing.
\<close>

theorem bolt_Cleanup_exact:
  assumes "bolt_backend env db_ok" and "bolt_inv env db_ok db"
    and "bolt_Cleanup env t retention db = (n, err, db')"
    and "dead = bolt_dead env (ago t retention) db"
    and "keys = bolt_dead_keys env (ago t retention) db"
  shows "(err \<noteq> None \<and> db' = db) \<or>
    (err = None \<and> bolt_inv env db_ok db' \<and> n = int (card dead) \<and>
     bolt_jobs_of env db' = bolt_jobs_of env db |` (- dead) \<and>
     bolt_results_of env db' = bolt_results_of env db |` (- dead) \<and>
     bolt_checkpoints_of env db' = bolt_checkpoints_of env db |` (- dead) \<and>
     bolt_idem_of env db' = bolt_idem_of env db |` (- keys))"
proof (cases err)
  case None
  with assms(3) have "bolt_Cleanup env t retention db = (n, None, db')" by simp
  from bolt_backend.Cleanup_exact [OF assms(1,2) this] None show ?thesis
    by (simp add: assms(4,5))
next
  case (Some e)
  with assms(3) have "db' = db" by (auto simp: bolt_Cleanup_def dest: db_Update_err)
  with Some show ?thesis by simp
qed


theorem bolt_Cleanup_exact_witness:
  "\<exists>db'. bolt_Cleanup ref_env 100 50
      (ref_one ((example_job 1 JobStateCancelled 0)\<lparr>CompletedAt := 10\<rparr>)) = (1, None, db') \<and>
    bolt_jobs_of ref_env db' 1 = None"
proof -
  let ?j = "(example_job 1 JobStateCancelled 0)\<lparr>CompletedAt := 10\<rparr>"
  let ?db = "ref_one ?j"
  have inv: "bolt_inv ref_env ref_ok ?db" and jobs: "bolt_jobs_of ref_env ?db = [1 \<mapsto> ?j]"
    using ref_one [of ?j] by simp_all
  obtain n err db' where c: "bolt_Cleanup ref_env 100 50 ?db = (n, err, db')"
    by (cases "bolt_Cleanup ref_env 100 50 ?db")
  have err: "err = None"
    using c by (auto simp: bolt_Cleanup_def db_Update_def Let_def split: prod.splits)
  have dead: "{1} = bolt_dead ref_env (ago 100 50) ?db"
    by (auto simp: bolt_dead_def jobs bolt_expired_def ago_def int64_range_def IsZero_def
        split: if_splits)
  from bolt_Cleanup_exact [OF ref.bolt_backend_axioms inv c dead refl] err c show ?thesis
    by simp
qed

section \<open>The idempotency index\<close>

text \<open>
  A write of the durable store, by any of its methods. \<open>Update\<close> is used by the program
  on a job read with \<open>Get\<close>, whose key it never changes.
\<close>

inductive bolt_write :: "'db bolt_env \<Rightarrow> 'db \<Rightarrow> 'db \<Rightarrow> bool" for env where
  "bolt_Create env j db = (e, db') \<Longrightarrow> bolt_write env db db'"
| "bolt_jobs_of env db (ID j) = Some old \<Longrightarrow> IdempotencyKey j = IdempotencyKey old \<Longrightarrow>
     bolt_Update env t j db = (j', e, db') \<Longrightarrow> bolt_write env db db'"
| "bolt_UpdateState env t i st db = (e, db') \<Longrightarrow> bolt_write env db db'"
| "bolt_Delete env i db = (e, db') \<Longrightarrow> bolt_write env db db'"
| "bolt_ClaimJob env t i w db = (b, e, db') \<Longrightarrow> bolt_write env db db'"
| "bolt_SaveResult env r db = (e, db') \<Longrightarrow> bolt_write env db db'"
| "bolt_SaveCheckpoint env i data db = (e, db') \<Longrightarrow> bolt_write env db db'"
| "bolt_Cleanup env t retention db = (n, e, db') \<Longrightarrow> bolt_write env db db'"

inductive bolt_writes :: "'db bolt_env \<Rightarrow> 'db \<Rightarrow> 'db \<Rightarrow> bool" for env where
  "bolt_writes env db db"
| "bolt_writes env db db1 \<Longrightarrow> bolt_write env db1 db2 \<Longrightarrow> bolt_writes env db db2"

text \<open>An entry of the index names the stored job with that key, and each such job has one.\<close>

definition idem_consistent :: "'db bolt_env \<Rightarrow> 'db \<Rightarrow> bool" where
  "idem_consistent env db \<longleftrightarrow> (\<forall>key i. bolt_idem_of env db key = Some i \<longleftrightarrow>
     key \<noteq> '''' \<and> (\<exists>j. bolt_jobs_of env db i = Some j \<and> IdempotencyKey j = key))"

lemma idem_consistent_same:
  assumes "idem_consistent env db" and "bolt_idem_of env db' = bolt_idem_of env db"
    and "\<And>i. map_option IdempotencyKey (bolt_jobs_of env db' i) =
      map_option IdempotencyKey (bolt_jobs_of env db i)"
  shows "idem_consistent env db'"
proof -
  have eq: "(\<exists>j. bolt_jobs_of env d i = Some j \<and> IdempotencyKey j = key) \<longleftrightarrow>
      map_option IdempotencyKey (bolt_jobs_of env d i) = Some key" for d i key
    by (auto simp: map_option_case split: option.splits)
  show ?thesis using assms(1) unfolding idem_consistent_def eq assms(2,3) .
qed

context bolt_backend
begin

lemma Delete_idem:
  assumes "binv db" and "bolt_Delete env i db = (None, db')" and "jobs_of db i = Some j"
  shows "idem_of db' = (if IdempotencyKey j = '''' then idem_of db
    else (idem_of db)(IdempotencyKey j := None))"
proof -
  have ok: "db_ok db" using assms(1) by (simp add: bolt_inv_def)
  obtain data where "db_get env db jobsBucket (uuid_String env i) = Some data"
      "decodeJob env data = Inr j"
    using assms(1,3) jobs_of_Some by blast
  then have "db' = snd (db_delete env jobsBucket (uuid_String env i)
      (snd (db_delete env resultsBucket (uuid_String env i)
        (snd (db_delete env checkpointBucket (uuid_String env i)
          (if IdempotencyKey j \<noteq> [] then snd (db_delete env idempotencyBucket (IdempotencyKey j) db)
           else db))))))"
    using assms(2) unfolding bolt_Delete_def db_Update_only_ok
    by (auto simp: Let_def split: prod.splits if_splits option.splits)
  with ok show ?thesis by (simp add: bolt_idem_of_def fun_eq_iff delete_get)
qed

lemma Delete_consistent:
  assumes "binv db" and "idem_consistent env db" and "bolt_Delete env i db = (None, db')"
  shows "idem_consistent env db'"
proof -
  from bolt_Delete_ok [OF assms(1,3)] obtain j where j: "jobs_of db i = Some j"
    and jobs: "jobs_of db' = (jobs_of db)(i := None)" by auto
  have uniq: "i' = i" if "jobs_of db i' = Some j'" "IdempotencyKey j' = IdempotencyKey j"
      "IdempotencyKey j \<noteq> ''''" for i' j'
  proof -
    have "idem_of db (IdempotencyKey j) = Some i'" "idem_of db (IdempotencyKey j) = Some i"
      using assms(2) that j unfolding idem_consistent_def by auto
    then show ?thesis by simp
  qed
  show ?thesis
    unfolding idem_consistent_def
  proof (intro allI)
    fix key i'
    show "idem_of db' key = Some i' \<longleftrightarrow>
        key \<noteq> '''' \<and> (\<exists>j. jobs_of db' i' = Some j \<and> IdempotencyKey j = key)"
      using Delete_idem [OF assms(1,3) j] assms(2) uniq [of i'] j
      unfolding idem_consistent_def jobs by (cases "i' = i") (auto split: if_splits)
  qed
qed

lemma Cleanup_consistent:
  assumes "binv db" and "idem_consistent env db" and "bolt_Cleanup env t d db = (n, None, db')"
  shows "idem_consistent env db'"
proof -
  let ?c = "ago t d"
  note c = Cleanup_exact [OF assms(1,3)]
  have key: "idem_of db key = Some i \<longleftrightarrow>
      key \<noteq> '''' \<and> (\<exists>j. jobs_of db i = Some j \<and> IdempotencyKey j = key)" for key i
    using assms(2) by (simp add: idem_consistent_def)
  have dead: "key \<in> bolt_dead_keys env ?c db \<longleftrightarrow> i \<in> bolt_dead env ?c db"
    if "idem_of db key = Some i" for key i
  proof
    assume "key \<in> bolt_dead_keys env ?c db"
    then obtain i' j where j: "key \<noteq> ''''" "jobs_of db i' = Some j" "bolt_expired ?c j"
        "IdempotencyKey j = key" by (auto simp: bolt_dead_keys_def)
    then have "idem_of db key = Some i'" unfolding key by blast
    with that have "i' = i" by simp
    with j show "i \<in> bolt_dead env ?c db" by (auto simp: bolt_dead_def)
  next
    assume "i \<in> bolt_dead env ?c db"
    with that show "key \<in> bolt_dead_keys env ?c db"
      unfolding key bolt_dead_def bolt_dead_keys_def by fastforce
  qed
  show ?thesis
    unfolding idem_consistent_def
  proof (intro allI)
    fix k i
    show "idem_of db' k = Some i \<longleftrightarrow>
        k \<noteq> '''' \<and> (\<exists>j. jobs_of db' i = Some j \<and> IdempotencyKey j = k)"
      unfolding c(3,6) restrict_map_def using dead [of k i] key [of k i] by auto
  qed
qed

end


context bolt_backend
begin

lemma Create_consistent:
  assumes "binv db" and "idem_consistent env db" and "bolt_Create env j db = (None, db')"
  shows "idem_consistent env db'"
  unfolding idem_consistent_def
proof (intro allI)
  fix key i
  note c = bolt_Create_ok [OF assms(1,3)]
  have old: "idem_of db key = Some i \<longleftrightarrow>
      key \<noteq> '''' \<and> (\<exists>j. jobs_of db i = Some j \<and> IdempotencyKey j = key)"
    using assms(2) by (simp add: idem_consistent_def)
  have new: "idem_of db' = (if IdempotencyKey j = '''' then idem_of db
      else (idem_of db)(IdempotencyKey j \<mapsto> ID j))"
    and jobs: "jobs_of db' = (jobs_of db)(ID j \<mapsto> j)" and none: "jobs_of db (ID j) = None"
    and free: "IdempotencyKey j \<noteq> '''' \<Longrightarrow> idem_of db (IdempotencyKey j) = None"
    using c by auto
  show "idem_of db' key = Some i \<longleftrightarrow>
      key \<noteq> '''' \<and> (\<exists>j. jobs_of db' i = Some j \<and> IdempotencyKey j = key)"
  proof (cases "key = IdempotencyKey j")
    case True
    then show ?thesis using old free by (cases "i = ID j") (auto simp: new jobs none)
  next
    case False
    then show ?thesis using old by (cases "i = ID j") (auto simp: new jobs none)
  qed
qed

lemma Update_consistent:
  assumes "binv db" and "idem_consistent env db" and "jobs_of db (ID j) = Some old"
    and "IdempotencyKey j = IdempotencyKey old" and "bolt_Update env t j db = (j', None, db')"
  shows "idem_consistent env db'"
  using bolt_Update_ok [OF assms(1,5)] assms(3,4)
  by (intro idem_consistent_same [OF assms(2)]) auto

lemma UpdateState_consistent:
  assumes "binv db" and "idem_consistent env db" and "bolt_UpdateState env t i st db = (None, db')"
  shows "idem_consistent env db'"
  using bolt_UpdateState_ok [OF assms(1,3)]
  by (intro idem_consistent_same [OF assms(2)]) auto

lemma ClaimJob_consistent:
  assumes "binv db" and "idem_consistent env db"
    and "bolt_ClaimJob env t i w db = (True, None, db')"
  shows "idem_consistent env db'"
  using bolt_ClaimJob_ok [OF assms(1,3)]
  by (intro idem_consistent_same [OF assms(2)]) (auto simp: claimed_by_def)

text \<open>Every write keeps the store's invariant and the consistency of the index.\<close>

lemma write_consistent:
  assumes "bolt_write env db db'" and "binv db" and "idem_consistent env db"
  shows "binv db' \<and> idem_consistent env db'"
  using assms
proof (induction rule: bolt_write.induct)
  case (1 j db e db')
  have "db' = db" if "e = Some x" for x
    using 1(1) that unfolding bolt_Create_def by (auto dest: db_Update_only_err)
  with 1 show ?case
    using bolt_Create_ok [of db j db'] Create_consistent [of db j db'] by (cases e) auto
next
  case (2 db j old t j' e db')
  then show ?case
    using store.Update_err [of db t j j' _ db'] bolt_Update_ok [of db t j j' db']
      Update_consistent [of db j old t j' db']
    by (cases e) auto
next
  case (3 t i st db e db')
  then show ?case
    using store.UpdateState_err [of db t i st _ db'] bolt_UpdateState_ok [of db t i st db']
      UpdateState_consistent [of db t i st db']
    by (cases e) auto
next
  case (4 i db e db')
  then show ?case
    using store.Delete_err [of db i _ db'] bolt_Delete_ok [of db i db']
      Delete_consistent [of db i db']
    by (cases e) auto
next
  case (5 t i w db b e db')
  then show ?case
    using store.ClaimJob_no [of db t i w b e db'] bolt_ClaimJob_ok [of db t i w db']
      ClaimJob_consistent [of db t i w db']
    by (cases "(b, e) = (True, None)") auto
next
  case (6 r db e db')
  then show ?case
    using store.SaveResult_err [of db r _ db'] store.SaveResult_ok [of db r db']
      idem_consistent_same [of env db db']
    by (cases e) auto
next
  case (7 i data db e db')
  then show ?case
    using store.SaveCheckpoint_err [of db i data _ db'] store.SaveCheckpoint_ok [of db i data db']
      idem_consistent_same [of env db db']
    by (cases e) auto
next
  case (8 t retention db n e db')
  then show ?case
    using Cleanup_exact(1) [of db t retention n db'] Cleanup_consistent [of db t retention n db']
    by (cases e) (auto simp: bolt_Cleanup_def dest: db_Update_err)
qed

lemma writes_consistent:
  "bolt_writes env db db' \<Longrightarrow> binv db \<Longrightarrow> idem_consistent env db \<Longrightarrow>
     binv db' \<and> idem_consistent env db'"
  by (induction rule: bolt_writes.induct) (auto dest: write_consistent)

end

lemma idem_consistent_empty:
  "bolt_jobs_of env db = (\<lambda>_. None) \<Longrightarrow> bolt_idem_of env db = (\<lambda>_. None) \<Longrightarrow> idem_consistent env db"
  by (simp add: idem_consistent_def)

text \<open>
  C17: through any sequence of writes of the durable store, failed ones, deletions and cleanups
  included, the idempotency index stays exact: a key is in it if and only if a stored job has
  that key, it names that job, and so no two stored jobs share a key.
\<close>

theorem bolt_idempotency_index:
  assumes "bolt_backend env db_ok" and "bolt_inv env db_ok db"
    and "bolt_jobs_of env db = (\<lambda>_. None)" and "bolt_idem_of env db = (\<lambda>_. None)"
    and "bolt_writes env db db'"
  shows "idem_consistent env db' \<and>
    (\<forall>i i' j j'. bolt_jobs_of env db' i = Some j \<and> bolt_jobs_of env db' i' = Some j' \<and>
       IdempotencyKey j = IdempotencyKey j' \<and> IdempotencyKey j \<noteq> '''' \<longrightarrow> i = i')"
proof -
  have c: "idem_consistent env db'"
    using bolt_backend.writes_consistent [OF assms(1,5,2)] idem_consistent_empty [OF assms(3,4)]
    by blast
  have "i = i'" if "bolt_jobs_of env db' i = Some j" "bolt_jobs_of env db' i' = Some j'"
      "IdempotencyKey j = IdempotencyKey j'" "IdempotencyKey j \<noteq> ''''" for i i' j j'
  proof -
    have "bolt_idem_of env db' (IdempotencyKey j) = Some i"
      "bolt_idem_of env db' (IdempotencyKey j) = Some i'"
      using c that unfolding idem_consistent_def by auto
    then show ?thesis by simp
  qed
  with c show ?thesis by blast
qed

theorem bolt_idempotency_index_witness:
  "idem_consistent ref_env (snd (bolt_Delete ref_env 1
     (snd (bolt_Create ref_env ((example_job 1 JobStatePending 0)\<lparr>IdempotencyKey := ''k''\<rparr>)
       ref_empty))))"
proof (rule bolt_idempotency_index [OF ref.bolt_backend_axioms ref_inv_empty ref_jobs_empty,
      THEN conjunct1])
  show "bolt_idem_of ref_env ref_empty = (\<lambda>_. None)"
    by (simp add: bolt_idem_of_def ref_empty_def fun_eq_iff)
  show "bolt_writes ref_env ref_empty (snd (bolt_Delete ref_env 1
     (snd (bolt_Create ref_env ((example_job 1 JobStatePending 0)\<lparr>IdempotencyKey := ''k''\<rparr>)
       ref_empty))))"
    by (rule bolt_writes.intros(2) [OF bolt_writes.intros(2) [OF bolt_writes.intros(1)]],
        rule bolt_write.intros(1), rule prod.collapse [symmetric],
        rule bolt_write.intros(4), rule prod.collapse [symmetric])
qed


end
