(* ===== verification/GQ_Scheduler.thy ===== *)
theory GQ_Scheduler
  imports GQ_Sort GQ_Memory
begin

text \<open>
  The scheduler (\<open>scheduler/scheduler.go\<close>): configuration, statistics, the
  \<open>PriorityScheduler\<close> with its job channel and its two loops, the transitions
  \<open>Enqueue\<close>, \<open>Schedule\<close>, \<open>Complete\<close>, \<open>Fail\<close>, \<open>Cancel\<close>, \<open>Retry\<close>, and the backoff
  computation. Every operation takes the method table of the store, so what is proved here
  holds for each implementation of the contract.
\<close>

section \<open>Configuration and state\<close>

record SchedulerConfig =
  TickInterval :: duration
  BatchSize :: int
  ConfigVisibilityTimeout :: duration
  MaxPendingJobs :: int

definition DefaultSchedulerConfig :: SchedulerConfig where
  "DefaultSchedulerConfig = \<lparr>TickInterval = 100 * Millisecond, BatchSize = 100,
     ConfigVisibilityTimeout = 5 * Minute, MaxPendingJobs = 1000000\<rparr>"

record SchedulerStats =
  PendingCount :: int
  ScheduledCount :: int
  RunningCount :: int
  DelayedCount :: int
  EnqueueRate :: float64
  CompleteRate :: float64
  FailRate :: float64
  ScheduleLatencyP50 :: duration
  ScheduleLatencyP99 :: duration
  LastCycleTime :: instant
  CycleDuration :: duration
  Healthy :: bool

definition zero_SchedulerStats :: SchedulerStats where
  "zero_SchedulerStats = \<lparr>PendingCount = 0, ScheduledCount = 0, RunningCount = 0,
     DelayedCount = 0, EnqueueRate = Fin 0, CompleteRate = Fin 0, FailRate = Fin 0,
     ScheduleLatencyP50 = 0, ScheduleLatencyP99 = 0, LastCycleTime = 0, CycleDuration = 0,
     Healthy = False\<rparr>"

text \<open>
  \<open>jobCh\<close> is the buffer of the job channel, whose capacity is the batch size;
  \<open>stopCh_closed\<close> tells whether \<open>stopCh\<close> has been closed. \<open>schedule_loops\<close> and
  \<open>delayed_loops\<close> count the goroutines that run the two loops.
\<close>

record 's PriorityScheduler =
  sch_store :: 's
  sch_config :: SchedulerConfig
  jobCh :: "Job list"
  sch_running :: int
  stopCh_closed :: bool
  sch_stats :: SchedulerStats
  enqueued :: int
  completed :: int
  failed :: int
  schedule_loops :: nat
  delayed_loops :: nat

text \<open>\<open>make(chan T, n)\<close> panics when \<open>n\<close> is negative.\<close>

definition NewPriorityScheduler ::
    "'s \<Rightarrow> SchedulerConfig option \<Rightarrow> 's PriorityScheduler go_result" where
  "NewPriorityScheduler st config =
     (let cfg = (case config of None \<Rightarrow> DefaultSchedulerConfig | Some c \<Rightarrow> c)
      in if BatchSize cfg < 0 then Panics ''makechan: size out of range''
         else Returns \<lparr>sch_store = st, sch_config = cfg, jobCh = [], sch_running = 0,
           stopCh_closed = False, sch_stats = zero_SchedulerStats\<lparr>Healthy := True\<rparr>,
           enqueued = 0, completed = 0, failed = 0, schedule_loops = 0, delayed_loops = 0\<rparr>)"

definition sched_Start :: "'s PriorityScheduler \<Rightarrow> gerror option \<times> 's PriorityScheduler" where
  "sched_Start sched =
     (if sch_running sched \<noteq> 0 then (None, sched)
      else (None, sched\<lparr>sch_running := 1, schedule_loops := schedule_loops sched + 1,
                        delayed_loops := delayed_loops sched + 1\<rparr>))"

text \<open>Closing a closed channel panics.\<close>

definition sched_Stop ::
    "'s PriorityScheduler \<Rightarrow> (gerror option \<times> 's PriorityScheduler) go_result" where
  "sched_Stop sched =
     (if sch_running sched \<noteq> 1 then Returns (None, sched)
      else if stopCh_closed sched then Panics ''close of closed channel''
      else Returns (None, sched\<lparr>sch_running := 0, stopCh_closed := True\<rparr>))"

section \<open>The loops\<close>

text \<open>
  The loop of \<open>scheduleJobs\<close>: a pending job is marked as scheduled in the store (an error
  is ignored) and in the local copy, then sent if the buffer has room; a full buffer ends
  the cycle. The first component tells whether the loop ran to its end.
\<close>

fun send_jobs ::
    "'s JobStore \<Rightarrow> int \<Rightarrow> clock \<Rightarrow> Job list \<Rightarrow> 's \<Rightarrow> Job list \<Rightarrow> bool \<times> 's \<times> Job list" where
  "send_jobs ops cap clk [] s ch = (True, s, ch)"
| "send_jobs ops cap clk (job # jobs) s ch =
     (let (job', s') =
            (if State job = JobStatePending
             then (job\<lparr>State := JobStateScheduled\<rparr>,
                   snd (UpdateState ops (clk 0) (ID job) JobStateScheduled s))
             else (job, s))
      in if int (length ch) < cap then send_jobs ops cap (later 1 clk) jobs s' (ch @ [job'])
         else (False, s', ch))"

definition scheduleJobs ::
    "'s JobStore \<Rightarrow> sorter \<Rightarrow> clock \<Rightarrow> 's PriorityScheduler \<Rightarrow> 's PriorityScheduler" where
  "scheduleJobs ops sort_slice clk sched =
     (let start = clk 0
      in case GetPending ops (BatchSize (sch_config sched)) (sch_store sched) of
           Inl e \<Rightarrow> sched
         | Inr jobs \<Rightarrow>
             (let jobs' = sort_slice priority_less jobs;
                  (all_sent, s', ch') = send_jobs ops (BatchSize (sch_config sched)) (later 1 clk)
                    jobs' (sch_store sched) (jobCh sched);
                  sched' = sched\<lparr>sch_store := s', jobCh := ch'\<rparr>
              in if all_sent
                 then sched'\<lparr>sch_stats := (sch_stats sched)\<lparr>LastCycleTime := start,
                        CycleDuration := time_Sub (clk (1 + length jobs)) start\<rparr>\<rparr>
                 else sched'))"

fun mark_scheduled :: "'s JobStore \<Rightarrow> clock \<Rightarrow> Job list \<Rightarrow> 's \<Rightarrow> 's" where
  "mark_scheduled ops clk [] s = s"
| "mark_scheduled ops clk (job # jobs) s =
     mark_scheduled ops (later 1 clk) jobs
       (snd (UpdateState ops (clk 0) (ID job) JobStateScheduled s))"

definition processDelayedJobs ::
    "'s JobStore \<Rightarrow> clock \<Rightarrow> 's PriorityScheduler \<Rightarrow> 's PriorityScheduler" where
  "processDelayedJobs ops clk sched =
     (case GetDelayed ops (clk 0) (BatchSize (sch_config sched)) (sch_store sched) of
        Inl e \<Rightarrow> sched
      | Inr jobs \<Rightarrow> sched\<lparr>sch_store := mark_scheduled ops (later 1 clk) jobs (sch_store sched)\<rparr>)"

text \<open>
  The \<open>select\<close> of \<open>GetNextJob\<close>: \<open>None\<close> means that the call blocks. When both the context
  is done and a job is ready, Go picks either; \<open>pick_job\<close> is that choice.
\<close>

definition GetNextJob ::
    "gerror option \<Rightarrow> bool \<Rightarrow> 's PriorityScheduler \<Rightarrow> (gerror + Job) option \<times> 's PriorityScheduler" where
  "GetNextJob ctx_err pick_job sched =
     (case (ctx_err, jobCh sched) of
        (None, []) \<Rightarrow> (None, sched)
      | (Some e, []) \<Rightarrow> (Some (Inl e), sched)
      | (None, job # rest) \<Rightarrow> (Some (Inr job), sched\<lparr>jobCh := rest\<rparr>)
      | (Some e, job # rest) \<Rightarrow>
          if pick_job then (Some (Inr job), sched\<lparr>jobCh := rest\<rparr>) else (Some (Inl e), sched))"

section \<open>Backoff\<close>

text \<open>\<open>cvt\<close> is the machine's conversion of a float that is out of the range of \<open>int64\<close>.\<close>

definition CalculateBackoff ::
    "(float64 \<Rightarrow> int) \<Rightarrow> int \<Rightarrow> BackoffStrategy \<Rightarrow> duration \<Rightarrow> duration \<Rightarrow> float64 \<Rightarrow> duration" where
  "CalculateBackoff cvt attempt strategy initial mx multiplier =
     (let delay =
        (case strategy of
           BackoffConstant \<Rightarrow> initial
         | BackoffLinear \<Rightarrow> wrap64 (attempt * initial)
         | BackoffExponential \<Rightarrow>
             int_of_float cvt (fmul (float_of_int initial)
               (math_Pow multiplier (float_of_int (wrap64 (attempt - 1)))))
         | BackoffOther s \<Rightarrow>
             int_of_float cvt (fmul (float_of_int initial)
               (math_Pow (Fin 2) (float_of_int (wrap64 (attempt - 1))))))
      in if delay > mx then mx else delay)"

section \<open>Transitions\<close>

text \<open>\<open>Enqueue\<close> changes only the caller's job and a counter; it does not touch the store.\<close>

definition Enqueue ::
    "clock \<Rightarrow> Job \<Rightarrow> 's PriorityScheduler \<Rightarrow> Job \<times> gerror option \<times> 's PriorityScheduler" where
  "Enqueue clk job sched =
     (let sched' = sched\<lparr>enqueued := wrap64 (enqueued sched + 1)\<rparr>
      in if Delay job > 0
         then (job\<lparr>State := JobStateDelayed, ScheduledAt := clk 0 + Delay job\<rparr>, None, sched')
         else if \<not> IsZero (ScheduledAt job) \<and> ScheduledAt job > clk 0
         then (job\<lparr>State := JobStateDelayed\<rparr>, None, sched')
         else (job\<lparr>State := JobStatePending\<rparr>, None, sched'))"

definition Schedule ::
    "'s JobStore \<Rightarrow> instant \<Rightarrow> uuid \<Rightarrow> 's PriorityScheduler \<Rightarrow> gerror option \<times> 's PriorityScheduler" where
  "Schedule ops t i sched =
     (let (err, s') = UpdateState ops t i JobStateScheduled (sch_store sched)
      in (err, sched\<lparr>sch_store := s'\<rparr>))"

definition Complete ::
    "'s JobStore \<Rightarrow> clock \<Rightarrow> uuid \<Rightarrow> JobResult \<Rightarrow> 's PriorityScheduler \<Rightarrow>
       gerror option \<times> 's PriorityScheduler" where
  "Complete ops clk i result sched =
     (let sched1 = sched\<lparr>completed := wrap64 (completed sched + 1)\<rparr>
      in case Get ops i (sch_store sched1) of
           Inl e \<Rightarrow> (Some e, sched1)
         | Inr job \<Rightarrow>
             (let job' = job\<lparr>State := JobStateCompleted, CompletedAt := clk 0, UpdatedAt := clk 0\<rparr>
              in case Update ops (clk 1) job' (sch_store sched1) of
                   (_, Some e, s') \<Rightarrow> (Some e, sched1\<lparr>sch_store := s'\<rparr>)
                 | (_, None, s') \<Rightarrow>
                     (let (err, s'') = SaveResult ops result s'
                      in (err, sched1\<lparr>sch_store := s''\<rparr>))))"

definition Fail ::
    "'s JobStore \<Rightarrow> (float64 \<Rightarrow> int) \<Rightarrow> clock \<Rightarrow> uuid \<Rightarrow> JobResult \<Rightarrow> 's PriorityScheduler \<Rightarrow>
       gerror option \<times> 's PriorityScheduler" where
  "Fail ops cvt clk i result sched =
     (let sched1 = sched\<lparr>failed := wrap64 (failed sched + 1)\<rparr>
      in case Get ops i (sch_store sched1) of
           Inl e \<Rightarrow> (Some e, sched1)
         | Inr job \<Rightarrow>
             (case SaveResult ops result (sch_store sched1) of
                (Some e, s') \<Rightarrow> (Some e, sched1\<lparr>sch_store := s'\<rparr>)
              | (None, s') \<Rightarrow>
                  (let category = (if ResultCategory result = ErrorCategoryNone
                         then ErrorCategorySystem else ResultCategory result);
                       shouldRetry = (category = ErrorCategoryTemporary \<and>
                         Attempt job < MaxAttempts job);
                       job' =
                         (if shouldRetry
                          then job\<lparr>State := JobStateRetrying,
                                 ScheduledAt := clk 0 + CalculateBackoff cvt (Attempt job)
                                   (BackoffStrategy job) (BackoffInitial job) (BackoffMax job)
                                   (BackoffMultiplier job),
                                 LastError := ResultError result,
                                 ErrorCategory := string_of_category category\<rparr>
                          else if Attempt job \<ge> MaxAttempts job
                          then job\<lparr>State := JobStateDeadLetter, CompletedAt := clk 0,
                                 LastError := ResultError result,
                                 ErrorCategory := string_of_category category\<rparr>
                          else job\<lparr>State := JobStateFailed, CompletedAt := clk 0,
                                 LastError := ResultError result,
                                 ErrorCategory := string_of_category category\<rparr>);
                       (_, err, s'') = Update ops (clk 2) (job'\<lparr>UpdatedAt := clk 1\<rparr>) s'
                   in (err, sched1\<lparr>sch_store := s''\<rparr>))))"

definition Cancel ::
    "'s JobStore \<Rightarrow> clock \<Rightarrow> uuid \<Rightarrow> string \<Rightarrow> bool \<Rightarrow> 's PriorityScheduler \<Rightarrow>
       gerror option \<times> 's PriorityScheduler" where
  "Cancel ops clk i reason force sched =
     (case Get ops i (sch_store sched) of
        Inl e \<Rightarrow> (Some e, sched)
      | Inr job \<Rightarrow>
          if State job = JobStateCompleted \<or> State job = JobStateFailed \<or>
             State job = JobStateDeadLetter \<or> State job = JobStateCancelled
          then (Some ErrJobNotCancellable, sched)
          else if State job = JobStateRunning \<and> \<not> force then (None, sched)
          else (let job' = job\<lparr>State := JobStateCancelled, CompletedAt := clk 0,
                      UpdatedAt := clk 0, LastError := reason\<rparr>;
                    (_, err, s') = Update ops (clk 1) job' (sch_store sched)
                in (err, sched\<lparr>sch_store := s'\<rparr>)))"

definition Retry ::
    "'s JobStore \<Rightarrow> clock \<Rightarrow> uuid \<Rightarrow> bool \<Rightarrow> 's PriorityScheduler \<Rightarrow>
       gerror option \<times> 's PriorityScheduler" where
  "Retry ops clk i resetAttempts sched =
     (case Get ops i (sch_store sched) of
        Inl e \<Rightarrow> (Some e, sched)
      | Inr job \<Rightarrow>
          if State job \<noteq> JobStateFailed \<and> State job \<noteq> JobStateDeadLetter
          then (Some ErrJobNotCancellable, sched)
          else (let job1 = (if resetAttempts then job\<lparr>Attempt := 0\<rparr> else job);
                    job' = job1\<lparr>State := JobStatePending, UpdatedAt := clk 0, CompletedAt := 0,
                      LastError := '''', ErrorCategory := ''''\<rparr>;
                    (_, err, s') = Update ops (clk 1) job' (sch_store sched)
                in (err, sched\<lparr>sch_store := s'\<rparr>)))"

definition sched_Stats :: "'s PriorityScheduler \<Rightarrow> SchedulerStats" where
  "sched_Stats sched = (sch_stats sched)\<lparr>Healthy := (sch_running sched = 1)\<rparr>"

definition sched_IsHealthy :: "'s PriorityScheduler \<Rightarrow> bool" where
  "sched_IsHealthy sched \<longleftrightarrow> sch_running sched = 1"

end
