(* ===== verification/GQ_Backoff.thy ===== *)
theory GQ_Backoff
  imports GQ_Scheduler
begin

text \<open>
  The retry delay computed by \<open>CalculateBackoff\<close> (\<open>scheduler/scheduler.go\<close>): the
  documented doubling as long as it fits 64 bits, the linear delay, the cap, and what
  happens past the range, where the conversion of the float decides.
\<close>

lemma math_Pow_2:
  assumes "0 \<le> k" and "k \<le> 1000"
  shows "math_Pow (Fin 2) (float_of_int k) = Fin (of_int (2 ^ nat k))"
proof -
  have "float_of_int k = Fin (of_int k)"
    using assms by (simp add: float_of_int_def round64_int_exact)
  moreover have "pow_int (Fin 2) k = Fin (of_int (2 ^ nat k))"
  proof (cases "k = 0")
    case True
    then show ?thesis by (simp add: pow_int_def)
  next
    case False
    have "round64 (of_int 1 * pow2 k) = Fin (of_int 1 * pow2 k)"
      using assms by (intro round64_exact) (simp_all add: abs_of_pos)
    with assms False show ?thesis by (simp add: pow_int_def pow2_def)
  qed
  ultimately show ?thesis by simp
qed

text \<open>The product of the initial delay and a power of two is exact.\<close>

lemma fmul_pow2:
  assumes "0 \<le> m" and "m < 2 ^ 53" and "0 \<le> k" and "k \<le> 900"
  shows "fmul (float_of_int m) (Fin (of_int (2 ^ nat k))) = Fin (of_int (m * 2 ^ nat k))"
proof -
  have m: "float_of_int m = Fin (of_int m)"
    using assms by (simp add: float_of_int_def round64_int_exact)
  have p: "pow2 k = of_int (2 ^ nat k)" using assms(3) by (simp add: pow2_def)
  have "of_int m < pow2 53"
  proof -
    have "of_int m < (of_int (2 ^ 53) :: rat)" using assms(2) by (simp only: of_int_less_iff)
    then show ?thesis by (simp add: pow2_def)
  qed
  then have "of_int m * pow2 k < pow2 53 * pow2 k" by simp
  also have "\<dots> = pow2 (53 + k)" by (simp add: pow2_add)
  also have "\<dots> < pow2 1024" using assms(4) by simp
  finally have lt: "of_int m * pow2 k < pow2 1024" .
  have "0 \<le> of_int m * pow2 k"
    using assms(1) less_imp_le [OF pow2_pos [of k]] by (intro mult_nonneg_nonneg) simp_all
  with lt have "\<bar>of_int m * pow2 k\<bar> < pow2 1024" by simp
  then have "round64 (of_int m * pow2 k) = Fin (of_int m * pow2 k)"
    using assms by (intro round64_exact) simp_all
  then show ?thesis by (simp add: m p)
qed

lemma exponential_product:
  assumes "0 \<le> initial" and "initial < 2 ^ 53" and "1 \<le> n" and "n \<le> 900"
  shows "fmul (float_of_int initial) (math_Pow (Fin 2) (float_of_int (wrap64 (n - 1)))) =
    Fin (of_int (initial * 2 ^ nat (n - 1)))"
proof -
  have "wrap64 (n - 1) = n - 1" using assms by (simp add: int64_range_def)
  then show ?thesis
    using math_Pow_2 [of "n - 1"] fmul_pow2 [of initial "n - 1"] assms by simp
qed

lemma trunc_rat_int [simp]: "trunc_rat (of_int k) = k"
  by (simp add: trunc_rat_def)

text \<open>
  With the default multiplier the delay before retry \<open>n\<close> is the initial delay doubled
  \<open>n - 1\<close> times and capped, for every initial delay below \<open>2^53\<close> ns (104 days), as long as
  the uncapped delay fits a duration: the float arithmetic loses nothing.
\<close>

theorem CalculateBackoff_doubling:
  assumes "0 \<le> initial" and "initial < 2 ^ 53" and "1 \<le> n" and "n \<le> 900"
    and "initial * 2 ^ nat (n - 1) < 2 ^ 63"
  shows "CalculateBackoff cvt n BackoffExponential initial mx (Fin 2) =
    min (initial * 2 ^ nat (n - 1)) mx"
proof -
  have "0 \<le> initial * 2 ^ nat (n - 1)" using assms(1) by simp
  then have "int64_range (initial * 2 ^ nat (n - 1))"
    unfolding int64_range_def using assms(5) by linarith
  then have "int_of_float cvt (Fin (of_int (initial * 2 ^ nat (n - 1)))) = initial * 2 ^ nat (n - 1)"
    unfolding int_of_float.simps trunc_rat_int by simp
  then show ?thesis
    using exponential_product [OF assms(1-4)] by (auto simp: CalculateBackoff_def Let_def min_def)
qed

theorem CalculateBackoff_doubling_witness:
  "CalculateBackoff cvt_amd64 34 BackoffExponential Second (100000 * Hour) (Fin 2) = 100000 * Hour \<and>
   CalculateBackoff cvt_amd64 3 BackoffExponential Second Hour (Fin 2) = 4 * Second"
  by (simp add: CalculateBackoff_doubling)

text \<open>
  C35: past that range the cap does not hold the delay: from the 35th attempt on, a job with
  the default settings (1 s, doubling, at most 1 h) gets the most negative duration on amd64,
  where its retry time lies in the past, and the cap on arm64.
\<close>

theorem CalculateBackoff_overflow:
  assumes "35 \<le> n" and "n \<le> 900"
  shows "CalculateBackoff cvt_amd64 n BackoffExponential Second Hour (Fin 2) = - (2 ^ 63) \<and>
    CalculateBackoff cvt_arm64 n BackoffExponential Second Hour (Fin 2) = Hour"
proof -
  let ?d = "Second * 2 ^ nat (n - 1)"
  have "(2 :: int) ^ 34 \<le> 2 ^ nat (n - 1)" using assms(1) by (intro power_increasing) auto
  then have d: "2 ^ 63 \<le> ?d" by simp
  then have out: "\<not> int64_range ?d" and pos: "0 < ?d" by (simp_all add: int64_range_def)
  have "fmul (float_of_int Second) (math_Pow (Fin 2) (float_of_int (wrap64 (n - 1)))) =
      Fin (of_int ?d)"
    using assms by (intro exponential_product) simp_all
  moreover have "int_of_float cvt (Fin (of_int ?d)) = cvt (Fin (of_int ?d))" for cvt
    unfolding int_of_float.simps trunc_rat_int using out by simp
  moreover have "cvt_arm64 (Fin (of_int ?d)) = 2 ^ 63 - 1"
    unfolding cvt_arm64.simps of_int_less_0_iff using pos by simp
  ultimately show ?thesis
    by (simp add: CalculateBackoff_def cvt_amd64_def)
qed

theorem CalculateBackoff_overflow_witness:
  "CalculateBackoff cvt_amd64 35 BackoffExponential Second Hour (Fin 2) < 0"
  using CalculateBackoff_overflow [of 35] by simp

text \<open>
  The other strategies: a constant delay, or the 64-bit product of the attempt and the
  initial delay, which wraps around; and under every strategy, for every multiplier and
  attempt, the delay is at most the cap.
\<close>

theorem CalculateBackoff_linear_cap:
  "CalculateBackoff cvt n strategy initial mx f \<le> mx \<and>
   CalculateBackoff cvt n BackoffConstant initial mx f = min initial mx \<and>
   CalculateBackoff cvt n BackoffLinear initial mx f = min (wrap64 (n * initial)) mx"
  by (simp add: CalculateBackoff_def Let_def min_def)

end
