(* ===== verification/GQ_Sched_Props.thy ===== *)
theory GQ_Sched_Props
  imports GQ_Scheduler
begin

text \<open>
  Properties of the scheduler over any store that satisfies the contract: what a scheduling
  cycle sends and in which order, what the loops may change in the store, the outcome of
  \<open>Complete\<close>, \<open>Fail\<close>, \<open>Cancel\<close> and \<open>Retry\<close> on every branch, and the life cycle of the
  loops. The witnesses run on the in-memory store.
\<close>

section \<open>What one cycle sends\<close>

definition as_scheduled :: "Job \<Rightarrow> Job" where
  "as_scheduled j = j\<lparr>State := JobStateScheduled\<rparr>"

lemma as_scheduled_simps [simp]:
  "State (as_scheduled j) = JobStateScheduled" "ID (as_scheduled j) = ID j"
  "Priority (as_scheduled j) = Priority j" "CreatedAt (as_scheduled j) = CreatedAt j"
  by (simp_all add: as_scheduled_def)

lemma as_scheduled_id: "State j = JobStateScheduled \<Longrightarrow> as_scheduled j = j"
  by (simp add: as_scheduled_def)

lemma priority_less_as_scheduled [simp]:
  "priority_less (as_scheduled j) k = priority_less j k"
  "priority_less k (as_scheduled j) = priority_less k j"
  by (simp_all add: priority_less_def)

lemma send_jobs_step:
  assumes "is_pending j"
    and "s1 = (if State j = JobStatePending
      then snd (UpdateState ops (clk 0) (ID j) JobStateScheduled s) else s)"
  shows "send_jobs ops cap clk (j # js) s ch =
    (if int (length ch) < cap then send_jobs ops cap (later 1 clk) js s1 (ch @ [as_scheduled j])
     else (False, s1, ch))"
  using assms as_scheduled_id [of j]
  by (auto simp: is_pending_def as_scheduled_def [symmetric] Let_def)

lemma send_jobs_channel:
  assumes "list_all is_pending js" and "int (length ch) \<le> cap"
    and "send_jobs ops cap clk js s ch = (all_sent, s', ch')"
  shows "ch' = ch @ map as_scheduled (take (nat (cap - int (length ch))) js) \<and>
    (all_sent \<longleftrightarrow> int (length ch + length js) \<le> cap)"
  using assms
proof (induction js arbitrary: clk s ch)
  case Nil
  then show ?case by simp
next
  case (Cons j js)
  have "is_pending j" using Cons.prems(1) by simp
  note step = send_jobs_step [OF this refl, of ops cap clk js s ch]
  show ?case
  proof (cases "int (length ch) < cap")
    case True
    then have "nat (cap - int (length ch)) =
        Suc (nat (cap - int (length (ch @ [as_scheduled j]))))"
      by simp
    moreover have "ch' = (ch @ [as_scheduled j]) @
        map as_scheduled (take (nat (cap - int (length (ch @ [as_scheduled j])))) js) \<and>
      (all_sent \<longleftrightarrow> int (length (ch @ [as_scheduled j]) + length js) \<le> cap)"
      using True Cons.prems step by (intro Cons.IH) auto
    ultimately show ?thesis by simp
  next
    case False
    with Cons.prems step show ?thesis by simp
  qed
qed

section \<open>What the loops change in the store\<close>

text \<open>The only change a loop makes to a stored job.\<close>

definition rescheduled :: "Job option \<Rightarrow> Job option \<Rightarrow> bool" where
  "rescheduled a b \<longleftrightarrow> a = b \<or>
     (\<exists>j t. a = Some j \<and> State j \<in> {JobStatePending, JobStateScheduled, JobStateDelayed} \<and>
        b = Some (j\<lparr>State := JobStateScheduled, UpdatedAt := t\<rparr>))"

lemma rescheduled_refl [simp]: "rescheduled a a"
  by (simp add: rescheduled_def)

lemma rescheduled_trans:
  assumes "rescheduled a b" and "rescheduled b c"
  shows "rescheduled a c"
proof (cases "a = b \<or> b = c")
  case True
  with assms show ?thesis by auto
next
  case False
  with assms obtain j t k u where "a = Some j"
    "State j \<in> {JobStatePending, JobStateScheduled, JobStateDelayed}"
    "b = Some (j\<lparr>State := JobStateScheduled, UpdatedAt := t\<rparr>)" "b = Some k"
    "c = Some (k\<lparr>State := JobStateScheduled, UpdatedAt := u\<rparr>)"
    unfolding rescheduled_def by blast
  then show ?thesis unfolding rescheduled_def by auto
qed

lemma rescheduled_None [simp]: "rescheduled None b \<longleftrightarrow> b = None"
  by (auto simp: rescheduled_def)

lemma rescheduled_other:
  "rescheduled (Some j) b \<Longrightarrow>
     State j \<notin> {JobStatePending, JobStateScheduled, JobStateDelayed} \<Longrightarrow> b = Some j"
  by (auto simp: rescheduled_def)

context job_store
begin

definition frame :: "'s \<Rightarrow> 's \<Rightarrow> bool" where
  "frame s s' \<longleftrightarrow> inv s' \<and> (\<forall>k. rescheduled (jobs_of s k) (jobs_of s' k)) \<and>
     results_of s' = results_of s \<and> checkpoints_of s' = checkpoints_of s \<and> idem_of s' = idem_of s"

lemma frame_refl [simp]: "inv s \<Longrightarrow> frame s s"
  by (simp add: frame_def)

lemma frame_trans: "frame s s1 \<Longrightarrow> frame s1 s2 \<Longrightarrow> frame s s2"
  unfolding frame_def by (metis rescheduled_trans)

lemma frame_inv: "frame s s' \<Longrightarrow> inv s'"
  by (simp add: frame_def)

lemma UpdateState_frame:
  assumes "inv s" and "jobs_of s i = Some j"
    and "State j \<in> {JobStatePending, JobStateScheduled, JobStateDelayed}"
  shows "frame s (snd (UpdateState ops t i JobStateScheduled s))"
    and "k \<noteq> i \<Longrightarrow> jobs_of (snd (UpdateState ops t i JobStateScheduled s)) k = jobs_of s k"
proof -
  obtain e s' where u: "UpdateState ops t i JobStateScheduled s = (e, s')"
    by (cases "UpdateState ops t i JobStateScheduled s")
  have "frame s s' \<and> (k \<noteq> i \<longrightarrow> jobs_of s' k = jobs_of s k)"
  proof (cases e)
    case None
    from UpdateState_ok [OF assms(1) u [unfolded None]] assms(2)
    have "inv s'" "jobs_of s' = (jobs_of s)(i \<mapsto> j\<lparr>State := JobStateScheduled, UpdatedAt := t\<rparr>)"
      "results_of s' = results_of s" "checkpoints_of s' = checkpoints_of s" "idem_of s' = idem_of s"
      by auto
    moreover have "rescheduled (Some j) (Some (j\<lparr>State := JobStateScheduled, UpdatedAt := t\<rparr>))"
      using assms(3) unfolding rescheduled_def by blast
    ultimately show ?thesis using assms(2) by (simp add: frame_def)
  next
    case (Some x)
    with u have "UpdateState ops t i JobStateScheduled s = (Some x, s')" by simp
    then have "s' = s" by (rule UpdateState_err [OF assms(1)])
    with assms(1) show ?thesis by simp
  qed
  with u show "frame s (snd (UpdateState ops t i JobStateScheduled s))"
    and "k \<noteq> i \<Longrightarrow> jobs_of (snd (UpdateState ops t i JobStateScheduled s)) k = jobs_of s k"
    by simp_all
qed

text \<open>The store after the step that \<open>send_jobs\<close> takes for one job.\<close>

lemma send_one:
  assumes "inv s" and "jobs_of s (ID j) = Some j" and "is_pending j"
    and "s1 = (if State j = JobStatePending
      then snd (UpdateState ops t (ID j) JobStateScheduled s) else s)"
  shows "frame s s1" and "k \<noteq> ID j \<Longrightarrow> jobs_of s1 k = jobs_of s k"
  using UpdateState_frame(1) [OF assms(1,2), of t] UpdateState_frame(2) [OF assms(1,2), of k t] assms
  by (auto simp: is_pending_def)

lemma send_jobs_frame:
  assumes "inv s" and "distinct (map ID js)"
    and "\<forall>j \<in> set js. jobs_of s (ID j) = Some j \<and> is_pending j"
  shows "frame s (fst (snd (send_jobs ops cap clk js s ch)))"
  using assms
proof (induction js arbitrary: clk s ch)
  case Nil
  then show ?case by simp
next
  case (Cons j js)
  define s1 where "s1 = (if State j = JobStatePending
    then snd (UpdateState ops (clk 0) (ID j) JobStateScheduled s) else s)"
  have j: "jobs_of s (ID j) = Some j" "is_pending j" using Cons.prems(3) by auto
  note one = send_one [OF Cons.prems(1) j s1_def]
  have "\<forall>k \<in> set js. jobs_of s1 (ID k) = Some k \<and> is_pending k"
    using Cons.prems(2,3) one(2) by (auto simp: image_iff)
  then have rec: "frame s1 (fst (snd (send_jobs ops cap (later 1 clk) js s1 ch')))" for ch'
    using frame_inv [OF one(1)] Cons.prems(2) by (intro Cons.IH) simp_all
  have "\<exists>ch'. fst (snd (send_jobs ops cap clk (j # js) s ch)) \<in>
      {s1, fst (snd (send_jobs ops cap (later 1 clk) js s1 ch'))}"
    by (auto simp: s1_def Let_def)
  with rec one(1) show ?case by (auto intro: frame_trans)
qed

lemma mark_scheduled_frame:
  assumes "inv s" and "distinct (map ID js)"
    and "\<forall>j \<in> set js. jobs_of s (ID j) = Some j \<and> State j = JobStateDelayed"
  shows "frame s (mark_scheduled ops clk js s)"
  using assms
proof (induction js arbitrary: clk s)
  case Nil
  then show ?case by simp
next
  case (Cons j js)
  define s1 where "s1 = snd (UpdateState ops (clk 0) (ID j) JobStateScheduled s)"
  have j: "jobs_of s (ID j) = Some j" "State j = JobStateDelayed" using Cons.prems(3) by auto
  have one: "frame s s1" "\<And>k. k \<noteq> ID j \<Longrightarrow> jobs_of s1 k = jobs_of s k"
    using UpdateState_frame(1) [OF Cons.prems(1) j(1), of "clk 0"]
      UpdateState_frame(2) [OF Cons.prems(1) j(1), of _ "clk 0"] j(2) by (auto simp: s1_def)
  have "\<forall>k \<in> set js. jobs_of s1 (ID k) = Some k \<and> State k = JobStateDelayed"
    using Cons.prems(2,3) one(2) by (auto simp: image_iff)
  then have "frame s1 (mark_scheduled ops (later 1 clk) js s1)"
    using frame_inv [OF one(1)] Cons.prems(2) by (intro Cons.IH) simp_all
  with one(1) show ?case by (auto simp: s1_def intro: frame_trans)
qed

end

section \<open>Cycles\<close>

text \<open>What the loops run on: a store and a sorting function.\<close>

locale scheduling = job_store ops inv storable jobs_of results_of checkpoints_of idem_of +
    go_sort sort_slice
  for ops :: "'s JobStore" and inv storable jobs_of results_of checkpoints_of idem_of sort_slice
begin

text \<open>The jobs a cycle works on: those \<open>GetPending\<close> returned, sorted.\<close>

lemma pending_sorted:
  assumes "inv s"
  obtains js where "GetPending ops limit s = Inr js"
    "distinct (map ID (sort_slice priority_less js))"
    "\<forall>j \<in> set (sort_slice priority_less js). jobs_of s (ID j) = Some j \<and> is_pending j"
    "ordered_by priority_less (sort_slice priority_less js)"
proof -
  from GetPending [OF assms, of limit] obtain js where js: "GetPending ops limit s = Inr js"
    "distinct (map ID js)" "\<forall>j \<in> set js. jobs_of s (ID j) = Some j \<and> is_pending j"
    by blast
  show ?thesis
    by (rule that [OF js(1)]) (use js in \<open>simp_all add: sort_distinct sort_ordered\<close>)
qed

lemma scheduleJobs_unfold:
  assumes "GetPending ops (BatchSize (sch_config sched)) (sch_store sched) = Inr js"
  shows "sch_store (scheduleJobs ops sort_slice clk sched) =
      fst (snd (send_jobs ops (BatchSize (sch_config sched)) (later 1 clk)
        (sort_slice priority_less js) (sch_store sched) (jobCh sched)))"
    and "jobCh (scheduleJobs ops sort_slice clk sched) =
      snd (snd (send_jobs ops (BatchSize (sch_config sched)) (later 1 clk)
        (sort_slice priority_less js) (sch_store sched) (jobCh sched)))"
  using assms by (simp_all add: scheduleJobs_def Let_def split: prod.split)

lemma scheduleJobs_frame:
  assumes "inv (sch_store sched)"
  shows "frame (sch_store sched) (sch_store (scheduleJobs ops sort_slice clk sched))"
proof -
  obtain js where js: "GetPending ops (BatchSize (sch_config sched)) (sch_store sched) = Inr js"
    and ok: "distinct (map ID (sort_slice priority_less js))"
      "\<forall>j \<in> set (sort_slice priority_less js).
         jobs_of (sch_store sched) (ID j) = Some j \<and> is_pending j"
    using pending_sorted [OF assms] by metis
  show ?thesis unfolding scheduleJobs_unfold(1) [OF js] by (rule send_jobs_frame [OF assms ok])
qed

lemma processDelayedJobs_frame:
  assumes "inv (sch_store sched)"
  shows "frame (sch_store sched) (sch_store (processDelayedJobs ops clk sched))"
proof -
  let ?s = "sch_store sched"
  from GetDelayed [OF assms, of "clk 0" "BatchSize (sch_config sched)"] obtain js
    where "GetDelayed ops (clk 0) (BatchSize (sch_config sched)) ?s = Inr js"
      and "distinct (map ID js)"
      and "\<forall>j \<in> set js. jobs_of ?s (ID j) = Some j \<and> State j = JobStateDelayed"
    by blast
  with mark_scheduled_frame [OF assms] show ?thesis by (simp add: processDelayedJobs_def)
qed

lemma scheduleJobs_sent:
  assumes "inv (sch_store sched)" and "int (length (jobCh sched)) \<le> BatchSize (sch_config sched)"
    and "GetPending ops (BatchSize (sch_config sched)) (sch_store sched) = Inr js"
  shows "jobCh (scheduleJobs ops sort_slice clk sched) = jobCh sched @ map as_scheduled
    (take (nat (BatchSize (sch_config sched) - int (length (jobCh sched))))
      (sort_slice priority_less js))"
proof -
  obtain js' where "GetPending ops (BatchSize (sch_config sched)) (sch_store sched) = Inr js'"
    and "\<forall>j \<in> set (sort_slice priority_less js').
         jobs_of (sch_store sched) (ID j) = Some j \<and> is_pending j"
    using pending_sorted [OF assms(1)] by metis
  with assms(3) have "list_all is_pending (sort_slice priority_less js)" by (simp add: list_all_iff)
  from send_jobs_channel [OF this assms(2)] show ?thesis
    unfolding scheduleJobs_unfold(2) [OF assms(3)] by (metis prod.collapse)
qed

end

interpretation mem_sched: scheduling "memory_store (\<lambda>m. m)" mem_inv "\<lambda>_ _. True" mem_jobs_of
  "\<lambda>m. map_of (mem_results m)" "\<lambda>m. map_of (mem_checkpoints m)" "\<lambda>m. map_of (mem_idempotency m)"
  insertion_sort
  by unfold_locales

text \<open>A scheduler over the in-memory store, as \<open>NewPriorityScheduler\<close> makes it.\<close>

definition example_sched :: "Job list \<Rightarrow> MemoryStore PriorityScheduler" where
  "example_sched js = (case NewPriorityScheduler (example_store js) None of
     Returns sched \<Rightarrow> sched | Panics s \<Rightarrow> undefined)"

lemma example_sched_simps [simp]:
  "sch_store (example_sched js) = example_store js" "jobCh (example_sched js) = []"
  "sch_config (example_sched js) = DefaultSchedulerConfig" "failed (example_sched js) = 0"
  "completed (example_sched js) = 0"
  by (simp_all add: example_sched_def NewPriorityScheduler_def DefaultSchedulerConfig_def)

lemma example_store_jobs [simp]: "mem_jobs (example_store js) = map (\<lambda>j. (ID j, j)) js"
  by (simp add: example_store_def)



section \<open>The steps of the running scheduler\<close>

text \<open>
  What happens without a client: a tick of either loop, a worker taking a job from the
  channel, starting and stopping. A loop ends when the stop channel is closed or when its
  context is done, which the environment decides (\<open>ctx_done\<close>).
\<close>

inductive sched_step ::
    "'s JobStore \<Rightarrow> sorter \<Rightarrow> 's PriorityScheduler \<Rightarrow> 's PriorityScheduler \<Rightarrow> bool"
  for ops sort_slice where
  schedule_tick: "0 < schedule_loops sched \<Longrightarrow>
     sched_step ops sort_slice sched (scheduleJobs ops sort_slice clk sched)"
| delayed_tick: "0 < delayed_loops sched \<Longrightarrow>
     sched_step ops sort_slice sched (processDelayedJobs ops clk sched)"
| take: "GetNextJob ctx_err pick_job sched = (r, sched') \<Longrightarrow> sched_step ops sort_slice sched sched'"
| start: "sched_Start sched = (e, sched') \<Longrightarrow> sched_step ops sort_slice sched sched'"
| stop: "sched_Stop sched = Returns (e, sched') \<Longrightarrow> sched_step ops sort_slice sched sched'"
| schedule_exit: "0 < schedule_loops sched \<Longrightarrow> ctx_done \<or> stopCh_closed sched \<Longrightarrow>
     sched_step ops sort_slice sched (sched\<lparr>schedule_loops := schedule_loops sched - 1\<rparr>)"
| delayed_exit: "0 < delayed_loops sched \<Longrightarrow> ctx_done \<or> stopCh_closed sched \<Longrightarrow>
     sched_step ops sort_slice sched (sched\<lparr>delayed_loops := delayed_loops sched - 1\<rparr>)"

inductive sched_steps ::
    "'s JobStore \<Rightarrow> sorter \<Rightarrow> 's PriorityScheduler \<Rightarrow> 's PriorityScheduler \<Rightarrow> bool"
  for ops sort_slice where
  sched_refl: "sched_steps ops sort_slice sched sched"
| sched_more: "sched_steps ops sort_slice sched sched1 \<Longrightarrow> sched_step ops sort_slice sched1 sched2 \<Longrightarrow>
     sched_steps ops sort_slice sched sched2"

lemma GetNextJob_store:
  "GetNextJob ctx_err pick_job sched = (r, sched') \<Longrightarrow>
     sch_store sched' = sch_store sched \<and> set (jobCh sched') \<subseteq> set (jobCh sched)"
  by (auto simp: GetNextJob_def split: option.splits list.splits if_splits)

lemma sched_Start_store:
  "sched_Start sched = (e, sched') \<Longrightarrow> sch_store sched' = sch_store sched \<and> jobCh sched' = jobCh sched"
  by (auto simp: sched_Start_def split: if_splits)

lemma sched_Stop_store:
  "sched_Stop sched = Returns (e, sched') \<Longrightarrow>
     sch_store sched' = sch_store sched \<and> jobCh sched' = jobCh sched"
  by (auto simp: sched_Stop_def split: if_splits)

context scheduling
begin

lemma send_jobs_IDs:
  "set (map ID (snd (snd (send_jobs ops cap clk js s ch)))) \<subseteq> set (map ID ch) \<union> ID ` set js"
proof (induction js arbitrary: clk s ch)
  case Nil
  then show ?case by simp
next
  case (Cons j js)
  show ?case
  proof (cases "int (length ch) < cap")
    case False
    then show ?thesis by (auto simp: Let_def)
  next
    case True
    let ?p = "if State j = JobStatePending
      then (j\<lparr>State := JobStateScheduled\<rparr>, snd (UpdateState ops (clk 0) (ID j) JobStateScheduled s))
      else (j, s)"
    have eq: "send_jobs ops cap clk (j # js) s ch =
        send_jobs ops cap (later 1 clk) js (snd ?p) (ch @ [fst ?p])"
      using True by (simp add: Let_def)
    have "ID (fst ?p) = ID j" by simp
    then show ?thesis
      unfolding eq by (intro subset_trans [OF Cons.IH]) auto
  qed
qed

lemma scheduleJobs_IDs:
  assumes "inv (sch_store sched)" and "jobs_of (sch_store sched) i = Some j" and "\<not> is_pending j"
    and "i \<notin> ID ` set (jobCh sched)"
  shows "i \<notin> ID ` set (jobCh (scheduleJobs ops sort_slice clk sched))"
proof -
  obtain js where js: "GetPending ops (BatchSize (sch_config sched)) (sch_store sched) = Inr js"
    and ok: "\<forall>j \<in> set (sort_slice priority_less js).
         jobs_of (sch_store sched) (ID j) = Some j \<and> is_pending j"
    using pending_sorted [OF assms(1)] by metis
  have "i \<notin> ID ` set (sort_slice priority_less js)" using ok assms(2,3) by auto
  then show ?thesis
    unfolding scheduleJobs_unfold(2) [OF js] using send_jobs_IDs assms(4) by fastforce
qed

text \<open>A job the loops do not work on stays as it is, and out of the channel.\<close>

lemma sched_step_inactive:
  assumes "sched_step ops sort_slice sched sched'"
    and "inv (sch_store sched)" and "jobs_of (sch_store sched) i = Some j"
    and "State j \<notin> {JobStatePending, JobStateScheduled, JobStateDelayed}"
    and "i \<notin> ID ` set (jobCh sched)"
  shows "inv (sch_store sched') \<and> jobs_of (sch_store sched') i = Some j \<and>
    i \<notin> ID ` set (jobCh sched')"
proof -
  have stays: "inv s' \<and> jobs_of s' i = Some j" if "frame (sch_store sched) s'" for s'
    using that assms(3) rescheduled_other [OF _ assms(4)] unfolding frame_def by metis
  have idle: "\<not> is_pending j" using assms(4) by (auto simp: is_pending_def)
  from assms(1) show ?thesis
  proof cases
    case (schedule_tick clk)
    with stays [OF scheduleJobs_frame [OF assms(2)]] scheduleJobs_IDs [OF assms(2,3) idle assms(5)]
    show ?thesis by simp
  next
    case (delayed_tick clk)
    have "jobCh (processDelayedJobs ops clk sched) = jobCh sched"
      by (simp add: processDelayedJobs_def split: sum.split)
    with delayed_tick stays [OF processDelayedJobs_frame [OF assms(2)]] assms(5)
    show ?thesis by simp
  next
    case (take ctx_err pick_job r)
    from GetNextJob_store [OF take] assms show ?thesis by auto
  next
    case (start e)
    from sched_Start_store [OF start] assms show ?thesis by simp
  next
    case (stop e)
    from sched_Stop_store [OF stop] assms show ?thesis by simp
  qed (use assms in simp_all)
qed

lemma sched_steps_inactive:
  assumes "sched_steps ops sort_slice sched sched'"
    and "inv (sch_store sched)" and "jobs_of (sch_store sched) i = Some j"
    and "State j \<notin> {JobStatePending, JobStateScheduled, JobStateDelayed}"
    and "i \<notin> ID ` set (jobCh sched)"
  shows "inv (sch_store sched') \<and> jobs_of (sch_store sched') i = Some j \<and>
    i \<notin> ID ` set (jobCh sched')"
  using assms
proof (induction rule: sched_steps.induct)
  case (sched_refl sched)
  then show ?case by simp
next
  case (sched_more sched sched1 sched2)
  then show ?case using sched_step_inactive [OF sched_more.hyps(2), of i j] by blast
qed

end

text \<open>
  C26: whatever the running scheduler does, for however long, a job that waits for its retry is
  never handed to a worker and never leaves the retrying state: no tick of either loop looks
  at it, at its retry time or after. The same holds for running and finished jobs.
\<close>

theorem loops_ignore_retrying:
  assumes "scheduling ops sinv storable jobs_of results_of checkpoints_of idem_of sort_slice"
    and "sinv (sch_store sched)" and "jobs_of (sch_store sched) i = Some j"
    and "State j \<notin> {JobStatePending, JobStateScheduled, JobStateDelayed}"
    and "i \<notin> ID ` set (jobCh sched)"
    and "sched_steps ops sort_slice sched sched'"
  shows "jobs_of (sch_store sched') i = Some j \<and> i \<notin> ID ` set (jobCh sched')"
  using scheduling.sched_steps_inactive [OF assms(1,6,2-5)] by blast


theorem loops_ignore_retrying_witness:
  "let j = example_job 1 JobStateRetrying 0;
     started = snd (sched_Start (example_sched [j]));
     ticked = processDelayedJobs (memory_store (\<lambda>m. m)) (\<lambda>_. 1000)
       (scheduleJobs (memory_store (\<lambda>m. m)) insertion_sort (\<lambda>_. 999) started)
   in mem_jobs_of (sch_store ticked) 1 = Some j \<and> 1 \<notin> ID ` set (jobCh ticked)"
proof -
  let ?ops = "memory_store (\<lambda>m. m)" and ?j = "example_job 1 JobStateRetrying 0"
  let ?sched = "example_sched [?j]"
  let ?started = "snd (sched_Start ?sched)"
  let ?once = "scheduleJobs ?ops insertion_sort (\<lambda>_. 999) ?started"
  have loops: "0 < schedule_loops ?started" "0 < delayed_loops ?once"
    by (simp_all add: sched_Start_def example_sched_def NewPriorityScheduler_def scheduleJobs_def
        DefaultSchedulerConfig_def Let_def split: sum.split prod.split)
  have "sched_steps ?ops insertion_sort ?sched (processDelayedJobs ?ops (\<lambda>_. 1000) ?once)"
    by (rule sched_more [OF sched_more [OF sched_more [OF sched_refl
          start [OF prod.collapse [symmetric]]] schedule_tick [OF loops(1)]] delayed_tick [OF loops(2)]])
  then show ?thesis
    unfolding Let_def
    by (rule loops_ignore_retrying [OF mem_sched.scheduling_axioms, rotated -1])
      (simp_all add: mem_jobs_of_def)
qed

section \<open>Transitions requested by workers and clients\<close>

context job_store
begin

lemma Update_None:
  assumes "inv s" and "Update ops t j s = (j', None, s')"
  shows "inv s' \<and> jobs_of s' = (jobs_of s)(ID j \<mapsto> j\<lparr>UpdatedAt := t\<rparr>) \<and>
    results_of s' = results_of s"
  using Update_ok [OF assms] by auto

lemma Complete_ok:
  assumes "inv (sch_store sched)" and "Complete ops clk i r sched = (None, sched')"
  shows "inv (sch_store sched') \<and>
    results_of (sch_store sched') = (results_of (sch_store sched))(JobID r \<mapsto> r) \<and>
    (\<exists>j. jobs_of (sch_store sched) i = Some j \<and> jobs_of (sch_store sched') =
       (jobs_of (sch_store sched))(i \<mapsto>
          j\<lparr>State := JobStateCompleted, CompletedAt := clk 0, UpdatedAt := clk 1\<rparr>))"
proof -
  from assms(2) obtain j j' s1 where get: "Get ops i (sch_store sched) = Inr j"
    and upd: "Update ops (clk 1) (j\<lparr>State := JobStateCompleted, CompletedAt := clk 0,
      UpdatedAt := clk 0\<rparr>) (sch_store sched) = (j', None, s1)"
    and save: "SaveResult ops r s1 = (None, sch_store sched')"
    by (auto simp: Complete_def Let_def split: sum.splits prod.splits option.splits)
  have j: "jobs_of (sch_store sched) i = Some j" using get Get_Some [OF assms(1)] by simp
  have "ID j = i" using jobs_ID [OF assms(1) j] .
  with Update_None [OF assms(1) upd] SaveResult_ok [OF _ save] j show ?thesis by auto
qed

lemma Complete_failed:
  assumes "inv (sch_store sched)" and "Complete ops clk i r sched = (Some e, sched')"
  shows "inv (sch_store sched') \<and> results_of (sch_store sched') = results_of (sch_store sched) \<and>
    (jobs_of (sch_store sched') = jobs_of (sch_store sched) \<or>
     (\<exists>j. jobs_of (sch_store sched) i = Some j \<and> jobs_of (sch_store sched') =
       (jobs_of (sch_store sched))(i \<mapsto>
          j\<lparr>State := JobStateCompleted, CompletedAt := clk 0, UpdatedAt := clk 1\<rparr>)))"
proof (cases "Get ops i (sch_store sched)")
  case (Inl x)
  with assms show ?thesis by (auto simp: Complete_def)
next
  case (Inr j)
  let ?j = "j\<lparr>State := JobStateCompleted, CompletedAt := clk 0, UpdatedAt := clk 0\<rparr>"
  obtain j' e1 s1 where upd: "Update ops (clk 1) ?j (sch_store sched) = (j', e1, s1)"
    by (cases "Update ops (clk 1) ?j (sch_store sched)") auto
  have j: "jobs_of (sch_store sched) i = Some j" using Inr Get_Some [OF assms(1)] by simp
  have i: "ID ?j = i" using jobs_ID [OF assms(1) j] by simp
  from assms(1) upd show ?thesis
  proof (cases rule: Update_cases)
    case ok
    with assms(2) Inr upd have "SaveResult ops r s1 = (Some e, sch_store sched')"
      by (auto simp: Complete_def Let_def split: prod.splits)
    from SaveResult_err [OF ok(2) this] ok i j show ?thesis by auto
  next
    case (err x)
    with assms Inr upd show ?thesis by (auto simp: Complete_def Let_def)
  qed
qed

end

text \<open>
  Completing a job over any store that satisfies the contract. When it succeeds, the job is
  stored as completed with a completion time and the result is stored; when it fails, no
  result is stored, and either no job has changed or, when only the result could not be
  written, the job is completed all the same. Nothing else changes.
\<close>

theorem Complete_outcome:
  assumes "job_store ops sinv storable jobs_of results_of checkpoints_of idem_of"
    and "sinv (sch_store sched)" and "Complete ops clk i r sched = (err, sched')"
    and "completed_job = (\<lambda>j. j\<lparr>State := JobStateCompleted, CompletedAt := clk 0,
      UpdatedAt := clk 1\<rparr>)"
  shows "(\<exists>j. jobs_of (sch_store sched) i = Some j \<and>
       jobs_of (sch_store sched') = (jobs_of (sch_store sched))(i \<mapsto> completed_job j) \<and>
       results_of (sch_store sched') =
         (if err = None then (results_of (sch_store sched))(JobID r \<mapsto> r)
          else results_of (sch_store sched))) \<or>
    (err \<noteq> None \<and> jobs_of (sch_store sched') = jobs_of (sch_store sched) \<and>
     results_of (sch_store sched') = results_of (sch_store sched))"
  using job_store.Complete_ok [OF assms(1,2), of clk i r sched']
    job_store.Complete_failed [OF assms(1,2), of clk i r _ sched'] assms(3)
  by (cases err) (auto simp: assms(4))

theorem Complete_outcome_witness:
  "let sched = example_sched [example_job 1 JobStateRunning 0];
     r = zero_JobResult\<lparr>JobID := 1, Success := True\<rparr>
   in \<exists>sched'. Complete (memory_store (\<lambda>m. m)) (\<lambda>_. 50) 1 r sched = (None, sched') \<and>
     map_of (mem_results (sch_store sched')) 1 = Some r"
proof -
  let ?ops = "memory_store (\<lambda>m. m)" and ?r = "zero_JobResult\<lparr>JobID := 1, Success := True\<rparr>"
  let ?sched = "example_sched [example_job 1 JobStateRunning 0]"
  obtain err sched' where c: "Complete ?ops (\<lambda>_. 50) 1 ?r ?sched = (err, sched')"
    by (cases "Complete ?ops (\<lambda>_. 50) 1 ?r ?sched")
  have "err = None"
    using c by (auto simp: Complete_def example_store_def mem_Get_def mem_Update_def
        mem_SaveResult_def Let_def)
  with Complete_outcome [OF mem.job_store_axioms _ c refl] c show ?thesis by auto
qed


text \<open>The job that \<open>Fail\<close> writes.\<close>

definition failed_job ::
    "(float64 \<Rightarrow> int) \<Rightarrow> clock \<Rightarrow> JobResult \<Rightarrow> Job \<Rightarrow> Job" where
  "failed_job cvt clk r j =
     (if ResultCategory r = ErrorCategoryTemporary \<and> Attempt j < MaxAttempts j
      then j\<lparr>State := JobStateRetrying, ScheduledAt := clk 0 + CalculateBackoff cvt (Attempt j)
             (BackoffStrategy j) (BackoffInitial j) (BackoffMax j) (BackoffMultiplier j)\<rparr>
      else j\<lparr>State := (if Attempt j < MaxAttempts j then JobStateFailed else JobStateDeadLetter),
             CompletedAt := clk 0\<rparr>)
     \<lparr>LastError := ResultError r,
      ErrorCategory := (if ResultCategory r = ErrorCategoryNone then ''system''
        else string_of_category (ResultCategory r)), UpdatedAt := clk 2\<rparr>"

context job_store
begin

lemma Fail_cases:
  assumes "inv (sch_store sched)" and "jobs_of (sch_store sched) i = Some j"
    and "Fail ops cvt clk i r sched = (err, sched')"
  obtains (not_saved) "err \<noteq> None" "sch_store sched' = sch_store sched"
    | (not_updated) "err \<noteq> None" "inv (sch_store sched')"
        "jobs_of (sch_store sched') = jobs_of (sch_store sched)"
        "results_of (sch_store sched') = (results_of (sch_store sched))(JobID r \<mapsto> r)"
    | (ok) "err = None" "inv (sch_store sched')"
        "jobs_of (sch_store sched') = (jobs_of (sch_store sched))(i \<mapsto> failed_job cvt clk r j)"
        "results_of (sch_store sched') = (results_of (sch_store sched))(JobID r \<mapsto> r)"
proof -
  have get: "Get ops i (sch_store sched) = Inr j" using Get_Some [OF assms(1)] assms(2) by simp
  obtain e1 s1 where save: "SaveResult ops r (sch_store sched) = (e1, s1)"
    by (cases "SaveResult ops r (sch_store sched)")
  show ?thesis
  proof (cases e1)
    case (Some x)
    with SaveResult_err [OF assms(1)] save have "s1 = sch_store sched" by auto
    with Some save get assms(3) show ?thesis by (intro not_saved) (auto simp: Fail_def Let_def)
  next
    case None
    note saved = SaveResult_ok [OF assms(1) save [unfolded None]]
    define j1 where "j1 = (failed_job cvt clk r j)\<lparr>UpdatedAt := clk 1\<rparr>"
    obtain j2 e2 s2 where upd: "Update ops (clk 2) j1 s1 = (j2, e2, s2)"
      by (cases "Update ops (clk 2) j1 s1") auto
    have fail: "Fail ops cvt clk i r sched =
        (e2, sched\<lparr>failed := wrap64 (failed sched + 1), sch_store := s2\<rparr>)"
      using get save None upd by (auto simp: Fail_def Let_def j1_def failed_job_def)
    have i: "ID j1 = i" using jobs_ID [OF assms(1,2)] by (simp add: j1_def failed_job_def)
    have inv1: "inv s1" using saved by simp
    from inv1 upd show ?thesis
    proof (cases rule: Update_cases)
      case ok
      then show ?thesis
        using fail saved assms(3) i by (intro that(3)) (auto simp: j1_def failed_job_def)
    next
      case (err x)
      then show ?thesis using fail saved assms(3) by (intro not_updated) auto
    qed
  qed
qed

end

text \<open>
  C13: failing a job over any store that satisfies the contract, on every branch. The job is
  retried exactly when the error is temporary and attempts are left, after the backoff delay;
  otherwise it ends as failed while attempts are left and as a dead letter when they are used
  up, whatever the error; the attempts are not touched. When \<open>Fail\<close> reports an error of the
  store the job is as it was.
\<close>

theorem Fail_outcome:
  assumes "job_store ops sinv storable jobs_of results_of checkpoints_of idem_of"
    and "sinv (sch_store sched)" and "jobs_of (sch_store sched) i = Some j"
    and "Fail ops cvt clk i r sched = (err, sched')"
    and "retry = (ResultCategory r = ErrorCategoryTemporary \<and> Attempt j < MaxAttempts j)"
    and "delay = CalculateBackoff cvt (Attempt j) (BackoffStrategy j) (BackoffInitial j)
      (BackoffMax j) (BackoffMultiplier j)"
  shows "(err \<noteq> None \<and> jobs_of (sch_store sched') = jobs_of (sch_store sched)) \<or>
    (\<exists>j'. err = None \<and> jobs_of (sch_store sched') = (jobs_of (sch_store sched))(i \<mapsto> j') \<and>
       results_of (sch_store sched') = (results_of (sch_store sched))(JobID r \<mapsto> r) \<and>
       State j' = (if retry then JobStateRetrying
                   else if Attempt j < MaxAttempts j then JobStateFailed else JobStateDeadLetter) \<and>
       ScheduledAt j' = (if retry then clk 0 + delay else ScheduledAt j) \<and>
       CompletedAt j' = (if retry then CompletedAt j else clk 0) \<and>
       LastError j' = ResultError r \<and> Attempt j' = Attempt j \<and> IsTerminal j' = (\<not> retry))"
  using assms(2-4)
proof (rule job_store.Fail_cases [OF assms(1)])
  let ?j = "failed_job cvt clk r j"
  assume "err = None"
    and "jobs_of (sch_store sched') = (jobs_of (sch_store sched))(i \<mapsto> ?j)"
    and "results_of (sch_store sched') = (results_of (sch_store sched))(JobID r \<mapsto> r)"
  moreover have "State ?j = (if retry then JobStateRetrying
                   else if Attempt j < MaxAttempts j then JobStateFailed else JobStateDeadLetter) \<and>
       ScheduledAt ?j = (if retry then clk 0 + delay else ScheduledAt j) \<and>
       CompletedAt ?j = (if retry then CompletedAt j else clk 0) \<and>
       LastError ?j = ResultError r \<and> Attempt ?j = Attempt j \<and> IsTerminal ?j = (\<not> retry)"
    by (simp add: failed_job_def assms(5,6) IsTerminal_def)
  ultimately show ?thesis by blast
qed simp_all


lemma mem_Fail_ok:
  assumes "map_of (mem_jobs (sch_store sched)) i = Some j" and "ID j = i"
  shows "\<exists>sched'. Fail (memory_store ord) cvt clk i r sched = (None, sched')"
  using assms by (auto simp: Fail_def mem_Get_def mem_SaveResult_def mem_Update_def Let_def
      split: prod.split if_splits)

theorem Fail_outcome_witness:
  "let j = (example_job 1 JobStateRunning 0)\<lparr>Attempt := 3\<rparr>;
     r = zero_JobResult\<lparr>JobID := 1, ResultCategory := ErrorCategoryTemporary\<rparr>
   in \<exists>sched' j'. Fail (memory_store (\<lambda>m. m)) cvt_amd64 (\<lambda>_. 50) 1 r (example_sched [j]) = (None, sched') \<and>
     mem_jobs_of (sch_store sched') 1 = Some j' \<and> State j' = JobStateDeadLetter"
proof -
  let ?ops = "memory_store (\<lambda>m. m)" and ?j = "(example_job 1 JobStateRunning 0)\<lparr>Attempt := 3\<rparr>"
  let ?r = "zero_JobResult\<lparr>JobID := 1, ResultCategory := ErrorCategoryTemporary\<rparr>"
  let ?sched = "example_sched [?j]"
  have ex: "\<exists>sched'. Fail ?ops cvt_amd64 (\<lambda>_. 50) 1 ?r ?sched = (None, sched')"
    by (rule mem_Fail_ok [where j = ?j]) simp_all
  then obtain sched' where f: "Fail ?ops cvt_amd64 (\<lambda>_. 50) 1 ?r ?sched = (None, sched')" ..
  have inv: "mem_inv (sch_store ?sched)" and job: "mem_jobs_of (sch_store ?sched) 1 = Some ?j"
    by (simp_all add: mem_jobs_of_def)
  from Fail_outcome [OF mem.job_store_axioms inv job f refl refl]
  obtain j' where "mem_jobs_of (sch_store sched') = (mem_jobs_of (sch_store ?sched))(1 \<mapsto> j')"
    "State j' = JobStateDeadLetter"
    by auto
  then show ?thesis using f by (auto simp: Let_def)
qed

context job_store
begin

lemma Cancel_effect:
  assumes "inv (sch_store sched)" and "jobs_of (sch_store sched) i = Some j"
    and "Cancel ops clk i reason force sched = (err, sched')"
  shows "inv (sch_store sched')"
    and "IsTerminal j \<Longrightarrow> err = Some ErrJobNotCancellable \<and> sched' = sched"
    and "State j = JobStateRunning \<Longrightarrow> \<not> force \<Longrightarrow> err = None \<and> sched' = sched"
    and "\<not> IsTerminal j \<Longrightarrow> State j \<noteq> JobStateRunning \<or> force \<Longrightarrow>
      (err \<noteq> None \<and> jobs_of (sch_store sched') = jobs_of (sch_store sched)) \<or>
      (err = None \<and> jobs_of (sch_store sched') = (jobs_of (sch_store sched))
        (i \<mapsto> j\<lparr>State := JobStateCancelled, CompletedAt := clk 0, LastError := reason,
              UpdatedAt := clk 1\<rparr>))"
proof -
  have get: "Get ops i (sch_store sched) = Inr j" using Get_Some [OF assms(1)] assms(2) by simp
  let ?j = "j\<lparr>State := JobStateCancelled, CompletedAt := clk 0, UpdatedAt := clk 0, LastError := reason\<rparr>"
  obtain j2 e2 s2 where upd: "Update ops (clk 1) ?j (sch_store sched) = (j2, e2, s2)"
    by (cases "Update ops (clk 1) ?j (sch_store sched)") auto
  have cancel: "Cancel ops clk i reason force sched =
      (if IsTerminal j then (Some ErrJobNotCancellable, sched)
       else if State j = JobStateRunning \<and> \<not> force then (None, sched)
       else (e2, sched\<lparr>sch_store := s2\<rparr>))"
    using get upd by (auto simp: Cancel_def IsTerminal_def Let_def)
  have i: "ID ?j = i" using jobs_ID [OF assms(1,2)] by simp
  have inv2: "inv s2" using Update_inv [OF assms(1) upd] .
  show "inv (sch_store sched')" using assms cancel inv2 by (auto split: if_splits)
  show "err = Some ErrJobNotCancellable \<and> sched' = sched" if "IsTerminal j"
    using that assms(3) cancel by simp
  show "err = None \<and> sched' = sched" if "State j = JobStateRunning" "\<not> force"
    using that assms(3) cancel by (auto simp: IsTerminal_def)
  show "(err \<noteq> None \<and> jobs_of (sch_store sched') = jobs_of (sch_store sched)) \<or>
      (err = None \<and> jobs_of (sch_store sched') = (jobs_of (sch_store sched))
        (i \<mapsto> j\<lparr>State := JobStateCancelled, CompletedAt := clk 0, LastError := reason,
              UpdatedAt := clk 1\<rparr>))"
    if "\<not> IsTerminal j" "State j \<noteq> JobStateRunning \<or> force"
  proof -
    have eq: "err = e2" "sch_store sched' = s2" using that assms(3) cancel by auto
    from assms(1) upd show ?thesis
    proof (cases rule: Update_cases)
      case ok
      then show ?thesis using eq i by auto
    next
      case (err x)
      then show ?thesis using eq by simp
    qed
  qed
qed

end

text \<open>
  Cancelling: a finished job is never changed and the call reports that it cannot be
  cancelled; a running job is cancelled only with \<open>force\<close>, and without it the call reports
  success and changes nothing; any other job ends as cancelled with the reason and a
  completion time, unless the store refuses, and then no job has changed.
\<close>

theorem Cancel_outcome:
  assumes "job_store ops sinv storable jobs_of results_of checkpoints_of idem_of"
    and "sinv (sch_store sched)" and "jobs_of (sch_store sched) i = Some j"
    and "Cancel ops clk i reason force sched = (err, sched')"
  shows "if IsTerminal j then err = Some ErrJobNotCancellable \<and> sched' = sched
    else if State j = JobStateRunning \<and> \<not> force then err = None \<and> sched' = sched
    else (err \<noteq> None \<and> jobs_of (sch_store sched') = jobs_of (sch_store sched)) \<or>
      (err = None \<and> (\<exists>j'. jobs_of (sch_store sched') = (jobs_of (sch_store sched))(i \<mapsto> j') \<and>
         State j' = JobStateCancelled \<and> CompletedAt j' = clk 0 \<and> LastError j' = reason))"
  using job_store.Cancel_effect [OF assms] by auto

theorem Cancel_outcome_witness:
  "Cancel (memory_store (\<lambda>m. m)) (\<lambda>_. 5) 1 ''stop'' False (example_sched [example_job 1 JobStateRunning 0]) =
     (None, example_sched [example_job 1 JobStateRunning 0])"
proof -
  let ?sched = "example_sched [example_job 1 JobStateRunning 0]"
  obtain err sched' where c: "Cancel (memory_store (\<lambda>m. m)) (\<lambda>_. 5) 1 ''stop'' False ?sched = (err, sched')"
    by (cases "Cancel (memory_store (\<lambda>m. m)) (\<lambda>_. 5) 1 ''stop'' False ?sched")
  have inv: "mem_inv (sch_store ?sched)"
    and job: "mem_jobs_of (sch_store ?sched) 1 = Some (example_job 1 JobStateRunning 0)"
    by (simp_all add: mem_jobs_of_def)
  from Cancel_outcome [OF mem.job_store_axioms inv job c] c show ?thesis by simp
qed

text \<open>
  Neither \<open>Complete\<close> nor \<open>Fail\<close> looks at the state of the job. After a forced
  cancellation of a running job, the worker's report still wins: the cancelled job becomes
  completed.
\<close>

theorem Complete_after_Cancel:
  assumes "job_store ops sinv storable jobs_of results_of checkpoints_of idem_of"
    and "sinv (sch_store sched)" and "jobs_of (sch_store sched) i = Some j"
    and "State j = JobStateRunning"
    and "Cancel ops clk i reason True sched = (None, sched1)"
    and "Complete ops clk' i r sched1 = (None, sched2)"
  shows "\<exists>j1 j2. jobs_of (sch_store sched1) i = Some j1 \<and> State j1 = JobStateCancelled \<and>
    jobs_of (sch_store sched2) i = Some j2 \<and> State j2 = JobStateCompleted"
proof -
  note c = job_store.Cancel_effect [OF assms(1-3,5)]
  have "\<not> IsTerminal j" using assms(4) by simp
  with c(4) have "jobs_of (sch_store sched1) = (jobs_of (sch_store sched))
      (i \<mapsto> j\<lparr>State := JobStateCancelled, CompletedAt := clk 0, LastError := reason,
            UpdatedAt := clk 1\<rparr>)" by simp
  with job_store.Complete_ok [OF assms(1) c(1) assms(6)] show ?thesis by auto
qed


lemma mem_Complete_ok:
  assumes "map_of (mem_jobs (sch_store sched)) i = Some j" and "ID j = i"
  shows "\<exists>sched'. Complete (memory_store ord) clk i r sched = (None, sched')"
  using assms by (auto simp: Complete_def mem_Get_def mem_SaveResult_def mem_Update_def Let_def)

lemma mem_Cancel_ok:
  assumes "map_of (mem_jobs (sch_store sched)) i = Some j" and "ID j = i" and "\<not> IsTerminal j"
  shows "\<exists>sched'. Cancel (memory_store ord) clk i reason force sched = (None, sched')"
  using assms by (auto simp: Cancel_def IsTerminal_def mem_Get_def mem_Update_def Let_def)

theorem Complete_after_Cancel_witness:
  "\<exists>sched1 sched2 j2.
     Cancel (memory_store (\<lambda>m. m)) (\<lambda>_. 5) 1 ''stop'' True (example_sched [example_job 1 JobStateRunning 0]) =
       (None, sched1) \<and>
     Complete (memory_store (\<lambda>m. m)) (\<lambda>_. 6) 1 zero_JobResult sched1 = (None, sched2) \<and>
     mem_jobs_of (sch_store sched2) 1 = Some j2 \<and> State j2 = JobStateCompleted"
proof -
  let ?ops = "memory_store (\<lambda>m. m)" and ?j = "example_job 1 JobStateRunning 0"
  let ?sched = "example_sched [?j]"
  have inv: "mem_inv (sch_store ?sched)" and job: "mem_jobs_of (sch_store ?sched) 1 = Some ?j"
    by (simp_all add: mem_jobs_of_def)
  have "\<exists>sched1. Cancel ?ops (\<lambda>_. 5) 1 ''stop'' True ?sched = (None, sched1)"
    by (rule mem_Cancel_ok [where j = ?j]) simp_all
  then obtain sched1 where c: "Cancel ?ops (\<lambda>_. 5) 1 ''stop'' True ?sched = (None, sched1)" ..
  then have "map_of (mem_jobs (sch_store sched1)) 1 =
      Some (?j\<lparr>State := JobStateCancelled, CompletedAt := 5, UpdatedAt := 5, LastError := ''stop''\<rparr>)"
    by (auto simp: Cancel_def mem_Get_def mem_Update_def Let_def)
  then have "\<exists>sched2. Complete ?ops (\<lambda>_. 6) 1 zero_JobResult sched1 = (None, sched2)"
    by (rule mem_Complete_ok) simp
  then obtain sched2 where d: "Complete ?ops (\<lambda>_. 6) 1 zero_JobResult sched1 = (None, sched2)" ..
  from Complete_after_Cancel [OF mem.job_store_axioms inv job _ c d] c d show ?thesis by auto
qed

context job_store
begin

lemma Retry_ok:
  assumes "inv (sch_store sched)" and "Retry ops clk i resetAttempts sched = (None, sched')"
  shows "inv (sch_store sched') \<and> (\<exists>j. jobs_of (sch_store sched) i = Some j \<and>
    State j \<in> {JobStateFailed, JobStateDeadLetter} \<and>
    jobs_of (sch_store sched') = (jobs_of (sch_store sched))
      (i \<mapsto> j\<lparr>State := JobStatePending, CompletedAt := 0, LastError := '''', ErrorCategory := '''',
            Attempt := (if resetAttempts then 0 else Attempt j), UpdatedAt := clk 1\<rparr>))"
proof -
  obtain j where get: "Get ops i (sch_store sched) = Inr j"
    and st: "State j \<in> {JobStateFailed, JobStateDeadLetter}"
    using assms(2) by (auto simp: Retry_def split: sum.splits if_splits)
  define j1 where "j1 = (if resetAttempts then j\<lparr>Attempt := 0\<rparr> else j)\<lparr>State := JobStatePending,
    UpdatedAt := clk 0, CompletedAt := 0, LastError := '''', ErrorCategory := ''''\<rparr>"
  have "Retry ops clk i resetAttempts sched =
      (let (_, err, s') = Update ops (clk 1) j1 (sch_store sched) in (err, sched\<lparr>sch_store := s'\<rparr>))"
    using get st by (auto simp: Retry_def Let_def j1_def)
  with assms(2) obtain j' where upd: "Update ops (clk 1) j1 (sch_store sched) = (j', None, sch_store sched')"
    by (auto simp: Let_def split: prod.splits)
  have j: "jobs_of (sch_store sched) i = Some j" using get Get_Some [OF assms(1)] by simp
  have "ID j1 = i" using jobs_ID [OF assms(1) j] by (simp add: j1_def)
  with Update_None [OF assms(1) upd] j st show ?thesis by (auto simp: j1_def)
qed

end

text \<open>
  A retry requested by a client brings back only failed and dead-lettered jobs, clears the
  error, and makes the job available: the store's next list of pending jobs contains it unless
  the list is full.
\<close>

theorem Retry_requeues:
  assumes "job_store ops sinv storable jobs_of results_of checkpoints_of idem_of"
    and "sinv (sch_store sched)" and "Retry ops clk i resetAttempts sched = (None, sched')"
    and "GetPending ops limit (sch_store sched') = Inr js"
    and "int (length js) < effective_limit limit"
  shows "\<exists>j j'. jobs_of (sch_store sched) i = Some j \<and>
    State j \<in> {JobStateFailed, JobStateDeadLetter} \<and> j' \<in> set js \<and>
    ID j' = i \<and> State j' = JobStatePending \<and> LastError j' = '''' \<and> CompletedAt j' = 0 \<and>
    Attempt j' = (if resetAttempts then 0 else Attempt j)"
proof -
  note r = job_store.Retry_ok [OF assms(1-3)]
  then obtain j j' where j: "jobs_of (sch_store sched) i = Some j"
      "State j \<in> {JobStateFailed, JobStateDeadLetter}"
    and j': "jobs_of (sch_store sched') i = Some j'" "State j' = JobStatePending" "LastError j' = ''''"
      "CompletedAt j' = 0" "Attempt j' = (if resetAttempts then 0 else Attempt j)"
    by auto
  have inv': "sinv (sch_store sched')" using r by simp
  have "j' \<in> set js"
    using job_store.GetPending [OF assms(1) inv', of limit] assms(4,5) j'(1,2)
    by (auto simp: is_pending_def)
  moreover have "ID j' = i" using job_store.jobs_ID [OF assms(1) inv' j'(1)] .
  ultimately show ?thesis using j j' by blast
qed

theorem Retry_requeues_witness:
  "\<exists>sched' js j'. Retry (memory_store (\<lambda>m. m)) (\<lambda>_. 5) 1 True
      (example_sched [(example_job 1 JobStateDeadLetter 0)\<lparr>Attempt := 3\<rparr>]) = (None, sched') \<and>
    mem_GetPending (\<lambda>m. m) 10 (sch_store sched') = Inr js \<and> j' \<in> set js \<and> Attempt j' = 0"
proof -
  let ?ops = "memory_store (\<lambda>m. m)" and ?j = "(example_job 1 JobStateDeadLetter 0)\<lparr>Attempt := 3\<rparr>"
  let ?sched = "example_sched [?j]"
  obtain err sched' where r: "Retry ?ops (\<lambda>_. 5) 1 True ?sched = (err, sched')"
    by (cases "Retry ?ops (\<lambda>_. 5) 1 True ?sched")
  have err: "err = None" and len: "length (mem_jobs (sch_store sched')) = 1"
    using r by (auto simp: Retry_def mem_Get_def mem_Update_def Let_def)
  obtain js where js: "mem_GetPending (\<lambda>m. m) 10 (sch_store sched') = Inr js" "length js \<le> 1"
    using len length_filter_le [of is_pending "map snd (mem_jobs (sch_store sched'))"]
    by (simp add: mem_GetPending_eq effective_limit_def)
  have inv: "mem_inv (sch_store ?sched)" by simp
  from Retry_requeues [OF mem.job_store_axioms inv r [unfolded err], of 10 js] js r err
  show ?thesis by (auto simp: effective_limit_def)
qed

text \<open>
  A scheduler cannot be restarted: after a start and a stop, a second start reports
  success, and the next stop closes the closed stop channel and panics.
\<close>

theorem scheduler_restart_panics:
  assumes "NewPriorityScheduler st config = Returns sched"
    and "sched_Start sched = (e1, sched1)" and "sched_Stop sched1 = Returns (e2, sched2)"
    and "sched_Start sched2 = (e3, sched3)"
  shows "e1 = None \<and> e2 = None \<and> e3 = None \<and> sched_IsHealthy sched3 \<and>
    sched_Stop sched3 = Panics ''close of closed channel''"
  using assms
  by (auto simp: NewPriorityScheduler_def sched_Start_def sched_Stop_def sched_IsHealthy_def Let_def
      split: if_splits)

theorem scheduler_restart_panics_witness:
  "\<exists>sched3. sched_Stop sched3 = (Panics ''close of closed channel''
     :: (gerror option \<times> nat PriorityScheduler) go_result)"
proof -
  obtain sched :: "nat PriorityScheduler" where new: "NewPriorityScheduler 0 None = Returns sched"
    by (auto simp: NewPriorityScheduler_def DefaultSchedulerConfig_def)
  obtain e1 sched1 where start: "sched_Start sched = (e1, sched1)" by (cases "sched_Start sched")
  obtain e2 sched2 where stop: "sched_Stop sched1 = Returns (e2, sched2)"
    using new start
    by (auto simp: NewPriorityScheduler_def sched_Start_def sched_Stop_def Let_def split: if_splits)
  obtain e3 sched3 where again: "sched_Start sched2 = (e3, sched3)" by (cases "sched_Start sched2")
  from scheduler_restart_panics [OF new start stop again] show ?thesis by blast
qed


end
