(* ===== verification/GQ_Worker.thy ===== *)
theory GQ_Worker
  imports GQ_Sched_Props
begin

text \<open>
  The worker pool (\<open>worker/pool.go\<close>, \<open>worker/simple_pool.go\<close>) and the dispatcher
  (\<open>worker/dispatcher.go\<close>): registration and submission, the processing of one job from
  the claim to the report, the job context, and the fetch loops. The pool and the scheduler
  share the store, which is the one in the scheduler's state.
\<close>

section \<open>Handlers\<close>

text \<open>
  A handler is code of the user. What it can do to the system is call its job context:
  a handler is a tree of such calls, whose branches are the answers, that ends by returning an
  error or none, or by panicking with a value and a stack trace. A handler that never returns
  is not such a tree.
\<close>

datatype handler_run =
    Return "gerror option"
  | Panic string string
  | Checkpoint bytes "gerror option \<Rightarrow> handler_run"
  | LastCheckpoint "gerror + bytes option \<Rightarrow> handler_run"
  | SetOutput bytes handler_run
  | ReportProgress float64 string handler_run

datatype handler_end = Returned "gerror option" | Panicked string string

text \<open>
  It gets the job of the context and the deadline of the context it is called with.
\<close>

type_synonym handler = "Job \<Rightarrow> instant \<Rightarrow> handler_run"

record jobContext =
  jc_job :: Job
  jc_output :: bytes

definition createJobContext :: "Job \<Rightarrow> jobContext" where
  "createJobContext job = \<lparr>jc_job = job, jc_output = []\<rparr>"

definition jc_Job :: "jobContext \<Rightarrow> Job" where
  "jc_Job jc = jc_job jc"

definition jc_Checkpoint ::
    "'s JobStore \<Rightarrow> jobContext \<Rightarrow> bytes \<Rightarrow> 's \<Rightarrow> gerror option \<times> 's" where
  "jc_Checkpoint ops jc data s = SaveCheckpoint ops (ID (jc_job jc)) data s"

definition jc_LastCheckpoint :: "'s JobStore \<Rightarrow> jobContext \<Rightarrow> 's \<Rightarrow> gerror + bytes option" where
  "jc_LastCheckpoint ops jc s = GetCheckpoint ops (ID (jc_job jc)) s"

definition jc_SetOutput :: "bytes \<Rightarrow> jobContext \<Rightarrow> jobContext" where
  "jc_SetOutput data jc = jc\<lparr>jc_output := data\<rparr>"

definition jc_Progress :: "float64 \<Rightarrow> string \<Rightarrow> jobContext \<Rightarrow> jobContext" where
  "jc_Progress percent message jc =
     jc\<lparr>jc_job := (jc_job jc)\<lparr>Progress := percent, ProgressMessage := message\<rparr>\<rparr>"

primrec run_handler ::
    "'s JobStore \<Rightarrow> handler_run \<Rightarrow> jobContext \<Rightarrow> 's \<Rightarrow> handler_end \<times> jobContext \<times> 's" where
  "run_handler ops (Return err) = (\<lambda>jc s. (Returned err, jc, s))"
| "run_handler ops (Panic r stack) = (\<lambda>jc s. (Panicked r stack, jc, s))"
| "run_handler ops (Checkpoint data k) = (\<lambda>jc s.
     let (err, s') = jc_Checkpoint ops jc data s in run_handler ops (k err) jc s')"
| "run_handler ops (LastCheckpoint k) = (\<lambda>jc s.
     run_handler ops (k (jc_LastCheckpoint ops jc s)) jc s)"
| "run_handler ops (SetOutput data k) = (\<lambda>jc s. run_handler ops k (jc_SetOutput data jc) s)"
| "run_handler ops (ReportProgress percent message k) = (\<lambda>jc s.
     run_handler ops k (jc_Progress percent message jc) s)"

text \<open>The deferred \<open>recover\<close> turns a panic into a permanent error.\<close>

definition executeWithRecovery ::
    "'s JobStore \<Rightarrow> instant \<Rightarrow> jobContext \<Rightarrow> handler \<Rightarrow> 's \<Rightarrow>
       gerror option \<times> jobContext \<times> 's" where
  "executeWithRecovery ops deadline jc handler s =
     (case run_handler ops (handler (jc_job jc) deadline) jc s of
        (Returned err, jc', s') \<Rightarrow> (err, jc', s')
      | (Panicked r stack, jc', s') \<Rightarrow>
          (Some (PermanentError (''panic: '' @ r @ [CHR 0x0A] @ stack) None), jc', s'))"

section \<open>The pool\<close>

record WorkerConfig =
  WorkerConfigID :: string
  Concurrency :: int
  WorkerHeartbeatInterval :: duration
  JobTimeout :: duration
  ShutdownGracePeriod :: duration
  CheckpointInterval :: duration
  WorkerDataDir :: string

text \<open>\<open>newID\<close> is the text of \<open>uuid.New()\<close>.\<close>

definition DefaultWorkerConfig :: "string \<Rightarrow> WorkerConfig" where
  "DefaultWorkerConfig newID = \<lparr>WorkerConfigID = newID, Concurrency = 10,
     WorkerHeartbeatInterval = 30 * Second, JobTimeout = 30 * Minute,
     ShutdownGracePeriod = 30 * Second, CheckpointInterval = 1 * Minute,
     WorkerDataDir = ''./data''\<rparr>"

record PoolStats =
  TotalWorkers :: int
  ActiveWorkers :: int
  IdleWorkers :: int
  QueuedJobs :: int
  ProcessedJobs :: int
  SucceededJobs :: int
  FailedJobs :: int
  RetriedJobs :: int
  AvgProcessingTime :: duration
  MaxProcessingTime :: duration
  P99ProcessingTime :: duration
  ProcessingIDs :: "uuid list"
  Uptime :: duration
  PoolHealthy :: bool

text \<open>
  \<open>processingIDs\<close> is a \<open>sync.Map\<close>; \<open>live_workers\<close> and \<open>live_fetchers\<close> count the
  goroutines that have been started.
\<close>

record SimplePool =
  pool_config :: WorkerConfig
  handlers :: "(string, handler) gomap"
  pool_jobCh :: "Job list"
  pool_running :: int
  pool_stopCh_closed :: bool
  startTime :: instant
  processed :: int
  succeeded :: int
  pool_failed :: int
  activeCount :: int
  processingIDs :: "(uuid, bool) gomap"
  live_workers :: nat
  live_fetchers :: nat

definition NewSimplePool :: "string \<Rightarrow> WorkerConfig option \<Rightarrow> SimplePool go_result" where
  "NewSimplePool newID config =
     (let cfg = (case config of None \<Rightarrow> DefaultWorkerConfig newID | Some c \<Rightarrow> c)
      in if wrap64 (Concurrency cfg * 2) < 0 then Panics ''makechan: size out of range''
         else Returns \<lparr>pool_config = cfg, handlers = [], pool_jobCh = [], pool_running = 0,
           pool_stopCh_closed = False, startTime = 0, processed = 0, succeeded = 0,
           pool_failed = 0, activeCount = 0, processingIDs = [], live_workers = 0,
           live_fetchers = 0\<rparr>)"

definition pool_Start :: "instant \<Rightarrow> SimplePool \<Rightarrow> gerror option \<times> SimplePool" where
  "pool_Start t p =
     (if pool_running p \<noteq> 0 then (None, p)
      else (None, p\<lparr>pool_running := 1, startTime := t,
             live_workers := live_workers p + nat (Concurrency (pool_config p)),
             live_fetchers := live_fetchers p + 1\<rparr>))"

text \<open>
  What \<open>Stop\<close> does to the pool. It then waits for the goroutines, for the grace period or for
  the context, whichever ends first, and returns no error in each case.
\<close>

definition pool_Stop :: "SimplePool \<Rightarrow> (gerror option \<times> SimplePool) go_result" where
  "pool_Stop p =
     (if pool_running p \<noteq> 1 then Returns (None, p)
      else if pool_stopCh_closed p then Panics ''close of closed channel''
      else Returns (None, p\<lparr>pool_running := 0, pool_stopCh_closed := True\<rparr>))"

definition RegisterHandler :: "string \<Rightarrow> handler \<Rightarrow> SimplePool \<Rightarrow> SimplePool" where
  "RegisterHandler jobType h p = p\<lparr>handlers := AList.update jobType h (handlers p)\<rparr>"

definition pool_capacity :: "SimplePool \<Rightarrow> int" where
  "pool_capacity p = wrap64 (Concurrency (pool_config p) * 2)"

definition Submit :: "Job \<Rightarrow> SimplePool \<Rightarrow> gerror option \<times> SimplePool" where
  "Submit job p =
     (if pool_running p = 0 then (Some (ErrorString ''worker pool not running''), p)
      else if int (length (pool_jobCh p)) < pool_capacity p
      then (None, p\<lparr>pool_jobCh := pool_jobCh p @ [job]\<rparr>)
      else (Some (ErrorString ''job queue full''), p))"

text \<open>The \<open>select\<close> of \<open>WaitForJob\<close>, as in \<open>GetNextJob\<close>.\<close>

definition WaitForJob ::
    "gerror option \<Rightarrow> bool \<Rightarrow> SimplePool \<Rightarrow> (gerror + Job) option \<times> SimplePool" where
  "WaitForJob ctx_err pick_job p =
     (case (ctx_err, pool_jobCh p) of
        (None, []) \<Rightarrow> (None, p)
      | (Some e, []) \<Rightarrow> (Some (Inl e), p)
      | (None, job # rest) \<Rightarrow> (Some (Inr job), p\<lparr>pool_jobCh := rest\<rparr>)
      | (Some e, job # rest) \<Rightarrow>
          if pick_job then (Some (Inr job), p\<lparr>pool_jobCh := rest\<rparr>) else (Some (Inl e), p))"

definition CompleteJob ::
    "'s JobStore \<Rightarrow> clock \<Rightarrow> JobResult \<Rightarrow> 's PriorityScheduler \<Rightarrow>
       gerror option \<times> 's PriorityScheduler" where
  "CompleteJob ops clk result sched = Complete ops clk (JobID result) result sched"

definition FailJob ::
    "'s JobStore \<Rightarrow> (float64 \<Rightarrow> int) \<Rightarrow> clock \<Rightarrow> JobResult \<Rightarrow> 's PriorityScheduler \<Rightarrow>
       gerror option \<times> 's PriorityScheduler" where
  "FailJob ops cvt clk result sched = Fail ops cvt clk (JobID result) result sched"

section \<open>Processing one job\<close>

text \<open>
  The body of \<open>processJob\<close> after the two counters at its start, up to the deferred function.
  The readings of the clock are \<open>start\<close>, that of the claim, the one the deadline is computed
  from, the duration, the completion time, and those of the report.
\<close>

definition process_claimed ::
    "'s JobStore \<Rightarrow> (float64 \<Rightarrow> int) \<Rightarrow> clock \<Rightarrow> Job \<Rightarrow> SimplePool \<Rightarrow> 's PriorityScheduler \<Rightarrow>
       SimplePool \<times> 's PriorityScheduler" where
  "process_claimed ops cvt clk job p sched =
     (case map_of (handlers p) (JobType job) of
        None \<Rightarrow>
          (let result = zero_JobResult\<lparr>JobID := ID job,
                 ResultError := ''no handler registered for job type: '' @ JobType job,
                 ResultCategory := ErrorCategoryPermanent,
                 ResultCompletedAt := clk 2, Duration := time_Sub (clk 3) (clk 0)\<rparr>
           in (p\<lparr>pool_failed := wrap64 (pool_failed p + 1)\<rparr>,
               snd (FailJob ops cvt (later 4 clk) result sched)))
      | Some handler \<Rightarrow>
          (let timeout = (if Timeout job = 0 then JobTimeout (pool_config p) else Timeout job);
               (err, jc, s') = executeWithRecovery ops (clk 2 + timeout) (createJobContext job)
                 handler (sch_store sched);
               sched' = sched\<lparr>sch_store := s'\<rparr>;
               duration = time_Sub (clk 3) (clk 0)
           in case err of
                Some e \<Rightarrow>
                  (let result = zero_JobResult\<lparr>JobID := ID job, ResultError := Error e,
                         ResultCategory := ClassifyError err, ResultCompletedAt := clk 4,
                         Duration := duration\<rparr>
                   in (p\<lparr>pool_failed := wrap64 (pool_failed p + 1)\<rparr>,
                       snd (FailJob ops cvt (later 5 clk) result sched')))
              | None \<Rightarrow>
                  (let result = zero_JobResult\<lparr>JobID := ID job, Success := True,
                         Output := jc_output jc, ResultCompletedAt := clk 4,
                         Duration := duration\<rparr>
                   in (p\<lparr>succeeded := wrap64 (succeeded p + 1)\<rparr>,
                       snd (CompleteJob ops (later 5 clk) result sched')))))"

definition processJob ::
    "'s JobStore \<Rightarrow> (float64 \<Rightarrow> int) \<Rightarrow> clock \<Rightarrow> Job \<Rightarrow> SimplePool \<Rightarrow> 's PriorityScheduler \<Rightarrow>
       SimplePool \<times> 's PriorityScheduler" where
  "processJob ops cvt clk job p sched =
     (let p1 = p\<lparr>activeCount := activeCount p + 1,
            processingIDs := AList.update (ID job) True (processingIDs p),
            processed := wrap64 (processed p + 1)\<rparr>;
          (claimed, err, s') = ClaimJob ops (clk 1) (ID job) (WorkerConfigID (pool_config p))
            (sch_store sched);
          sched1 = sched\<lparr>sch_store := s'\<rparr>;
          (p2, sched2) = (if err \<noteq> None \<or> \<not> claimed then (p1, sched1)
            else process_claimed ops cvt clk job p1 sched1)
      in (p2\<lparr>activeCount := activeCount p2 - 1,
             processingIDs := AList.delete (ID job) (processingIDs p2)\<rparr>, sched2))"

text \<open>\<open>ord\<close> is the order in which \<open>Range\<close> visits the \<open>sync.Map\<close>.\<close>

definition pool_Stats :: "(uuid, bool) range_order \<Rightarrow> instant \<Rightarrow> SimplePool \<Rightarrow> PoolStats" where
  "pool_Stats ord t p =
     \<lparr>TotalWorkers = Concurrency (pool_config p), ActiveWorkers = activeCount p,
      IdleWorkers = wrap64 (Concurrency (pool_config p) - activeCount p),
      QueuedJobs = int (length (pool_jobCh p)), ProcessedJobs = processed p,
      SucceededJobs = succeeded p, FailedJobs = pool_failed p, RetriedJobs = 0,
      AvgProcessingTime = 0, MaxProcessingTime = 0, P99ProcessingTime = 0,
      ProcessingIDs = map fst (ord (processingIDs p)), Uptime = time_Sub t (startTime p),
      PoolHealthy = (pool_running p = 1)\<rparr>"

definition pool_IsHealthy :: "SimplePool \<Rightarrow> bool" where
  "pool_IsHealthy p \<longleftrightarrow> pool_running p = 1"

section \<open>The loops of the pool\<close>

text \<open>
  One round of a goroutine. The fetcher takes a job from the scheduler and puts it into the
  pool's channel (it blocks while that is full); a worker takes a job from the channel and
  processes it; both end once the stop channel is closed or the context is done
  (\<open>ctx_done\<close>, which the environment decides).
\<close>

inductive pool_step ::
    "'s JobStore \<Rightarrow> (float64 \<Rightarrow> int) \<Rightarrow> SimplePool \<times> 's PriorityScheduler \<Rightarrow>
       SimplePool \<times> 's PriorityScheduler \<Rightarrow> bool"
  for ops cvt where
  fetch: "0 < live_fetchers p \<Longrightarrow> GetNextJob ctx_err pick_job sched = (Some (Inr job), sched') \<Longrightarrow>
     int (length (pool_jobCh p)) < pool_capacity p \<Longrightarrow>
     pool_step ops cvt (p, sched) (p\<lparr>pool_jobCh := pool_jobCh p @ [job]\<rparr>, sched')"
| fetch_dropped: "0 < live_fetchers p \<Longrightarrow>
     GetNextJob ctx_err pick_job sched = (Some (Inr job), sched') \<Longrightarrow> pool_stopCh_closed p \<Longrightarrow>
     pool_step ops cvt (p, sched) (p\<lparr>live_fetchers := live_fetchers p - 1\<rparr>, sched')"
| fetch_exit: "0 < live_fetchers p \<Longrightarrow> ctx_done \<or> pool_stopCh_closed p \<Longrightarrow>
     pool_step ops cvt (p, sched) (p\<lparr>live_fetchers := live_fetchers p - 1\<rparr>, sched)"
| work: "0 < live_workers p \<Longrightarrow> pool_jobCh p = job # rest \<Longrightarrow>
     processJob ops cvt clk job (p\<lparr>pool_jobCh := rest\<rparr>) sched = (p', sched') \<Longrightarrow>
     pool_step ops cvt (p, sched) (p', sched')"
| work_exit: "0 < live_workers p \<Longrightarrow> ctx_done \<or> pool_stopCh_closed p \<Longrightarrow>
     pool_step ops cvt (p, sched) (p\<lparr>live_workers := live_workers p - 1\<rparr>, sched)"

section \<open>The dispatcher\<close>

record DispatcherStats =
  JobsDispatched :: int
  JobsCompleted :: int
  JobsFailed :: int
  AvgDispatchLatency :: duration
  DispatcherHealthy :: bool

record SimpleDispatcher =
  disp_running :: int
  disp_stopCh_closed :: bool
  dispatched :: int
  disp_completed :: int
  disp_failed :: int
  dispatch_loops :: nat

definition NewSimpleDispatcher :: SimpleDispatcher where
  "NewSimpleDispatcher = \<lparr>disp_running = 0, disp_stopCh_closed = False, dispatched = 0,
     disp_completed = 0, disp_failed = 0, dispatch_loops = 0\<rparr>"

definition disp_Start :: "SimpleDispatcher \<Rightarrow> gerror option \<times> SimpleDispatcher" where
  "disp_Start d =
     (if disp_running d \<noteq> 0 then (None, d)
      else (None, d\<lparr>disp_running := 1, dispatch_loops := dispatch_loops d + 1\<rparr>))"

definition disp_Stop :: "SimpleDispatcher \<Rightarrow> (gerror option \<times> SimpleDispatcher) go_result" where
  "disp_Stop d =
     (if disp_running d \<noteq> 1 then Returns (None, d)
      else if disp_stopCh_closed d then Panics ''close of closed channel''
      else Returns (None, d\<lparr>disp_running := 0, disp_stopCh_closed := True\<rparr>))"

text \<open>
  One round of \<open>dispatchLoop\<close> that gets a job: a job the pool refuses is given to
  \<open>Enqueue\<close>, and the dispatcher goes on.
\<close>

definition dispatch_job ::
    "clock \<Rightarrow> Job \<Rightarrow> SimpleDispatcher \<times> SimplePool \<times> 's PriorityScheduler \<Rightarrow>
       SimpleDispatcher \<times> SimplePool \<times> 's PriorityScheduler" where
  "dispatch_job clk job = (\<lambda>(d, p, sched).
     case Submit job p of
       (Some e, p') \<Rightarrow> (let (job', err, sched') = Enqueue clk job sched in (d, p', sched'))
     | (None, p') \<Rightarrow> (d\<lparr>dispatched := wrap64 (dispatched d + 1)\<rparr>, p', sched))"

definition dispatch_round ::
    "gerror option \<Rightarrow> bool \<Rightarrow> clock \<Rightarrow> SimpleDispatcher \<times> SimplePool \<times> 's PriorityScheduler \<Rightarrow>
       SimpleDispatcher \<times> SimplePool \<times> 's PriorityScheduler" where
  "dispatch_round ctx_err pick_job clk = (\<lambda>(d, p, sched).
     case GetNextJob ctx_err pick_job sched of
       (Some (Inr job), sched') \<Rightarrow> dispatch_job clk job (d, p, sched')
     | (_, sched') \<Rightarrow> (d, p, sched'))"

definition RecordCompletion :: "JobResult \<Rightarrow> SimpleDispatcher \<Rightarrow> SimpleDispatcher" where
  "RecordCompletion result d =
     (if Success result then d\<lparr>disp_completed := wrap64 (disp_completed d + 1)\<rparr>
      else d\<lparr>disp_failed := wrap64 (disp_failed d + 1)\<rparr>)"

definition disp_Stats :: "SimpleDispatcher \<Rightarrow> DispatcherStats" where
  "disp_Stats d = \<lparr>JobsDispatched = dispatched d, JobsCompleted = disp_completed d,
     JobsFailed = disp_failed d, AvgDispatchLatency = 0,
     DispatcherHealthy = (disp_running d = 1)\<rparr>"

definition disp_IsHealthy :: "SimpleDispatcher \<Rightarrow> bool" where
  "disp_IsHealthy d \<longleftrightarrow> disp_running d = 1"

end
