(* ===== verification/GQ_Worker_Props.thy ===== *)
theory GQ_Worker_Props
  imports GQ_Worker
begin

text \<open>
  Properties of the worker pool: what a handler can change in the store, the outcome of
  processing a job from the claim to the report, that a job which is not pending is left
  alone, and the counters.
\<close>

section \<open>What a handler can change\<close>

context job_store
begin

lemma run_handler_frame:
  assumes "inv s" and "run_handler ops h jc s = (r, jc', s')"
  shows "inv s' \<and> jobs_of s' = jobs_of s \<and> results_of s' = results_of s \<and> idem_of s' = idem_of s \<and>
    ID (jc_job jc') = ID (jc_job jc) \<and>
    (\<forall>i. i \<noteq> ID (jc_job jc) \<longrightarrow> checkpoints_of s' i = checkpoints_of s i)"
  using assms
proof (induction h arbitrary: jc s)
  case (Return x)
  then show ?case by simp
next
  case (Panic x1 x2)
  then show ?case by simp
next
  case (Checkpoint data k)
  obtain e s1 where c: "SaveCheckpoint ops (ID (jc_job jc)) data s = (e, s1)"
    by (cases "SaveCheckpoint ops (ID (jc_job jc)) data s")
  with Checkpoint.prems(2) have rest: "run_handler ops (k e) jc s1 = (r, jc', s')"
    by (simp add: jc_Checkpoint_def)
  have one: "inv s1 \<and> jobs_of s1 = jobs_of s \<and> results_of s1 = results_of s \<and> idem_of s1 = idem_of s \<and>
    (\<forall>i. i \<noteq> ID (jc_job jc) \<longrightarrow> checkpoints_of s1 i = checkpoints_of s i)"
    using SaveCheckpoint_ok [OF Checkpoint.prems(1), of "ID (jc_job jc)" data s1]
      SaveCheckpoint_err [OF Checkpoint.prems(1), of "ID (jc_job jc)" data _ s1] c Checkpoint.prems(1)
    by (cases e) auto
  with Checkpoint.IH [OF rangeI _ rest] show ?case by auto
next
  case (LastCheckpoint k)
  from LastCheckpoint.IH [OF rangeI LastCheckpoint.prems(1)] LastCheckpoint.prems(2)
  show ?case by simp
next
  case (SetOutput data h)
  from SetOutput.IH [OF SetOutput.prems(1), of "jc_SetOutput data jc"] SetOutput.prems(2)
  show ?case by (simp add: jc_SetOutput_def)
next
  case (ReportProgress percent message h)
  from ReportProgress.IH [OF ReportProgress.prems(1), of "jc_Progress percent message jc"]
    ReportProgress.prems(2)
  show ?case by (simp add: jc_Progress_def)
qed

lemma executeWithRecovery_frame:
  assumes "inv s" and "executeWithRecovery ops d jc h s = (err, jc', s')"
  shows "inv s' \<and> jobs_of s' = jobs_of s \<and> results_of s' = results_of s \<and> idem_of s' = idem_of s"
proof -
  obtain r jc1 s1 where run: "run_handler ops (h (jc_job jc) d) jc s = (r, jc1, s1)"
    by (cases "run_handler ops (h (jc_job jc) d) jc s")
  with assms(2) have "s' = s1" by (auto simp: executeWithRecovery_def split: handler_end.splits)
  with run_handler_frame [OF assms(1) run] show ?thesis by simp
qed

end

text \<open>
  Writes of other parts of the system between two attempts of the job \<open>i\<close>: everything except
  saving a checkpoint of that job, deleting it, and \<open>Cleanup\<close>.
\<close>

inductive other_writes :: "'s JobStore \<Rightarrow> uuid \<Rightarrow> 's \<Rightarrow> 's \<Rightarrow> bool" for ops i where
  "other_writes ops i s s"
| "other_writes ops i s s1 \<Longrightarrow> Create ops j s1 = (e, s2) \<Longrightarrow> other_writes ops i s s2"
| "other_writes ops i s s1 \<Longrightarrow> Update ops t j s1 = (j', e, s2) \<Longrightarrow> other_writes ops i s s2"
| "other_writes ops i s s1 \<Longrightarrow> UpdateState ops t k st s1 = (e, s2) \<Longrightarrow> other_writes ops i s s2"
| "other_writes ops i s s1 \<Longrightarrow> ClaimJob ops t k w s1 = (b, e, s2) \<Longrightarrow> other_writes ops i s s2"
| "other_writes ops i s s1 \<Longrightarrow> SaveResult ops r s1 = (e, s2) \<Longrightarrow> other_writes ops i s s2"
| "other_writes ops i s s1 \<Longrightarrow> k \<noteq> i \<Longrightarrow> SaveCheckpoint ops k data s1 = (e, s2) \<Longrightarrow>
     other_writes ops i s s2"
| "other_writes ops i s s1 \<Longrightarrow> k \<noteq> i \<Longrightarrow> Delete ops k s1 = (e, s2) \<Longrightarrow> other_writes ops i s s2"

context job_store
begin

lemma other_writes_checkpoint:
  assumes "other_writes ops i s s'" and "inv s"
  shows "inv s' \<and> checkpoints_of s' i = checkpoints_of s i"
  using assms
proof (induction rule: other_writes.induct)
  case (1 s)
  then show ?case by simp
next
  case (2 s s1 j e s2)
  then show ?case
    using Create_ok [of s1 j s2] Create_err [of s1 j _ s2] by (cases e) auto
next
  case (3 s s1 t j j' e s2)
  then show ?case
    using Update_ok [of s1 t j j' s2] Update_err [of s1 t j j' _ s2] by (cases e) auto
next
  case (4 s s1 t k st e s2)
  then show ?case
    using UpdateState_ok [of s1 t k st s2] UpdateState_err [of s1 t k st _ s2] by (cases e) auto
next
  case (5 s s1 t k w b e s2)
  then show ?case
    using ClaimJob_ok [of s1 t k w s2] ClaimJob_no [of s1 t k w b e s2]
    by (cases "(b, e) = (True, None)") auto
next
  case (6 s s1 r e s2)
  then show ?case
    using SaveResult_ok [of s1 r s2] SaveResult_err [of s1 r _ s2] by (cases e) auto
next
  case (7 s s1 k data e s2)
  then show ?case
    using SaveCheckpoint_ok [of s1 k data s2] SaveCheckpoint_err [of s1 k data _ s2]
    by (cases e) auto
next
  case (8 s s1 k e s2)
  then show ?case
    using Delete_ok [of s1 k s2] Delete_err [of s1 k _ s2] by (cases e) auto
qed

end

text \<open>
  C39: a checkpoint survives the attempt that saved it: whatever is written in between, short of
  deleting the job, a later attempt of the same job, on any worker, reads the last checkpoint
  that was saved.
\<close>

theorem checkpoint_survives:
  assumes "job_store ops sinv storable jobs_of results_of checkpoints_of idem_of"
    and "sinv s" and "jc_Checkpoint ops jc data s = (None, s1)"
    and "other_writes ops (ID (jc_job jc)) s1 s2" and "ID (jc_job jc') = ID (jc_job jc)"
  shows "jc_LastCheckpoint ops jc' s2 = Inr (Some data)"
proof -
  have "SaveCheckpoint ops (ID (jc_job jc)) data s = (None, s1)"
    using assms(3) by (simp add: jc_Checkpoint_def)
  note c = job_store.SaveCheckpoint_ok [OF assms(1,2) this]
  then have "sinv s1" by simp
  note w = job_store.other_writes_checkpoint [OF assms(1,4) this]
  then have "sinv s2" by simp
  with w c assms(5) show ?thesis
    by (simp add: jc_LastCheckpoint_def job_store.GetCheckpoint [OF assms(1)])
qed

theorem checkpoint_survives_witness:
  "let ops = memory_store (\<lambda>m. m); j = example_job 1 JobStateRunning 0;
     s1 = snd (jc_Checkpoint ops (createJobContext j) ''half'' (example_store [j]));
     s2 = snd (UpdateState ops 7 1 JobStatePending s1)
   in jc_LastCheckpoint ops (createJobContext (j\<lparr>Attempt := 2\<rparr>)) s2 = Inr (Some ''half'')"
proof -
  let ?ops = "memory_store (\<lambda>m. m)" and ?j = "example_job 1 JobStateRunning 0"
  let ?jc = "createJobContext ?j" and ?s = "example_store [?j]"
  let ?s1 = "snd (jc_Checkpoint ?ops ?jc ''half'' ?s)"
  have save: "jc_Checkpoint ?ops ?jc ''half'' ?s = (None, ?s1)"
    by (simp add: jc_Checkpoint_def mem_SaveCheckpoint_def)
  have "other_writes ?ops (ID (jc_job ?jc)) ?s1 (snd (UpdateState ?ops 7 1 JobStatePending ?s1))"
    by (rule other_writes.intros(4) [OF other_writes.intros(1)]) (rule prod.collapse [symmetric])
  from checkpoint_survives [OF mem.job_store_axioms _ save this,
      of "createJobContext (?j\<lparr>Attempt := 2\<rparr>)"]
  show ?thesis by (simp add: createJobContext_def)
qed

section \<open>Processing a job\<close>

text \<open>
  A job that is not waiting in the store, whatever copy of it arrives, is left alone.
\<close>

context job_store
begin

lemma claim_not_granted:
  assumes "inv s" and "\<forall>j. jobs_of s i = Some j \<longrightarrow> \<not> is_pending j"
  shows "\<exists>e. ClaimJob ops t i w s = (False, e, s)"
proof -
  obtain b e s' where c: "ClaimJob ops t i w s = (b, e, s')" by (cases "ClaimJob ops t i w s")
  have "b = False"
  proof (cases "jobs_of s i")
    case None
    from ClaimJob_missing [OF assms(1) this] c show ?thesis by simp
  next
    case (Some j)
    with assms(2) have "\<not> is_pending j" by blast
    from ClaimJob_refused [OF assms(1) Some this, of t w] c show ?thesis by simp
  qed
  with ClaimJob_no [OF assms(1) c] c show ?thesis by simp
qed

lemma processJob_refused:
  assumes "inv (sch_store sched)"
    and "\<forall>j. jobs_of (sch_store sched) (ID job) = Some j \<longrightarrow> \<not> is_pending j"
    and "processJob ops cvt clk job p sched = (p', sched')"
  shows "sched' = sched"
  using claim_not_granted [OF assms(1,2), of "clk 1" "WorkerConfigID (pool_config p)"] assms(3)
  by (auto simp: processJob_def Let_def)

lemma processJob_refused_counters:
  assumes "inv (sch_store sched)"
    and "\<forall>j. jobs_of (sch_store sched) (ID job) = Some j \<longrightarrow> \<not> is_pending j"
    and "processJob ops cvt clk job p sched = (p', sched')"
  shows "succeeded p' = succeeded p \<and> pool_failed p' = pool_failed p"
  using claim_not_granted [OF assms(1,2), of "clk 1" "WorkerConfigID (pool_config p)"] assms(3)
  by (auto simp: processJob_def Let_def)

end

text \<open>
  The state in which the report of an execution leaves a job, from the error it ended with.
\<close>

definition reported_state :: "gerror option \<Rightarrow> Job \<Rightarrow> JobState" where
  "reported_state err j =
     (if err = None then JobStateCompleted
      else if ClassifyError err = ErrorCategoryTemporary \<and> Attempt j < MaxAttempts j
      then JobStateRetrying
      else if Attempt j < MaxAttempts j then JobStateFailed else JobStateDeadLetter)"

lemma reported_not_pending: "State j = reported_state err k \<Longrightarrow> \<not> is_pending j"
  by (auto simp: reported_state_def is_pending_def split: if_splits)

text \<open>The error of an execution: that of the handler, or of its absence.\<close>

definition execution_error ::
    "'s JobStore \<Rightarrow> clock \<Rightarrow> Job \<Rightarrow> SimplePool \<Rightarrow> 's \<Rightarrow> gerror option" where
  "execution_error ops clk job p s =
     (case map_of (handlers p) (JobType job) of
        None \<Rightarrow> Some (PermanentError (''no handler registered for job type: '' @ JobType job) None)
      | Some h \<Rightarrow> fst (executeWithRecovery ops
          (clk 2 + (if Timeout job = 0 then JobTimeout (pool_config p) else Timeout job))
          (createJobContext job) h s))"

lemma mem_report_failed:
  assumes "permutes_entries ord" and "mem_inv (sch_store sched)"
    and "mem_jobs_of (sch_store sched) i = Some j"
    and "JobID r = i" and "ResultCategory r = ClassifyError (Some e)" and "\<not> Success r"
  shows "mem_inv (sch_store (snd (FailJob (memory_store ord) cvt clk r sched))) \<and>
    (\<exists>j'. mem_jobs_of (sch_store (snd (FailJob (memory_store ord) cvt clk r sched))) =
      (mem_jobs_of (sch_store sched))(i \<mapsto> j') \<and>
    map_of (mem_results (sch_store (snd (FailJob (memory_store ord) cvt clk r sched)))) i = Some r \<and>
    State j' = reported_state (Some e) j \<and> Attempt j' = Attempt j \<and> LastError j' = ResultError r)"
proof -
  have store: "job_store (memory_store ord) mem_inv (\<lambda>_ _. True) mem_jobs_of
    (\<lambda>m. map_of (mem_results m)) (\<lambda>m. map_of (mem_checkpoints m))
    (\<lambda>m. map_of (mem_idempotency m))"
    using assms(1) by (rule mem_job_store)
  have id: "ID j = i" using job_store.jobs_ID [OF store assms(2,3)] .
  have "\<exists>sched'. Fail (memory_store ord) cvt clk i r sched = (None, sched')"
    using assms(3) id by (intro mem_Fail_ok [where j = j]) (simp_all add: mem_jobs_of_def)
  then obtain sched' where f: "Fail (memory_store ord) cvt clk i r sched = (None, sched')" ..
  then have eq: "snd (FailJob (memory_store ord) cvt clk r sched) = sched'"
    using assms(4) by (simp add: FailJob_def)
  from assms(2,3) f show ?thesis
  proof (rule job_store.Fail_cases [OF store])
    assume "mem_inv (sch_store sched')"
      and "mem_jobs_of (sch_store sched') =
        (mem_jobs_of (sch_store sched))(i \<mapsto> failed_job cvt clk r j)"
      and "map_of (mem_results (sch_store sched')) =
        (map_of (mem_results (sch_store sched)))(JobID r \<mapsto> r)"
    moreover have "State (failed_job cvt clk r j) = reported_state (Some e) j \<and>
        Attempt (failed_job cvt clk r j) = Attempt j \<and> LastError (failed_job cvt clk r j) = ResultError r"
      by (simp add: failed_job_def reported_state_def assms(5))
    ultimately show ?thesis unfolding eq using assms(4) by auto
  qed simp_all
qed

lemma mem_report_completed:
  assumes "permutes_entries ord" and "mem_inv (sch_store sched)"
    and "mem_jobs_of (sch_store sched) i = Some j" and "JobID r = i"
  shows "mem_inv (sch_store (snd (CompleteJob (memory_store ord) clk r sched))) \<and>
    (\<exists>j'. mem_jobs_of (sch_store (snd (CompleteJob (memory_store ord) clk r sched))) =
      (mem_jobs_of (sch_store sched))(i \<mapsto> j') \<and>
    map_of (mem_results (sch_store (snd (CompleteJob (memory_store ord) clk r sched)))) i = Some r \<and>
    State j' = JobStateCompleted \<and> Attempt j' = Attempt j)"
proof -
  have store: "job_store (memory_store ord) mem_inv (\<lambda>_ _. True) mem_jobs_of
    (\<lambda>m. map_of (mem_results m)) (\<lambda>m. map_of (mem_checkpoints m))
    (\<lambda>m. map_of (mem_idempotency m))"
    using assms(1) by (rule mem_job_store)
  have id: "ID j = i" using job_store.jobs_ID [OF store assms(2,3)] .
  have "\<exists>sched'. Complete (memory_store ord) clk i r sched = (None, sched')"
    using assms(3) id by (intro mem_Complete_ok [where j = j]) (simp_all add: mem_jobs_of_def)
  then obtain sched' where f: "Complete (memory_store ord) clk i r sched = (None, sched')" ..
  then have eq: "snd (CompleteJob (memory_store ord) clk r sched) = sched'"
    using assms(4) by (simp add: CompleteJob_def)
  from job_store.Complete_ok [OF store assms(2) f] assms(3,4) show ?thesis
    unfolding eq by auto
qed


lemma mem_process_claimed:
  assumes "permutes_entries ord" and "mem_inv (sch_store sched)"
    and "mem_jobs_of (sch_store sched) (ID job) = Some j"
    and "process_claimed (memory_store ord) cvt clk job p sched = (p', sched')"
    and "err = execution_error (memory_store ord) clk job p (sch_store sched)"
  shows "mem_inv (sch_store sched') \<and>
    (\<exists>j' r. mem_jobs_of (sch_store sched') = (mem_jobs_of (sch_store sched))(ID job \<mapsto> j') \<and>
    map_of (mem_results (sch_store sched')) (ID job) = Some r \<and> Success r = (err = None) \<and>
    Attempt j' = Attempt j \<and> State j' = reported_state err j \<and>
    (case err of None \<Rightarrow> True | Some e \<Rightarrow> LastError j' = Error e))"
proof (cases "map_of (handlers p) (JobType job)")
  case None
  let ?msg = "''no handler registered for job type: '' @ JobType job"
  let ?r = "zero_JobResult\<lparr>JobID := ID job, ResultError := ?msg,
    ResultCategory := ErrorCategoryPermanent, ResultCompletedAt := clk 2,
    Duration := time_Sub (clk 3) (clk 0)\<rparr>"
  have err: "err = Some (PermanentError ?msg None)"
    using assms(5) None by (simp add: execution_error_def)
  have sched': "sched' = snd (FailJob (memory_store ord) cvt (later 4 clk) ?r sched)"
    using assms(4) None by (simp add: process_claimed_def Let_def)
  from mem_report_failed [OF assms(1-3), of ?r "PermanentError ?msg None" cvt "later 4 clk"]
  show ?thesis unfolding sched' err by (auto simp: zero_JobResult_def)
next
  case (Some h)
  let ?timeout = "if Timeout job = 0 then JobTimeout (pool_config p) else Timeout job"
  obtain e jc s1 where run: "executeWithRecovery (memory_store ord) (clk 2 + ?timeout)
      (createJobContext job) h (sch_store sched) = (e, jc, s1)"
    by (cases "executeWithRecovery (memory_store ord) (clk 2 + ?timeout)
      (createJobContext job) h (sch_store sched)")
  have err: "err = e" using assms(5) Some run by (simp add: execution_error_def)
  note frame = job_store.executeWithRecovery_frame [OF mem_job_store [OF assms(1)] assms(2) run]
  let ?sched = "sched\<lparr>sch_store := s1\<rparr>"
  have inv1: "mem_inv (sch_store ?sched)" and same: "mem_jobs_of s1 = mem_jobs_of (sch_store sched)"
    and stored: "mem_jobs_of (sch_store ?sched) (ID job) = Some j"
    using frame assms(3) by simp_all
  show ?thesis
  proof (cases e)
    case None
    let ?r = "zero_JobResult\<lparr>JobID := ID job, Success := True, Output := jc_output jc,
      ResultCompletedAt := clk 4, Duration := time_Sub (clk 3) (clk 0)\<rparr>"
    have "sched' = snd (CompleteJob (memory_store ord) (later 5 clk) ?r ?sched)"
      using assms(4) Some run None by (simp add: process_claimed_def Let_def)
    with mem_report_completed [OF assms(1) inv1 stored, of ?r "later 5 clk"] None
    show ?thesis by (auto simp: err reported_state_def same)
  next
    case (Some x)
    let ?r = "zero_JobResult\<lparr>JobID := ID job, ResultError := Error x,
      ResultCategory := ClassifyError (Some x), ResultCompletedAt := clk 4,
      Duration := time_Sub (clk 3) (clk 0)\<rparr>"
    have "sched' = snd (FailJob (memory_store ord) cvt (later 5 clk) ?r ?sched)"
      using assms(4) \<open>map_of (handlers p) (JobType job) = Some h\<close> run Some
      by (simp add: process_claimed_def Let_def)
    with mem_report_failed [OF assms(1) inv1 stored, of ?r x cvt "later 5 clk"] Some
    show ?thesis by (auto simp: err zero_JobResult_def same)
  qed
qed

lemma mem_processJob:
  assumes "permutes_entries ord" and "mem_inv (sch_store sched)"
    and "mem_jobs_of (sch_store sched) (ID job) = Some j" and "is_pending j"
    and "processJob (memory_store ord) cvt clk job p sched = (p', sched')"
    and "err = execution_error (memory_store ord) clk job p
      (snd (snd (ClaimJob (memory_store ord) (clk 1) (ID job) (WorkerConfigID (pool_config p))
        (sch_store sched))))"
  shows "mem_inv (sch_store sched') \<and> (\<exists>j' r. mem_jobs_of (sch_store sched') = (mem_jobs_of (sch_store sched))(ID job \<mapsto> j') \<and>
    map_of (mem_results (sch_store sched')) (ID job) = Some r \<and> Success r = (err = None) \<and>
    Attempt j' = wrap64 (Attempt j + 1) \<and>
    State j' = reported_state err (j\<lparr>Attempt := wrap64 (Attempt j + 1)\<rparr>) \<and>
    (case err of None \<Rightarrow> True | Some e \<Rightarrow> LastError j' = Error e))"
proof -
  let ?ops = "memory_store ord" and ?w = "WorkerConfigID (pool_config p)"
  note store = mem_job_store [OF assms(1)]
  obtain s1 where claim: "ClaimJob ?ops (clk 1) (ID job) ?w (sch_store sched) = (True, None, s1)"
    using job_store.ClaimJob_succeeds [OF store assms(2,3,4)] by blast
  from job_store.ClaimJob_ok [OF store assms(2) claim] assms(3)
  have inv1: "mem_inv s1" and jobs1: "mem_jobs_of s1 = (mem_jobs_of (sch_store sched))
      (ID job \<mapsto> claimed_by (clk 1) ?w j)" by auto
  define p1 where "p1 = p\<lparr>activeCount := activeCount p + 1,
    processingIDs := AList.update (ID job) True (processingIDs p), processed := wrap64 (processed p + 1)\<rparr>"
  obtain p2 where run: "process_claimed ?ops cvt clk job p1 (sched\<lparr>sch_store := s1\<rparr>) = (p2, sched')"
    using assms(5) claim by (auto simp: processJob_def Let_def p1_def split: prod.splits)
  have err: "err = execution_error ?ops clk job p1 (sch_store (sched\<lparr>sch_store := s1\<rparr>))"
    unfolding assms(6) claim snd_conv execution_error_def p1_def by (simp split: option.split)
  have "mem_inv (sch_store (sched\<lparr>sch_store := s1\<rparr>))"
    and "mem_jobs_of (sch_store (sched\<lparr>sch_store := s1\<rparr>)) (ID job) = Some (claimed_by (clk 1) ?w j)"
    using inv1 jobs1 by simp_all
  from mem_process_claimed [OF assms(1) this run err] show ?thesis
    by (auto simp: jobs1 reported_state_def)
qed


text \<open>
  C36: processing a waiting job of the in-memory store, from the claim to the report, for every
  handler, every sequence of calls it makes to its context and every way it ends, panics and
  missing handlers included: the attempt is counted, the result is stored, and the job ends as
  completed exactly when the handler returned no error, as retrying exactly when the error is
  temporary and attempts are left, and otherwise as failed or, without attempts, as a dead
  letter; no other job is touched.
\<close>

theorem processJob_outcome:
  assumes "permutes_entries ord" and "mem_inv (sch_store sched)"
    and "mem_jobs_of (sch_store sched) (ID job) = Some j" and "is_pending j"
    and "processJob (memory_store ord) cvt clk job p sched = (p', sched')"
    and "err = execution_error (memory_store ord) clk job p
      (snd (snd (ClaimJob (memory_store ord) (clk 1) (ID job) (WorkerConfigID (pool_config p))
        (sch_store sched))))"
  shows "\<exists>j' r. mem_jobs_of (sch_store sched') = (mem_jobs_of (sch_store sched))(ID job \<mapsto> j') \<and>
    map_of (mem_results (sch_store sched')) (ID job) = Some r \<and> Success r = (err = None) \<and>
    Attempt j' = wrap64 (Attempt j + 1) \<and>
    State j' = reported_state err (j\<lparr>Attempt := wrap64 (Attempt j + 1)\<rparr>) \<and>
    (case err of None \<Rightarrow> True | Some e \<Rightarrow> LastError j' = Error e)"
  using mem_processJob [OF assms] by blast

text \<open>A pool with one registered handler.\<close>

definition example_pool :: "handler \<Rightarrow> SimplePool" where
  "example_pool h = (case NewSimplePool ''w1'' None of
     Returns p \<Rightarrow> RegisterHandler '''' h p | Panics s \<Rightarrow> undefined)"

lemma example_pool_simps [simp]:
  "handlers (example_pool h) = [('''', h)]" "WorkerConfigID (pool_config (example_pool h)) = ''w1''"
  by (simp_all add: example_pool_def NewSimplePool_def DefaultWorkerConfig_def RegisterHandler_def
      int64_range_def)

theorem processJob_outcome_witness:
  "let job = example_job 1 JobStateScheduled 0;
     h = (\<lambda>j d. Checkpoint ''half'' (\<lambda>e. Panic ''boom'' ''stack''));
     sched' = snd (processJob (memory_store rev) cvt_amd64 (\<lambda>_. 100) job (example_pool h)
       (example_sched [job]))
   in \<exists>j'. mem_jobs_of (sch_store sched') 1 = Some j' \<and> State j' = JobStateFailed \<and> Attempt j' = 1 \<and>
     LastError j' = ''panic: boom'' @ [CHR 0x0A] @ ''stack''"
proof -
  let ?job = "example_job 1 JobStateScheduled 0"
  let ?h = "\<lambda>j d. Checkpoint ''half'' (\<lambda>e. Panic ''boom'' ''stack'')"
  let ?p = "example_pool ?h" and ?sched = "example_sched [?job]"
  let ?e = "PermanentError (''panic: boom'' @ [CHR 0x0A] @ ''stack'') None"
  obtain p' sched' where run: "processJob (memory_store rev) cvt_amd64 (\<lambda>_. 100) ?job ?p ?sched =
      (p', sched')"
    by (cases "processJob (memory_store rev) cvt_amd64 (\<lambda>_. 100) ?job ?p ?sched")
  have inv: "mem_inv (sch_store ?sched)" by simp
  have job: "mem_jobs_of (sch_store ?sched) (ID ?job) = Some ?job"
    by (simp add: mem_jobs_of_def)
  have type: "JobType ?job = ''''" by simp
  have exec: "execution_error (memory_store rev) (\<lambda>_. 100) ?job ?p s = Some ?e" for s
    by (simp add: execution_error_def executeWithRecovery_def jc_Checkpoint_def
        mem_SaveCheckpoint_def)
  have "wrap64 1 = 1" by (simp add: int64_range_def)
  with processJob_outcome [OF permutes_entries_rev inv job _ run refl] run show ?thesis
    unfolding exec by (auto simp: is_pending_def reported_state_def)
qed

text \<open>
  C37: copies of a job never run twice: after a waiting job has been processed, processing any
  other copy of it, as the scheduler may send several, changes neither the store nor the
  counters of successes and failures, until something makes the job waiting again.
\<close>

theorem processJob_once:
  assumes "permutes_entries ord" and "mem_inv (sch_store sched)"
    and "mem_jobs_of (sch_store sched) (ID job) = Some j" and "is_pending j"
    and "processJob (memory_store ord) cvt clk job p sched = (p1, sched1)"
    and "ID copy = ID job"
    and "processJob (memory_store ord) cvt clk' copy p1 sched1 = (p2, sched2)"
  shows "sched2 = sched1 \<and> succeeded p2 = succeeded p1 \<and> pool_failed p2 = pool_failed p1"
proof -
  let ?j = "j\<lparr>Attempt := wrap64 (Attempt j + 1)\<rparr>"
  note store = mem_job_store [OF assms(1)]
  from mem_processJob [OF assms(1-5) refl] obtain err j'
    where inv1: "mem_inv (sch_store sched1)"
      and "mem_jobs_of (sch_store sched1) = (mem_jobs_of (sch_store sched))(ID job \<mapsto> j')"
      and "State j' = reported_state err ?j"
    by blast
  then have idle: "\<forall>k. mem_jobs_of (sch_store sched1) (ID copy) = Some k \<longrightarrow> \<not> is_pending k"
    using reported_not_pending [of j' err ?j] assms(6) by auto
  from job_store.processJob_refused [OF store inv1 idle assms(7)]
    job_store.processJob_refused_counters [OF store inv1 idle assms(7)]
  show ?thesis by blast
qed

theorem processJob_once_witness:
  "let job = example_job 1 JobStateScheduled 0;
     p = example_pool (\<lambda>j d. Return None);
     (p1, sched1) = processJob (memory_store rev) cvt_amd64 (\<lambda>_. 100) job p (example_sched [job])
   in snd (processJob (memory_store rev) cvt_amd64 (\<lambda>_. 200) job p1 sched1) = sched1"
proof -
  let ?job = "example_job 1 JobStateScheduled 0" and ?p = "example_pool (\<lambda>j d. Return None)"
  let ?sched = "example_sched [?job]"
  obtain p1 sched1 where run: "processJob (memory_store rev) cvt_amd64 (\<lambda>_. 100) ?job ?p ?sched =
      (p1, sched1)"
    by (cases "processJob (memory_store rev) cvt_amd64 (\<lambda>_. 100) ?job ?p ?sched")
  obtain p2 sched2 where again: "processJob (memory_store rev) cvt_amd64 (\<lambda>_. 200) ?job p1 sched1 =
      (p2, sched2)"
    by (cases "processJob (memory_store rev) cvt_amd64 (\<lambda>_. 200) ?job p1 sched1")
  have inv: "mem_inv (sch_store ?sched)" by simp
  have job: "mem_jobs_of (sch_store ?sched) (ID ?job) = Some ?job" by (simp add: mem_jobs_of_def)
  from processJob_once [OF permutes_entries_rev inv job _ run refl again] run again
  show ?thesis by (simp add: is_pending_def)
qed

section \<open>Counters and the dispatcher\<close>

text \<open>
  Each processed job counts once: the number of processed jobs grows by one, and either
  exactly one of the counters of successes and failures does, or the job was not claimed and
  neither does; afterwards no worker is counted as active for it.
\<close>

theorem processJob_counters:
  assumes "processJob ops cvt clk job p sched = (p', sched')"
  shows "processed p' = wrap64 (processed p + 1) \<and> activeCount p' = activeCount p \<and>
    (succeeded p', pool_failed p') \<in> {(succeeded p, pool_failed p),
      (wrap64 (succeeded p + 1), pool_failed p), (succeeded p, wrap64 (pool_failed p + 1))} \<and>
    map_of (processingIDs p') (ID job) = None \<and> pool_jobCh p' = pool_jobCh p"
  using assms
  by (auto simp: processJob_def process_claimed_def Let_def split: prod.splits option.splits if_splits)

theorem processJob_counters_witness:
  "processed (fst (processJob (memory_store rev) cvt_amd64 (\<lambda>_. 100) (example_job 1 JobStateRunning 0)
     (example_pool (\<lambda>j d. Return None)) (example_sched []))) =
   wrap64 (processed (example_pool (\<lambda>j d. Return None)) + 1)"
  using processJob_counters [OF prod.collapse [symmetric], of "memory_store rev" cvt_amd64 "\<lambda>_. 100"
      "example_job 1 JobStateRunning 0" "example_pool (\<lambda>j d. Return None)" "example_sched []"]
  by blast

text \<open>
  A job that the pool refuses is not queued again: the dispatcher's call of \<open>Enqueue\<close>
  changes a counter only, the job leaves the scheduler's channel and enters no other, and
  the store does not change.
\<close>

theorem dispatch_refused:
  assumes "jobCh sched = job # rest" and "Submit job p = (Some e, p')"
  shows "\<exists>sched'. dispatch_round None True clk (d, p, sched) = (d, p', sched') \<and> p' = p \<and>
    jobCh sched' = rest \<and> sch_store sched' = sch_store sched \<and>
    enqueued sched' = wrap64 (enqueued sched + 1)"
proof -
  have "p' = p" using assms(2) by (auto simp: Submit_def split: if_splits)
  then show ?thesis
    using assms
    by (auto simp: dispatch_round_def dispatch_job_def GetNextJob_def Enqueue_def Let_def)
qed

theorem dispatch_refused_witness:
  "\<exists>sched'. dispatch_round None True (\<lambda>_. 1)
      (NewSimpleDispatcher, example_pool (\<lambda>j d. Return None),
       (example_sched [])\<lparr>jobCh := [example_job 1 JobStateScheduled 0]\<rparr>) =
     (NewSimpleDispatcher, example_pool (\<lambda>j d. Return None), sched') \<and> jobCh sched' = []"
proof -
  let ?p = "example_pool (\<lambda>j d. Return None)" and ?job = "example_job 1 JobStateScheduled 0"
  have ch: "jobCh ((example_sched [])\<lparr>jobCh := [?job]\<rparr>) = [?job]" by simp
  have sub: "Submit ?job ?p = (Some (ErrorString ''worker pool not running''), ?p)"
    by (simp add: Submit_def example_pool_def NewSimplePool_def DefaultWorkerConfig_def
        RegisterHandler_def int64_range_def)
  from dispatch_refused [OF ch sub] show ?thesis by blast
qed

end
