(* ===== verification/GQ_Recovery.thy ===== *)
theory GQ_Recovery
  imports GQ_Memory
begin

text \<open>
  The recovery manager (\<open>recovery/manager.go\<close>): the scan for jobs that have been running
  longer than the visibility timeout, over any store, and the life cycle of its loop.
\<close>

section \<open>Configuration and state\<close>

record RecoveryStats =
  StuckJobsRecovered :: int
  OrphanedJobsRecovered :: int
  LastRecoveryTime :: instant
  LastRecoveryDuration :: duration
  RecoveryHealthy :: bool

record RecoveryConfig =
  ScanInterval :: duration
  RecoveryVisibilityTimeout :: duration
  RecoveryBatchSize :: int

definition DefaultRecoveryConfig :: RecoveryConfig where
  "DefaultRecoveryConfig = \<lparr>ScanInterval = 1 * Minute, RecoveryVisibilityTimeout = 5 * Minute,
     RecoveryBatchSize = 100\<rparr>"

record 's SimpleRecoveryManager =
  rec_store :: 's
  rec_config :: RecoveryConfig
  rec_running :: int
  rec_stopCh_closed :: bool
  rec_stats :: RecoveryStats
  recovery_loops :: nat

definition NewSimpleRecoveryManager ::
    "'s \<Rightarrow> RecoveryConfig option \<Rightarrow> 's SimpleRecoveryManager" where
  "NewSimpleRecoveryManager st config =
     \<lparr>rec_store = st,
      rec_config = (case config of None \<Rightarrow> DefaultRecoveryConfig | Some c \<Rightarrow> c),
      rec_running = 0, rec_stopCh_closed = False,
      rec_stats = \<lparr>StuckJobsRecovered = 0, OrphanedJobsRecovered = 0, LastRecoveryTime = 0,
        LastRecoveryDuration = 0, RecoveryHealthy = True\<rparr>,
      recovery_loops = 0\<rparr>"

definition rec_Start ::
    "'s SimpleRecoveryManager \<Rightarrow> gerror option \<times> 's SimpleRecoveryManager" where
  "rec_Start r =
     (if rec_running r \<noteq> 0 then (None, r)
      else (None, r\<lparr>rec_running := 1, recovery_loops := recovery_loops r + 1\<rparr>))"

definition rec_Stop ::
    "'s SimpleRecoveryManager \<Rightarrow> (gerror option \<times> 's SimpleRecoveryManager) go_result" where
  "rec_Stop r =
     (if rec_running r \<noteq> 1 then Returns (None, r)
      else if rec_stopCh_closed r then Panics ''close of closed channel''
      else Returns (None, r\<lparr>rec_running := 0, rec_stopCh_closed := True\<rparr>))"

section \<open>Recovering stuck jobs\<close>

text \<open>What the scan makes of a stuck job; \<open>t\<close> and \<open>u\<close> are its two clock readings.\<close>

definition recovered_job :: "instant \<Rightarrow> instant \<Rightarrow> Job \<Rightarrow> Job" where
  "recovered_job t u job =
     (if Attempt job < MaxAttempts job
      then job\<lparr>State := JobStateRetrying, WorkerID := '''',
             ScheduledAt := t + wrap64 (wrap64 (Attempt job * Second) * 10)\<rparr>
      else job\<lparr>State := JobStateDeadLetter, CompletedAt := t,
             LastError := ''job exceeded visibility timeout''\<rparr>)\<lparr>UpdatedAt := u\<rparr>"

text \<open>
  The loop: an update that fails is logged and skipped. It returns the number of recovered
  jobs, the counter of the statistics and the store.
\<close>

fun recover_jobs ::
    "'s JobStore \<Rightarrow> clock \<Rightarrow> Job list \<Rightarrow> int \<Rightarrow> int \<Rightarrow> 's \<Rightarrow> int \<times> int \<times> 's" where
  "recover_jobs ops clk [] recovered stuck s = (recovered, stuck, s)"
| "recover_jobs ops clk (job # jobs) recovered stuck s =
     (let (_, err, s') = Update ops (clk 2) (recovered_job (clk 0) (clk 1) job) s
      in if err \<noteq> None then recover_jobs ops (later 3 clk) jobs recovered stuck s'
         else recover_jobs ops (later 3 clk) jobs (recovered + 1) (wrap64 (stuck + 1)) s')"

definition RecoverStuckJobs ::
    "'s JobStore \<Rightarrow> clock \<Rightarrow> 's SimpleRecoveryManager \<Rightarrow>
       int \<times> gerror option \<times> 's SimpleRecoveryManager" where
  "RecoverStuckJobs ops clk r =
     (let start = clk 0
      in case GetStuck ops (clk 1) (RecoveryVisibilityTimeout (rec_config r)) (rec_store r) of
           Inl e \<Rightarrow> (0, Some e, r)
         | Inr jobs \<Rightarrow>
             (let (recovered, stuck, s') = recover_jobs ops (later 2 clk) jobs 0
                    (StuckJobsRecovered (rec_stats r)) (rec_store r)
              in (recovered, None,
                  r\<lparr>rec_store := s', rec_stats := (rec_stats r)\<lparr>StuckJobsRecovered := stuck,
                      LastRecoveryTime := start,
                      LastRecoveryDuration := time_Sub (clk (2 + 3 * length jobs)) start\<rparr>\<rparr>)))"

definition RecoverOrphanedJobs ::
    "'s JobStore \<Rightarrow> clock \<Rightarrow> 's SimpleRecoveryManager \<Rightarrow>
       int \<times> gerror option \<times> 's SimpleRecoveryManager" where
  "RecoverOrphanedJobs ops clk r = RecoverStuckJobs ops clk r"

definition rec_IsHealthy :: "'s SimpleRecoveryManager \<Rightarrow> bool" where
  "rec_IsHealthy r \<longleftrightarrow> rec_running r = 1"

definition rec_Stats :: "'s SimpleRecoveryManager \<Rightarrow> RecoveryStats" where
  "rec_Stats r = (rec_stats r)\<lparr>RecoveryHealthy := rec_IsHealthy r\<rparr>"

section \<open>What a scan does\<close>

lemma recovered_job_simps [simp]:
  "ID (recovered_job t u j) = ID j" "Attempt (recovered_job t u j) = Attempt j"
  "MaxAttempts (recovered_job t u j) = MaxAttempts j" "JobType (recovered_job t u j) = JobType j"
  "State (recovered_job t u j) =
     (if Attempt j < MaxAttempts j then JobStateRetrying else JobStateDeadLetter)"
  by (simp_all add: recovered_job_def)

context job_store
begin

text \<open>
  Over jobs as they are stored, the loop leaves each of them either untouched or recovered, and
  touches nothing else. The count is the number of recovered ones.
\<close>

lemma recover_jobs_effect:
  assumes "inv s" and "distinct (map ID js)" and "\<forall>j \<in> set js. jobs_of s (ID j) = Some j"
    and "recover_jobs ops clk js n stuck s = (n', stuck', s')"
  shows "\<exists>done. done \<subseteq> ID ` set js \<and> n' = n + int (card done) \<and> inv s' \<and>
    (\<forall>i. i \<notin> done \<longrightarrow> jobs_of s' i = jobs_of s i) \<and>
    (\<forall>j \<in> set js. ID j \<in> done \<longrightarrow>
       (\<exists>t u v. jobs_of s' (ID j) = Some ((recovered_job t u j)\<lparr>UpdatedAt := v\<rparr>))) \<and>
    ((\<forall>s j. storable s j) \<longrightarrow> done = ID ` set js)"
  using assms
proof (induction js arbitrary: clk n stuck s)
  case Nil
  then show ?case by (intro exI [of _ "{}"]) simp
next
  case (Cons j js)
  let ?r = "recovered_job (clk 0) (clk 1) j"
  obtain j' e s1 where upd: "Update ops (clk 2) ?r s = (j', e, s1)"
    by (cases "Update ops (clk 2) ?r s") auto
  have stored: "jobs_of s (ID ?r) \<noteq> None" using Cons.prems(3) by simp
  from Cons.prems(1) upd show ?case
  proof (cases rule: Update_cases)
    case ok
    have keep: "\<forall>k \<in> set js. jobs_of s1 (ID k) = Some k"
      using Cons.prems(2,3) ok(5) by (auto simp: image_iff)
    have rec: "recover_jobs ops (later 3 clk) js (n + 1) (wrap64 (stuck + 1)) s1 = (n', stuck', s')"
      using Cons.prems(4) upd ok(1) by simp
    from Cons.IH [OF ok(2) _ keep rec] Cons.prems(2) obtain D where
      D: "D \<subseteq> ID ` set js" "n' = n + 1 + int (card D)" "inv s'"
        "\<forall>i. i \<notin> D \<longrightarrow> jobs_of s' i = jobs_of s1 i"
        "\<forall>j \<in> set js. ID j \<in> D \<longrightarrow>
           (\<exists>t u v. jobs_of s' (ID j) = Some ((recovered_job t u j)\<lparr>UpdatedAt := v\<rparr>))"
        "(\<forall>s j. storable s j) \<longrightarrow> D = ID ` set js"
      by auto
    have new: "ID j \<notin> D" using D(1) Cons.prems(2) by auto
    have "finite D" using D(1) by (rule finite_subset) simp
    with new D(2) have card: "n' = n + int (card (insert (ID j) D))" by simp
    have here: "jobs_of s' (ID j) = Some (?r\<lparr>UpdatedAt := clk 2\<rparr>)" using D(4) new ok(5) by simp
    show ?thesis
    proof (intro exI [of _ "insert (ID j) D"] conjI)
      show "insert (ID j) D \<subseteq> ID ` set (j # js)" using D(1) by auto
      show "\<forall>i. i \<notin> insert (ID j) D \<longrightarrow> jobs_of s' i = jobs_of s i" using D(4) ok(5) by simp
      show "\<forall>k \<in> set (j # js). ID k \<in> insert (ID j) D \<longrightarrow>
          (\<exists>t u v. jobs_of s' (ID k) = Some ((recovered_job t u k)\<lparr>UpdatedAt := v\<rparr>))"
        using here D(5) Cons.prems(2) by (auto simp: image_iff)
      show "(\<forall>s j. storable s j) \<longrightarrow> insert (ID j) D = ID ` set (j # js)" using D(6) by simp
    qed (use card D(3) in simp_all)
  next
    case (err x)
    have rec: "recover_jobs ops (later 3 clk) js n stuck s = (n', stuck', s')"
      using Cons.prems(4) upd err by simp
    have "\<not> (\<forall>s j. storable s j)"
      using Update_succeeds [OF Cons.prems(1) stored, of "clk 2"] upd err(1) by auto
    moreover obtain D where
      D: "D \<subseteq> ID ` set js" "n' = n + int (card D)" "inv s'"
        "\<forall>i. i \<notin> D \<longrightarrow> jobs_of s' i = jobs_of s i"
        "\<forall>j \<in> set js. ID j \<in> D \<longrightarrow>
           (\<exists>t u v. jobs_of s' (ID j) = Some ((recovered_job t u j)\<lparr>UpdatedAt := v\<rparr>))"
      using Cons.IH [OF Cons.prems(1) _ _ rec] Cons.prems(2,3) by auto
    moreover have "ID j \<notin> D" using D(1) Cons.prems(2) by auto
    ultimately show ?thesis by (intro exI [of _ D]) auto
  qed
qed

end

text \<open>
  C38: a recovery scan over a store that can write takes exactly the jobs that are stuck. Every
  running job that started before the visibility timeout leaves the running state: it waits
  for a retry, without a worker, while attempts are left and is a dead letter otherwise; no
  other job is touched, in particular none that started later; and the count returned is the
  number of jobs taken.
\<close>

theorem RecoverStuckJobs_exact:
  assumes "job_store ops sinv storable jobs_of results_of checkpoints_of idem_of"
    and "sinv (rec_store r)" and "\<forall>s j. storable s j"
    and "RecoverStuckJobs ops clk r = (n, err, r')"
    and "cutoff = ago (clk 1) (RecoveryVisibilityTimeout (rec_config r))"
  shows "err = None \<and> (\<exists>taken. n = int (card taken) \<and>
    (\<forall>i j. jobs_of (rec_store r) i = Some j \<longrightarrow> State j = JobStateRunning \<longrightarrow> StartedAt j \<noteq> 0 \<longrightarrow>
       StartedAt j < cutoff \<longrightarrow> i \<in> taken) \<and>
    (\<forall>i. i \<notin> taken \<longrightarrow> jobs_of (rec_store r') i = jobs_of (rec_store r) i) \<and>
    (\<forall>i \<in> taken. \<exists>j j'. jobs_of (rec_store r) i = Some j \<and> State j = JobStateRunning \<and>
       StartedAt j < cutoff \<and> jobs_of (rec_store r') i = Some j' \<and> Attempt j' = Attempt j \<and>
       (if Attempt j < MaxAttempts j then State j' = JobStateRetrying \<and> WorkerID j' = ''''
        else State j' = JobStateDeadLetter)))"
proof -
  let ?s = "rec_store r"
  obtain js where js: "GetStuck ops (clk 1) (RecoveryVisibilityTimeout (rec_config r)) ?s = Inr js"
    "distinct (map ID js)"
    and sound: "\<forall>j \<in> set js. jobs_of ?s (ID j) = Some j \<and> State j = JobStateRunning \<and>
      StartedAt j < cutoff"
    and complete: "\<forall>i j. jobs_of ?s i = Some j \<and> State j = JobStateRunning \<and> StartedAt j \<noteq> 0 \<and>
      StartedAt j < cutoff \<longrightarrow> j \<in> set js"
    using job_store.GetStuck [OF assms(1,2), of "clk 1" "RecoveryVisibilityTimeout (rec_config r)"]
    by (auto simp: assms(5))
  obtain stuck s' where rec: "recover_jobs ops (later 2 clk) js 0
      (StuckJobsRecovered (rec_stats r)) ?s = (n, stuck, s')" and eq: "err = None" "rec_store r' = s'"
    using assms(4) js(1) by (auto simp: RecoverStuckJobs_def Let_def split: prod.splits)
  have stored: "\<forall>j \<in> set js. jobs_of ?s (ID j) = Some j" using sound by blast
  from job_store.recover_jobs_effect [OF assms(1,2) js(2) stored rec] assms(3) obtain taken where
    D: "taken = ID ` set js" "n = 0 + int (card taken)"
      "\<forall>i. i \<notin> taken \<longrightarrow> jobs_of s' i = jobs_of ?s i"
      "\<forall>j \<in> set js. ID j \<in> taken \<longrightarrow>
         (\<exists>t u v. jobs_of s' (ID j) = Some ((recovered_job t u j)\<lparr>UpdatedAt := v\<rparr>))"
    by blast
  have in_taken: "i \<in> taken" if "jobs_of ?s i = Some j" "State j = JobStateRunning"
      "StartedAt j \<noteq> 0" "StartedAt j < cutoff" for i j
    using that complete job_store.jobs_ID [OF assms(1,2) that(1)] D(1) by force
  have each: "\<exists>j j'. jobs_of ?s i = Some j \<and> State j = JobStateRunning \<and>
       StartedAt j < cutoff \<and> jobs_of s' i = Some j' \<and> Attempt j' = Attempt j \<and>
       (if Attempt j < MaxAttempts j then State j' = JobStateRetrying \<and> WorkerID j' = ''''
        else State j' = JobStateDeadLetter)" if "i \<in> taken" for i
  proof -
    from that D(1) obtain j where j: "j \<in> set js" "i = ID j" by blast
    with D(1,4) obtain t u v where "jobs_of s' (ID j) = Some ((recovered_job t u j)\<lparr>UpdatedAt := v\<rparr>)"
      by blast
    with j sound show ?thesis by (auto simp: recovered_job_def)
  qed
  show ?thesis
    unfolding eq using in_taken each D(2,3) by (intro conjI refl exI [of _ taken]) simp_all
qed

theorem RecoverStuckJobs_exact_witness:
  "let old = (example_job 1 JobStateRunning 0)\<lparr>StartedAt := 10\<rparr>;
     fresh = (example_job 2 JobStateRunning 0)\<lparr>StartedAt := 900 * Second\<rparr>;
     r = NewSimpleRecoveryManager (example_store [old, fresh]) None
   in \<exists>n err r' j'. RecoverStuckJobs (memory_store (\<lambda>m. m)) (\<lambda>_. 1000 * Second) r = (n, err, r') \<and>
     mem_jobs_of (rec_store r') 1 = Some j' \<and> State j' = JobStateRetrying \<and>
     mem_jobs_of (rec_store r') 2 = Some fresh"
proof -
  let ?old = "(example_job 1 JobStateRunning 0)\<lparr>StartedAt := 10\<rparr>"
  let ?fresh = "(example_job 2 JobStateRunning 0)\<lparr>StartedAt := 900 * Second\<rparr>"
  let ?r = "NewSimpleRecoveryManager (example_store [?old, ?fresh]) None"
  obtain n err r' where c: "RecoverStuckJobs (memory_store (\<lambda>m. m)) (\<lambda>_. 1000 * Second) ?r = (n, err, r')"
    by (cases "RecoverStuckJobs (memory_store (\<lambda>m. m)) (\<lambda>_. 1000 * Second) ?r") auto
  have inv: "mem_inv (rec_store ?r)" by (simp add: NewSimpleRecoveryManager_def)
  have old: "mem_jobs_of (rec_store ?r) 1 = Some ?old"
    and fresh: "mem_jobs_of (rec_store ?r) 2 = Some ?fresh"
    by (simp_all add: NewSimpleRecoveryManager_def mem_jobs_of_def example_store_def)
  have cut: "ago (1000 * Second) (RecoveryVisibilityTimeout (rec_config ?r)) = 700 * Second"
    by (simp add: ago_def NewSimpleRecoveryManager_def DefaultRecoveryConfig_def int64_range_def)
  from RecoverStuckJobs_exact [OF mem.job_store_axioms inv _ c refl] obtain taken where
    a: "\<forall>i j. mem_jobs_of (rec_store ?r) i = Some j \<longrightarrow> State j = JobStateRunning \<longrightarrow>
       StartedAt j \<noteq> 0 \<longrightarrow> StartedAt j < 700 * Second \<longrightarrow> i \<in> taken"
    and b: "\<forall>i. i \<notin> taken \<longrightarrow> mem_jobs_of (rec_store r') i = mem_jobs_of (rec_store ?r) i"
    and d: "\<forall>i \<in> taken. \<exists>j j'. mem_jobs_of (rec_store ?r) i = Some j \<and> State j = JobStateRunning \<and>
       StartedAt j < 700 * Second \<and> mem_jobs_of (rec_store r') i = Some j' \<and> Attempt j' = Attempt j \<and>
       (if Attempt j < MaxAttempts j then State j' = JobStateRetrying \<and> WorkerID j' = ''''
        else State j' = JobStateDeadLetter)"
    unfolding cut by blast
  have "1 \<in> taken" using a old by simp
  moreover have "2 \<notin> taken" using d fresh by force
  ultimately show ?thesis using b d old fresh c by fastforce
qed

text \<open>
  A recovered job gets its retry time ten seconds per used attempt after the scan, as long
  as that fits 64 bits; the delay does not use the backoff settings of the job.
\<close>

theorem recovered_job_schedule:
  assumes "0 \<le> Attempt j" and "Attempt j < MaxAttempts j" and "Attempt j * 10 * Second < 2 ^ 63"
  shows "ScheduledAt (recovered_job t u j) = t + Attempt j * (10 * Second)"
  using assms by (simp add: recovered_job_def int64_range_def)

theorem recovered_job_schedule_witness:
  "ScheduledAt (recovered_job 100 101 ((example_job 1 JobStateRunning 0)\<lparr>Attempt := 2\<rparr>)) =
     100 + 20 * Second"
  using recovered_job_schedule [of "(example_job 1 JobStateRunning 0)\<lparr>Attempt := 2\<rparr>" 100 101]
  by simp


section \<open>The loop\<close>

text \<open>
  \<open>runRecoveryLoop\<close>: a tick scans, and a done context or a closed channel ends it; the errors
  of a scan are dropped.
\<close>

inductive rec_step ::
    "'s JobStore \<Rightarrow> 's SimpleRecoveryManager \<Rightarrow> 's SimpleRecoveryManager \<Rightarrow> bool" for ops where
  scan_tick: "0 < recovery_loops r \<Longrightarrow> RecoverStuckJobs ops clk r = (n, err, r') \<Longrightarrow> rec_step ops r r'"
| scan_exit: "0 < recovery_loops r \<Longrightarrow> ctx_done \<or> rec_stopCh_closed r \<Longrightarrow>
     rec_step ops r (r\<lparr>recovery_loops := recovery_loops r - 1\<rparr>)"

inductive rec_steps ::
    "'s JobStore \<Rightarrow> 's SimpleRecoveryManager \<Rightarrow> 's SimpleRecoveryManager \<Rightarrow> bool" for ops where
  rec_refl: "rec_steps ops r r"
| rec_more: "rec_steps ops r r1 \<Longrightarrow> rec_step ops r1 r2 \<Longrightarrow> rec_steps ops r r2"

context job_store
begin

lemma rec_step_inactive:
  assumes "rec_step ops r r'" and "inv (rec_store r)"
  shows "inv (rec_store r') \<and> (\<forall>i j. jobs_of (rec_store r) i = Some j \<longrightarrow> State j \<noteq> JobStateRunning \<longrightarrow>
    jobs_of (rec_store r') i = Some j)"
  using assms(1)
proof cases
  case (scan_tick clk n err)
  let ?s = "rec_store r"
  obtain js where js: "GetStuck ops (clk 1) (RecoveryVisibilityTimeout (rec_config r)) ?s = Inr js"
    "distinct (map ID js)" "\<forall>j \<in> set js. jobs_of ?s (ID j) = Some j \<and> State j = JobStateRunning"
    using GetStuck [OF assms(2)] by blast
  obtain stuck s' where rec: "recover_jobs ops (later 2 clk) js 0 (StuckJobsRecovered (rec_stats r)) ?s =
      (n, stuck, s')" and eq: "rec_store r' = s'"
    using scan_tick(2) js(1) by (auto simp: RecoverStuckJobs_def Let_def split: prod.splits)
  have "\<forall>j \<in> set js. jobs_of ?s (ID j) = Some j" using js(3) by blast
  from recover_jobs_effect [OF assms(2) js(2) this rec] obtain D where
    D: "D \<subseteq> ID ` set js" "inv s'" "\<forall>i. i \<notin> D \<longrightarrow> jobs_of s' i = jobs_of ?s i" by blast
  have "i \<notin> D" if "jobs_of ?s i = Some j" "State j \<noteq> JobStateRunning" for i j
    using that D(1) js(3) by force
  with D(2,3) eq show ?thesis by auto
next
  case (scan_exit ctx_done)
  with assms(2) show ?thesis by simp
qed

lemma rec_steps_inactive:
  assumes "rec_steps ops r r'" and "inv (rec_store r)"
  shows "inv (rec_store r') \<and> (\<forall>i j. jobs_of (rec_store r) i = Some j \<longrightarrow> State j \<noteq> JobStateRunning \<longrightarrow>
    jobs_of (rec_store r') i = Some j)"
  using assms
proof (induction rule: rec_steps.induct)
  case (rec_more r r1 r2)
  from rec_more.IH [OF rec_more.prems] rec_step_inactive [OF rec_more.hyps(2)] show ?case by blast
qed simp

end

text \<open>
  However long the recovery manager's loop runs, it changes no job that is not running; so it
  takes up no job twice, since one that it has recovered is not running any more.
\<close>

theorem recovery_loop_inactive:
  assumes "job_store ops sinv storable jobs_of results_of checkpoints_of idem_of"
    and "sinv (rec_store r)" and "rec_steps ops r r'"
    and "jobs_of (rec_store r) i = Some j" and "State j \<noteq> JobStateRunning"
  shows "sinv (rec_store r') \<and> jobs_of (rec_store r') i = Some j"
  using job_store.rec_steps_inactive [OF assms(1,3,2)] assms(4,5) by blast

end
