(* ===== verification/GQ_Security.thy ===== *)
theory GQ_Security
  imports GQ_Prelude
begin

text \<open>
  Authentication and authorization (\<open>security/auth.go\<close>): principals, roles and permissions,
  the API key authenticator, the role-based authorizer and its middleware.
\<close>

section \<open>Principals, roles, credentials\<close>

datatype PrincipalType =
    PrincipalTypeUser
  | PrincipalTypeService
  | PrincipalTypeSystem
  | PrincipalTypeOther string

record Principal =
  PrincipalID :: string
  PrincipalKind :: PrincipalType
  PrincipalName :: string
  Roles :: "string list"
  PrincipalMetadata :: "(string, string) gomap option"
  ExpiresAt :: instant

record Permission =
  Resource :: string
  Action :: string

record Role =
  RoleName :: string
  Permissions :: "Permission list"

definition PermissionJobSubmit :: Permission where
  "PermissionJobSubmit = \<lparr>Resource = ''jobs'', Action = ''submit''\<rparr>"

definition PermissionJobRead :: Permission where
  "PermissionJobRead = \<lparr>Resource = ''jobs'', Action = ''read''\<rparr>"

definition PermissionJobCancel :: Permission where
  "PermissionJobCancel = \<lparr>Resource = ''jobs'', Action = ''cancel''\<rparr>"

definition PermissionJobRetry :: Permission where
  "PermissionJobRetry = \<lparr>Resource = ''jobs'', Action = ''retry''\<rparr>"

definition PermissionJobDelete :: Permission where
  "PermissionJobDelete = \<lparr>Resource = ''jobs'', Action = ''delete''\<rparr>"

definition PermissionStatsRead :: Permission where
  "PermissionStatsRead = \<lparr>Resource = ''stats'', Action = ''read''\<rparr>"

definition PermissionAdminAll :: Permission where
  "PermissionAdminAll = \<lparr>Resource = ''*'', Action = ''*''\<rparr>"

lemmas permission_defs =
  PermissionJobSubmit_def PermissionJobRead_def PermissionJobCancel_def PermissionJobRetry_def
  PermissionJobDelete_def PermissionStatsRead_def PermissionAdminAll_def

datatype CredentialType =
    CredentialTypeAPIKey
  | CredentialTypeToken
  | CredentialTypeBasic
  | CredentialTypeOther string

record Credentials =
  CredentialKind :: CredentialType
  APIKey :: string
  Token :: string
  Username :: string
  Password :: string

datatype AuthError = AuthError string

definition ErrInvalidCredentials :: AuthError where
  "ErrInvalidCredentials = AuthError ''invalid credentials''"

definition ErrMissingCredentials :: AuthError where
  "ErrMissingCredentials = AuthError ''missing credentials''"

definition ErrUnauthorized :: AuthError where
  "ErrUnauthorized = AuthError ''unauthorized''"

definition ErrForbidden :: AuthError where
  "ErrForbidden = AuthError ''forbidden''"

fun auth_Error :: "AuthError \<Rightarrow> string" where
  "auth_Error (AuthError message) = message"

section \<open>API keys\<close>

text \<open>
  A request as far as this package reads it: the first value of each header (the empty string
  when it is absent), and the principal stored in its context, if any.
\<close>

record http_request =
  Header_Get :: "string \<Rightarrow> string"
  ctx_principal :: "Principal option"

text \<open>
  The map's values are pointers, so an entry can be nil (\<open>None\<close>). \<open>ord\<close> is the order the
  loop visits the map in.
\<close>

type_synonym api_keys = "(string, Principal option) gomap"

fun first_match :: "string \<Rightarrow> (string \<times> Principal option) list \<Rightarrow> AuthError + Principal option" where
  "first_match apiKey [] = Inl ErrInvalidCredentials"
| "first_match apiKey ((key, who) # entries) =
     (if apiKey = key then Inr who else first_match apiKey entries)"

definition Authenticate ::
    "(string, Principal option) range_order \<Rightarrow> api_keys \<Rightarrow> Credentials \<Rightarrow>
       AuthError + Principal option" where
  "Authenticate ord keys credentials =
     (if CredentialKind credentials \<noteq> CredentialTypeAPIKey then Inl ErrInvalidCredentials
      else first_match (APIKey credentials) (ord keys))"

definition has_prefix :: "string \<Rightarrow> string \<Rightarrow> bool" where
  "has_prefix s pre \<longleftrightarrow> take (length pre) s = pre"

definition trim_prefix :: "string \<Rightarrow> string \<Rightarrow> string" where
  "trim_prefix s pre = (if has_prefix s pre then drop (length pre) s else s)"

definition request_key :: "http_request \<Rightarrow> string" where
  "request_key r =
     (let apiKey = Header_Get r ''X-API-Key''
      in if apiKey \<noteq> '''' then apiKey
         else let auth = Header_Get r ''Authorization''
              in if has_prefix auth ''Bearer '' then trim_prefix auth ''Bearer '' else apiKey)"

definition AuthenticateRequest ::
    "(string, Principal option) range_order \<Rightarrow> api_keys \<Rightarrow> http_request \<Rightarrow>
       AuthError + Principal option" where
  "AuthenticateRequest ord keys r =
     (let apiKey = request_key r
      in if apiKey = '''' then Inl ErrMissingCredentials
         else Authenticate ord keys \<lparr>CredentialKind = CredentialTypeAPIKey, APIKey = apiKey,
                Token = '''', Username = '''', Password = ''''\<rparr>)"

section \<open>Authorization\<close>

type_synonym authorizer = "(string, Role) gomap"

definition NewSimpleAuthorizer :: authorizer where
  "NewSimpleAuthorizer =
     [(''admin'', \<lparr>RoleName = ''admin'', Permissions = [PermissionAdminAll]\<rparr>),
      (''operator'', \<lparr>RoleName = ''operator'', Permissions = [PermissionJobSubmit,
         PermissionJobRead, PermissionJobCancel, PermissionJobRetry, PermissionStatsRead]\<rparr>),
      (''viewer'', \<lparr>RoleName = ''viewer'', Permissions = [PermissionJobRead,
         PermissionStatsRead]\<rparr>)]"

definition matchPermission :: "Permission \<Rightarrow> Permission \<Rightarrow> bool" where
  "matchPermission has required =
     (if Resource has = ''*'' \<and> Action has = ''*'' then True
      else if Resource has \<noteq> Resource required \<and> Resource has \<noteq> ''*'' then False
      else if Action has \<noteq> Action required \<and> Action has \<noteq> ''*'' then False
      else True)"

fun any_role :: "authorizer \<Rightarrow> string list \<Rightarrow> Permission \<Rightarrow> bool" where
  "any_role roles [] permission = False"
| "any_role roles (roleName # names) permission =
     (case map_of roles roleName of
        None \<Rightarrow> any_role roles names permission
      | Some role \<Rightarrow>
          if list_ex (\<lambda>perm. matchPermission perm permission) (Permissions role) then True
          else any_role roles names permission)"

definition Authorize :: "authorizer \<Rightarrow> Principal option \<Rightarrow> Permission \<Rightarrow> bool" where
  "Authorize roles who permission =
     (case who of None \<Rightarrow> False | Some p \<Rightarrow> any_role roles (Roles p) permission)"

definition WithPrincipal :: "Principal option \<Rightarrow> http_request \<Rightarrow> http_request" where
  "WithPrincipal who r = r\<lparr>ctx_principal := who\<rparr>"

definition GetPrincipal :: "http_request \<Rightarrow> Principal option" where
  "GetPrincipal r = ctx_principal r"

text \<open>A middleware answers with an error text and status, or hands the request on.\<close>

datatype 'r served = HttpError string nat | Served 'r

definition AuthorizeRequest ::
    "authorizer \<Rightarrow> Permission \<Rightarrow> (http_request \<Rightarrow> 'r) \<Rightarrow> http_request \<Rightarrow> 'r served" where
  "AuthorizeRequest roles permission next r =
     (let who = GetPrincipal r
      in if who = None then HttpError ''unauthorized'' 401
         else if \<not> Authorize roles who permission then HttpError ''forbidden'' 403
         else Served (next r))"

section \<open>Facts\<close>

lemma first_match_map_of:
  "first_match k es = (case map_of es k of None \<Rightarrow> Inl ErrInvalidCredentials | Some p \<Rightarrow> Inr p)"
  by (induction k es rule: first_match.induct) auto

lemma map_of_permutes:
  assumes "keys_distinct m" and "permutes_entries ord"
  shows "map_of (ord m) = map_of m"
proof
  fix k
  have d: "keys_distinct (ord m)" using permutes_entries_distinct [OF assms(2,1)] .
  have "map_of (ord m) k = Some v \<longleftrightarrow> map_of m k = Some v" for v
    using d assms(1) permutes_entriesD(2) [OF assms(2), of m] by (simp add: map_of_eq_Some_iff)
  then show "map_of (ord m) k = map_of m k" by (metis option.exhaust)
qed

lemma Authenticate_lookup:
  assumes "keys_distinct keys" and "permutes_entries ord"
  shows "Authenticate ord keys c =
    (if CredentialKind c \<noteq> CredentialTypeAPIKey then Inl ErrInvalidCredentials
     else case map_of keys (APIKey c) of None \<Rightarrow> Inl ErrInvalidCredentials | Some p \<Rightarrow> Inr p)"
  by (simp add: Authenticate_def first_match_map_of map_of_permutes [OF assms])

text \<open>
  C40: a request is authenticated as a principal exactly when the key it carries is registered
  for that principal, in whatever order the map of keys is searched: the key is that of the
  \<open>X-API-Key\<close> header or, when that is empty, of a bearer \<open>Authorization\<close> header; a request
  without a key is refused as such, and an empty key is never accepted, even if registered.
  The expiry time of a principal plays no part.
\<close>

theorem AuthenticateRequest_iff:
  assumes "keys_distinct keys" and "permutes_entries ord"
  shows "(AuthenticateRequest ord keys r = Inr p \<longleftrightarrow>
      request_key r \<noteq> '''' \<and> map_of keys (request_key r) = Some p) \<and>
    (AuthenticateRequest ord keys r = Inl ErrMissingCredentials \<longleftrightarrow> request_key r = '''')"
  using Authenticate_lookup [OF assms]
  by (auto simp: AuthenticateRequest_def Let_def ErrInvalidCredentials_def ErrMissingCredentials_def
      split: option.splits)

definition example_request :: "string \<Rightarrow> string \<Rightarrow> http_request" where
  "example_request k a = \<lparr>Header_Get = (\<lambda>h. if h = ''X-API-Key'' then k
     else if h = ''Authorization'' then a else ''''), ctx_principal = None\<rparr>"

definition example_principal :: "string list \<Rightarrow> Principal" where
  "example_principal roles = \<lparr>PrincipalID = ''u1'', PrincipalKind = PrincipalTypeUser,
     PrincipalName = ''u'', Roles = roles, PrincipalMetadata = None, ExpiresAt = 1\<rparr>"

theorem AuthenticateRequest_iff_witness:
  "AuthenticateRequest rev [(''k1'', Some (example_principal [])), (''k2'', None)]
     (example_request '''' ''Bearer k1'') = Inr (Some (example_principal []))"
  using AuthenticateRequest_iff [OF _ permutes_entries_rev,
      of "[(''k1'', Some (example_principal [])), (''k2'', None)]"
      "example_request '''' ''Bearer k1''" "Some (example_principal [])"]
  by (simp add: request_key_def example_request_def has_prefix_def trim_prefix_def)

lemma any_role_iff:
  "any_role roles names permission \<longleftrightarrow>
     (\<exists>name \<in> set names. \<exists>role. map_of roles name = Some role \<and>
        (\<exists>perm \<in> set (Permissions role). matchPermission perm permission))"
  by (induction names) (auto simp: list_ex_iff split: option.splits)

lemma matchPermission_iff:
  "matchPermission has required \<longleftrightarrow>
     (Resource has = ''*'' \<or> Resource has = Resource required) \<and>
     (Action has = ''*'' \<or> Action has = Action required)"
  by (auto simp: matchPermission_def)

text \<open>
  What each of the built-in roles may do, for every permission: an administrator
  everything, an operator everything on jobs except deleting, and the statistics, a viewer
  reading jobs and statistics, and any other role nothing.
\<close>

theorem builtin_roles:
  "Authorize NewSimpleAuthorizer (Some (example_principal [name])) permission \<longleftrightarrow>
     name = ''admin'' \<or>
     (name = ''operator'' \<and>
        (Resource permission, Action permission) \<in> {(''jobs'', ''submit''), (''jobs'', ''read''),
          (''jobs'', ''cancel''), (''jobs'', ''retry''), (''stats'', ''read'')}) \<or>
     (name = ''viewer'' \<and>
        (Resource permission, Action permission) \<in> {(''jobs'', ''read''), (''stats'', ''read'')})"
proof -
  consider "name = ''admin''" | "name = ''operator''" | "name = ''viewer''"
    | "name \<notin> {''admin'', ''operator'', ''viewer''}" by blast
  then show ?thesis
    by cases (simp_all add: Authorize_def example_principal_def NewSimpleAuthorizer_def
        matchPermission_iff permission_defs eq_commute [of _ "Resource permission"]
        eq_commute [of _ "Action permission"], blast?)
qed

text \<open>
  The middleware hands a request on exactly when its context holds a principal one of
  whose roles has a permission that covers the required one; giving a principal more roles
  never takes a permission away.
\<close>

theorem AuthorizeRequest_iff:
  assumes "set (Roles p) \<subseteq> set (Roles q)"
  shows "(AuthorizeRequest roles permission next r = Served (next r) \<longleftrightarrow>
      (\<exists>u name role perm. ctx_principal r = Some u \<and> name \<in> set (Roles u) \<and>
         map_of roles name = Some role \<and> perm \<in> set (Permissions role) \<and>
         (Resource perm = ''*'' \<or> Resource perm = Resource permission) \<and>
         (Action perm = ''*'' \<or> Action perm = Action permission))) \<and>
    (Authorize roles (Some p) permission \<longrightarrow> Authorize roles (Some q) permission)"
proof
  show "AuthorizeRequest roles permission next r = Served (next r) \<longleftrightarrow>
      (\<exists>u name role perm. ctx_principal r = Some u \<and> name \<in> set (Roles u) \<and>
         map_of roles name = Some role \<and> perm \<in> set (Permissions role) \<and>
         (Resource perm = ''*'' \<or> Resource perm = Resource permission) \<and>
         (Action perm = ''*'' \<or> Action perm = Action permission))"
    by (auto simp: AuthorizeRequest_def GetPrincipal_def Authorize_def any_role_iff
        matchPermission_iff Let_def) blast+
  show "Authorize roles (Some p) permission \<longrightarrow> Authorize roles (Some q) permission"
    using assms by (auto simp: Authorize_def any_role_iff)
qed

theorem AuthorizeRequest_iff_witness:
  "AuthorizeRequest NewSimpleAuthorizer PermissionJobRead (\<lambda>r. 7 :: nat)
     (WithPrincipal (Some (example_principal [''viewer''])) (example_request '''' '''')) = Served 7 \<and>
   Authorize NewSimpleAuthorizer (Some (example_principal [''viewer'', ''operator''])) PermissionJobRead"
proof -
  let ?r = "WithPrincipal (Some (example_principal [''viewer''])) (example_request '''' '''')"
  have "set (Roles (example_principal [''viewer''])) \<subseteq>
      set (Roles (example_principal [''viewer'', ''operator'']))"
    by (simp add: example_principal_def)
  note t = AuthorizeRequest_iff [OF this, of NewSimpleAuthorizer PermissionJobRead "\<lambda>r. 7 :: nat" ?r]
  have "Authorize NewSimpleAuthorizer (Some (example_principal [''viewer''])) PermissionJobRead"
    by (simp add: Authorize_def example_principal_def NewSimpleAuthorizer_def matchPermission_def
        permission_defs)
  moreover have "AuthorizeRequest NewSimpleAuthorizer PermissionJobRead (\<lambda>r. 7 :: nat) ?r = Served 7"
    unfolding t [THEN conjunct1]
    by (intro exI [of _ "example_principal [''viewer'']"] exI [of _ "''viewer''"]
        exI [of _ "\<lparr>RoleName = ''viewer'', Permissions = [PermissionJobRead, PermissionStatsRead]\<rparr>"]
        exI [of _ PermissionJobRead])
      (simp add: WithPrincipal_def example_principal_def NewSimpleAuthorizer_def)
  ultimately show ?thesis using t by blast
qed

end
