(* ===== verification/GQ_Metrics.thy ===== *)
theory GQ_Metrics
  imports GQ_Worker "HOL-Library.Signed_Division"
begin

text \<open>
  Metrics and health checks (\<open>observability/metrics.go\<close>): the counters, the average and
  maximum processing time, and the health status of store, scheduler and worker pool.
\<close>

section \<open>Metrics\<close>

record Metrics =
  JobsEnqueued :: int
  MJobsCompleted :: int
  MJobsFailed :: int
  JobsRetried :: int
  JobsByType :: "(string, int) gomap"
  MAvgProcessingTime :: duration
  MMaxProcessingTime :: duration
  QueueDepth :: int
  MUptime :: duration
  MTimestamp :: instant

record SimpleMetrics =
  m_startTime :: instant
  m_enqueued :: int
  m_completed :: int
  m_failed :: int
  m_retried :: int
  totalDuration :: int
  maxDuration :: int
  jobCount :: int
  byType :: "(string, int) gomap"

definition NewSimpleMetrics :: "instant \<Rightarrow> SimpleMetrics" where
  "NewSimpleMetrics t = \<lparr>m_startTime = t, m_enqueued = 0, m_completed = 0, m_failed = 0,
     m_retried = 0, totalDuration = 0, maxDuration = 0, jobCount = 0, byType = []\<rparr>"

text \<open>Reading an absent key of the map gives 0.\<close>

definition type_count :: "(string, int) gomap \<Rightarrow> string \<Rightarrow> int" where
  "type_count m k = (case map_of m k of None \<Rightarrow> 0 | Some n \<Rightarrow> n)"

definition RecordJobEnqueued :: "string \<Rightarrow> int \<Rightarrow> SimpleMetrics \<Rightarrow> SimpleMetrics" where
  "RecordJobEnqueued jobType priority m =
     m\<lparr>m_enqueued := wrap64 (m_enqueued m + 1),
       byType := AList.update jobType (wrap64 (type_count (byType m) jobType + 1)) (byType m)\<rparr>"

text \<open>The compare-and-swap loop, run without interference.\<close>

definition RecordJobCompleted :: "string \<Rightarrow> duration \<Rightarrow> bool \<Rightarrow> SimpleMetrics \<Rightarrow> SimpleMetrics" where
  "RecordJobCompleted jobType d success m =
     (let m1 = (if success then m\<lparr>m_completed := wrap64 (m_completed m + 1)\<rparr>
                else m\<lparr>m_failed := wrap64 (m_failed m + 1)\<rparr>);
          m2 = m1\<lparr>jobCount := wrap64 (jobCount m1 + 1),
                  totalDuration := wrap64 (totalDuration m1 + d)\<rparr>
      in if d \<le> maxDuration m2 then m2 else m2\<lparr>maxDuration := d\<rparr>)"

definition RecordJobRetry :: "string \<Rightarrow> int \<Rightarrow> SimpleMetrics \<Rightarrow> SimpleMetrics" where
  "RecordJobRetry jobType attempt m = m\<lparr>m_retried := wrap64 (m_retried m + 1)\<rparr>"

text \<open>Go's integer division truncates (\<open>sdiv\<close>).\<close>

definition GetMetrics :: "clock \<Rightarrow> SimpleMetrics \<Rightarrow> Metrics" where
  "GetMetrics clk m =
     \<lparr>JobsEnqueued = m_enqueued m, MJobsCompleted = m_completed m, MJobsFailed = m_failed m,
      JobsRetried = m_retried m, JobsByType = byType m,
      MAvgProcessingTime = (if jobCount m > 0 then totalDuration m sdiv jobCount m else 0),
      MMaxProcessingTime = maxDuration m, QueueDepth = 0,
      MUptime = time_Sub (clk 0) (m_startTime m), MTimestamp = clk 1\<rparr>"

section \<open>Health\<close>

record ComponentHealth =
  CHealthy :: bool
  Message :: string
  Latency :: duration

record HealthStatus =
  HHealthy :: bool
  Components :: "(string, ComponentHealth) gomap"
  HTimestamp :: instant

text \<open>Decimal printing, for the verb \<open>%d\<close>.\<close>

fun digits :: "nat \<Rightarrow> string" where
  "digits n = (if n < 10 then [char_of (48 + n)] else digits (n div 10) @ [char_of (48 + n mod 10)])"

declare digits.simps [simp del]

definition fmt_d :: "int \<Rightarrow> string" where
  "fmt_d k = (if k < 0 then CHR ''-'' # digits (nat (- k)) else digits (nat k))"

text \<open>The scheduler and the pool can be nil; both share the checked store in the program.\<close>

definition CheckHealth ::
    "'s JobStore \<Rightarrow> clock \<Rightarrow> 's \<Rightarrow> 's PriorityScheduler option \<Rightarrow> SimplePool option \<Rightarrow>
       HealthStatus" where
  "CheckHealth ops clk s sched pool =
     (let start = clk 1;
          (h1, c1) =
            (case Stats ops (clk 2) s of
               Inl e \<Rightarrow> (False, [(''store'', \<lparr>CHealthy = False,
                   Message = ''failed to get stats: '' @ Error e, Latency = time_Sub (clk 3) start\<rparr>)])
             | Inr st \<Rightarrow> (True, [(''store'', \<lparr>CHealthy = True, Message = '''',
                   Latency = time_Sub (clk 3) start\<rparr>)]));
          (h2, c2) =
            (case sched of
               Some sc \<Rightarrow>
                 (if sched_IsHealthy sc
                  then (h1, AList.update ''scheduler'' \<lparr>CHealthy = True, Message = '''', Latency = 0\<rparr> c1)
                  else (False, AList.update ''scheduler''
                    \<lparr>CHealthy = False, Message = ''scheduler not running'', Latency = 0\<rparr> c1))
             | None \<Rightarrow> (False, AList.update ''scheduler''
                    \<lparr>CHealthy = False, Message = ''scheduler not running'', Latency = 0\<rparr> c1));
          (h3, c3) =
            (case pool of
               Some p \<Rightarrow>
                 (if pool_IsHealthy p
                  then (h2, AList.update ''workers'' \<lparr>CHealthy = True,
                    Message = fmt_d (activeCount p) @ ''/'' @ fmt_d (Concurrency (pool_config p)) @
                      '' active'', Latency = 0\<rparr> c2)
                  else (False, AList.update ''workers''
                    \<lparr>CHealthy = False, Message = ''worker pool not running'', Latency = 0\<rparr> c2))
             | None \<Rightarrow> (False, AList.update ''workers''
                    \<lparr>CHealthy = False, Message = ''worker pool not running'', Latency = 0\<rparr> c2))
      in \<lparr>HHealthy = h3, Components = c3, HTimestamp = clk 0\<rparr>)"

text \<open>The status code and the body that \<open>ServeHTTP\<close> sends as JSON.\<close>

definition health_ServeHTTP ::
    "'s JobStore \<Rightarrow> clock \<Rightarrow> 's \<Rightarrow> 's PriorityScheduler option \<Rightarrow> SimplePool option \<Rightarrow>
       nat \<times> HealthStatus" where
  "health_ServeHTTP ops clk s sched pool =
     (let status = CheckHealth ops clk s sched pool
      in (if \<not> HHealthy status then 503 else 200, status))"

section \<open>Facts\<close>

text \<open>
  The system reports itself healthy, with status 200, exactly when every component it
  lists is healthy, that is, when the store answers and the scheduler and the pool are
  running; a missing or stopped one gives 503 and an entry that says so.
\<close>

theorem health_exact:
  assumes "health_ServeHTTP ops clk s sched pool = (code, status)"
  shows "(code = 200 \<longleftrightarrow> HHealthy status) \<and> (code = 503 \<longleftrightarrow> \<not> HHealthy status) \<and>
    (HHealthy status \<longleftrightarrow> list_all (\<lambda>(name, c). CHealthy c) (Components status)) \<and>
    (HHealthy status \<longleftrightarrow> (\<exists>st. Stats ops (clk 2) s = Inr st) \<and>
       (\<exists>sc. sched = Some sc \<and> sch_running sc = 1) \<and> (\<exists>p. pool = Some p \<and> pool_running p = 1)) \<and>
    map fst (Components status) = [''store'', ''scheduler'', ''workers'']"
  using assms
  by (auto simp: health_ServeHTTP_def CheckHealth_def Let_def sched_IsHealthy_def
      pool_IsHealthy_def split: sum.splits option.splits if_splits)

theorem health_exact_witness:
  "fst (health_ServeHTTP (memory_store (\<lambda>m. m)) (\<lambda>_. 5) NewMemoryStore
     None None) = 503"
proof -
  obtain code status where h: "health_ServeHTTP (memory_store (\<lambda>m. m)) (\<lambda>_. 5) NewMemoryStore
      None None = (code, status)"
    by (cases "health_ServeHTTP (memory_store (\<lambda>m. m)) (\<lambda>_. 5) NewMemoryStore None None")
  have "\<not> HHealthy status" using health_exact [OF h] by blast
  with health_exact [OF h] have "code = 503" by blast
  with h show ?thesis by simp
qed

text \<open>A recorded completion: its job type, its duration and whether it was a success.\<close>

definition record_all :: "(string \<times> duration \<times> bool) list \<Rightarrow> SimpleMetrics \<Rightarrow> SimpleMetrics" where
  "record_all evs m = fold (\<lambda>(jobType, d, ok). RecordJobCompleted jobType d ok) evs m"

definition durations :: "(string \<times> duration \<times> bool) list \<Rightarrow> int list" where
  "durations evs = map (fst \<circ> snd) evs"

lemma int64_range_mono: "int64_range b \<Longrightarrow> 0 \<le> a \<Longrightarrow> a \<le> b \<Longrightarrow> int64_range a"
  by (auto simp: int64_range_def)

lemma record_all_snoc:
  "record_all (evs @ [(t, d, ok)]) m = RecordJobCompleted t d ok (record_all evs m)"
  by (simp add: record_all_def)

lemma record_all_counters:
  assumes "list_all (\<lambda>d. 0 \<le> d) (durations evs)" and "int64_range (sum_list (durations evs))"
    and "int64_range (int (length evs))"
  shows "jobCount (record_all evs (NewSimpleMetrics t)) = int (length evs) \<and>
    totalDuration (record_all evs (NewSimpleMetrics t)) = sum_list (durations evs) \<and>
    maxDuration (record_all evs (NewSimpleMetrics t)) = fold max (durations evs) 0 \<and>
    m_completed (record_all evs (NewSimpleMetrics t)) =
      int (length (filter (snd \<circ> snd) evs)) \<and>
    m_failed (record_all evs (NewSimpleMetrics t)) =
      int (length (filter (Not \<circ> snd \<circ> snd) evs))"
  using assms
proof (induction evs rule: rev_induct)
  case Nil
  then show ?case by (simp add: record_all_def NewSimpleMetrics_def durations_def)
next
  case (snoc ev evs)
  obtain ty d ok where ev: "ev = (ty, d, ok)" by (cases ev) auto
  have nn: "0 \<le> d" "list_all (\<lambda>d. 0 \<le> d) (durations evs)" "0 \<le> sum_list (durations evs)"
    using snoc.prems(1) by (auto simp: durations_def ev list_all_iff intro!: sum_list_nonneg)
  have sum: "int64_range (sum_list (durations evs))"
    by (rule int64_range_mono [OF snoc.prems(2)]) (use nn in \<open>auto simp: durations_def ev\<close>)
  have len: "int64_range (int (length evs))"
    by (rule int64_range_mono [OF snoc.prems(3)]) simp_all
  note IH = snoc.IH [OF nn(2) sum len]
  have lens: "int64_range (int (length (filter p evs)) + 1)" for p
    using length_filter_le [of p evs] snoc.prems(3) by (auto intro: int64_range_mono)
  have s1: "wrap64 (1 + int (length evs)) = 1 + int (length evs)"
    "wrap64 (sum_list (durations evs) + d) = sum_list (durations evs) + d"
    using snoc.prems(2,3) by (simp_all add: durations_def ev)
  show ?case
    unfolding ev record_all_snoc
    using IH lens [of "snd \<circ> snd"] lens [of "Not \<circ> snd \<circ> snd"] s1
    by (auto simp: RecordJobCompleted_def Let_def durations_def max_def add.commute comp_def)
qed

lemma fold_max_upper: "m \<le> fold max xs m \<and> (\<forall>x \<in> set xs. x \<le> fold max xs (m :: int))"
proof (induction xs arbitrary: m)
  case (Cons x xs)
  from Cons [of "max x m"] show ?case by auto
qed simp

lemma fold_max_mem: "fold max xs m \<in> insert (m :: int) (set xs)"
proof (induction xs arbitrary: m)
  case (Cons x xs)
  from Cons [of "max x m"] show ?case by (auto simp: max_def split: if_splits)
qed simp

lemma sum_list_le_length: "(\<forall>x \<in> set xs. x \<le> m) \<Longrightarrow> sum_list xs \<le> int (length xs) * (m :: int)"
  by (induction xs) (auto simp: algebra_simps)

text \<open>
  After any completions are recorded, in any order and as long as the totals fit 64 bits,
  the metrics are what they say: completed and failed jobs add up to the recordings, the
  maximum is the longest of the durations and the average is their truncated mean, which is
  at most the maximum.
\<close>

theorem metrics_summary:
  assumes "list_all (\<lambda>d. 0 \<le> d) (durations evs)" and "int64_range (sum_list (durations evs))"
    and "int64_range (int (length evs))" and "evs \<noteq> []"
    and "mt = GetMetrics clk (record_all evs (NewSimpleMetrics t))"
  shows "MJobsCompleted mt = int (length (filter (snd \<circ> snd) evs)) \<and>
    MJobsCompleted mt + MJobsFailed mt = int (length evs) \<and>
    MAvgProcessingTime mt = sum_list (durations evs) div int (length evs) \<and>
    MMaxProcessingTime mt = Max (set (durations evs)) \<and>
    MAvgProcessingTime mt \<le> MMaxProcessingTime mt"
proof -
  let ?ds = "durations evs" and ?n = "int (length evs)"
  note c = record_all_counters [OF assms(1-3), of t]
  have ne: "?ds \<noteq> []" "length ?ds = length evs" using assms(4) by (simp_all add: durations_def)
  have nn: "\<forall>d \<in> set ?ds. 0 \<le> d" using assms(1) by (simp add: list_all_iff)
  have pos: "0 < ?n" using assms(4) by simp
  have mx: "fold max ?ds 0 = Max (set ?ds)"
  proof (rule Max_eqI [symmetric])
    show "d \<le> fold max ?ds 0" if "d \<in> set ?ds" for d using that fold_max_upper [of 0 ?ds] by blast
    have "fold max ?ds 0 \<in> set ?ds \<or> fold max ?ds 0 = 0" using fold_max_mem [of ?ds 0] by auto
    moreover have "fold max ?ds 0 \<in> set ?ds" if "fold max ?ds 0 = 0"
    proof -
      from ne(1) obtain d where d: "d \<in> set ?ds" by (cases ?ds) auto
      with fold_max_upper [of 0 ?ds] that nn have "d = 0" by force
      with d that show ?thesis by simp
    qed
    ultimately show "fold max ?ds 0 \<in> set ?ds" by blast
  qed simp
  have sum0: "0 \<le> sum_list ?ds" using nn by (intro sum_list_nonneg) blast
  have avg: "sum_list ?ds sdiv ?n = sum_list ?ds div ?n"
    using sum0 pos by (simp add: signed_divide_int_def sgn_if)
  have "sum_list ?ds \<le> ?n * Max (set ?ds)"
    using sum_list_le_length [of ?ds "Max (set ?ds)"] ne(2) by simp
  then have "sum_list ?ds div ?n \<le> ?n * Max (set ?ds) div ?n" by (rule zdiv_mono1) (rule pos)
  also have "\<dots> = Max (set ?ds)" using pos by simp
  finally have "sum_list ?ds div ?n \<le> Max (set ?ds)" .
  moreover have "int (length (filter (snd \<circ> snd) evs)) +
      int (length (filter (Not \<circ> snd \<circ> snd) evs)) = ?n"
    using sum_length_filter_compl [of "snd \<circ> snd" evs] by (simp add: comp_def)
  ultimately show ?thesis using c pos mx avg by (simp add: assms(5) GetMetrics_def)
qed

theorem metrics_summary_witness:
  "MAvgProcessingTime (GetMetrics (\<lambda>_. 9) (record_all [(''a'', 10, True), (''b'', 5, False)]
     (NewSimpleMetrics 0))) = 7"
  using metrics_summary [of "[(''a'', 10, True), (''b'', 5, False)]", OF _ _ _ _ refl, of "\<lambda>_. 9" 0]
  by (simp add: durations_def int64_range_def)


end
