(* ===== verification/GQ_Events.thy ===== *)
theory GQ_Events
  imports GQ_Worker
begin

text \<open>
  The answers of the HTTP interface as values, \<open>jobToResponse\<close>, and the event bus that
  fans out job events to subscribers (\<open>api/handlers.go\<close>).
\<close>

section \<open>Requests and answers\<close>

text \<open>Fields whose Go name is taken carry a prefix. A pointer field is an option.\<close>

record JobSubmitRequest =
  ReqType :: string
  ReqPayload :: bytes
  ReqPriority :: "int option"
  ReqIdempotencyKey :: string
  ReqCorrelationID :: string
  ReqDelay :: string
  ReqScheduledAt :: "instant option"
  ReqTimeout :: string
  ReqMaxAttempts :: "int option"
  ReqTags :: "(string, string) gomap option"

record JobResponse =
  RespID :: string
  RespType :: string
  RespState :: string
  RespPriority :: int
  RespAttempt :: int
  RespMaxAttempts :: int
  RespProgress :: float64
  RespProgressMessage :: string
  RespTags :: "(string, string) gomap option"
  RespCreatedAt :: instant
  RespUpdatedAt :: instant
  RespScheduledAt :: "instant option"
  RespStartedAt :: "instant option"
  RespCompletedAt :: "instant option"
  RespLastError :: string

definition zero_JobResponse :: JobResponse where
  "zero_JobResponse = \<lparr>RespID = '''', RespType = '''', RespState = '''', RespPriority = 0,
     RespAttempt = 0, RespMaxAttempts = 0, RespProgress = Fin 0, RespProgressMessage = '''',
     RespTags = None, RespCreatedAt = 0, RespUpdatedAt = 0, RespScheduledAt = None,
     RespStartedAt = None, RespCompletedAt = None, RespLastError = ''''\<rparr>"

record BatchSubmitRequest =
  BatchJobs :: "JobSubmitRequest list"
  Atomic :: bool

record BatchSubmitJobResult =
  ResIndex :: int
  ResSuccess :: bool
  ResJob :: JobResponse
  ResError :: string

record BatchSubmitResponse =
  Total :: int
  Accepted :: int
  Rejected :: int
  Results :: "BatchSubmitJobResult list"

record WaitResponse =
  WaitID :: string
  WaitState :: string
  WaitCompleted :: bool
  WaitSuccess :: bool
  WaitResult :: "JobResult option"
  WaitTimedOut :: bool

text \<open>\<open>uuid_text\<close> is \<open>uuid.UUID.String\<close>.\<close>

definition jobToResponse :: "(uuid \<Rightarrow> string) \<Rightarrow> Job \<Rightarrow> JobResponse" where
  "jobToResponse uuid_text job =
     \<lparr>RespID = uuid_text (ID job), RespType = JobType job,
      RespState = string_of_JobState (State job), RespPriority = Priority job,
      RespAttempt = Attempt job, RespMaxAttempts = MaxAttempts job,
      RespProgress = Progress job, RespProgressMessage = ProgressMessage job,
      RespTags = Tags job, RespCreatedAt = CreatedAt job, RespUpdatedAt = UpdatedAt job,
      RespScheduledAt = (if \<not> IsZero (ScheduledAt job) then Some (ScheduledAt job) else None),
      RespStartedAt = (if \<not> IsZero (StartedAt job) then Some (StartedAt job) else None),
      RespCompletedAt = (if \<not> IsZero (CompletedAt job) then Some (CompletedAt job) else None),
      RespLastError = LastError job\<rparr>"

section \<open>The event bus\<close>

text \<open>The data of an event: a job, or the identifier of a deleted one.\<close>

datatype event_data = JobData JobResponse | DeletedData string

record SSEEvent =
  Event :: string
  Data :: event_data
  EventID :: string

text \<open>
  A channel is its number; \<open>chans\<close> holds the buffer of each and whether it is closed. The
  buffers hold 100 events.
\<close>

record event_chan =
  chan_buf :: "SSEEvent list"
  chan_closed :: bool

record EventBus =
  subscribers :: "(string, nat list) gomap"
  chans :: "event_chan list"

definition NewEventBus :: EventBus where
  "NewEventBus = \<lparr>subscribers = [], chans = []\<rparr>"

definition subscribers_of :: "EventBus \<Rightarrow> string \<Rightarrow> nat list" where
  "subscribers_of eb jobID = (case map_of (subscribers eb) jobID of None \<Rightarrow> [] | Some l \<Rightarrow> l)"

definition Subscribe :: "string \<Rightarrow> EventBus \<Rightarrow> nat \<times> EventBus" where
  "Subscribe jobID eb =
     (let ch = length (chans eb)
      in (ch, eb\<lparr>chans := chans eb @ [\<lparr>chan_buf = [], chan_closed = False\<rparr>],
                 subscribers := AList.update jobID (subscribers_of eb jobID @ [ch]) (subscribers eb)\<rparr>))"

definition Unsubscribe :: "string \<Rightarrow> nat \<Rightarrow> EventBus \<Rightarrow> EventBus" where
  "Unsubscribe jobID ch eb =
     (if ch \<in> set (subscribers_of eb jobID)
      then eb\<lparr>subscribers := AList.update jobID (remove1 ch (subscribers_of eb jobID)) (subscribers eb),
              chans := (chans eb)[ch := (chans eb ! ch)\<lparr>chan_closed := True\<rparr>]\<rparr>
      else eb)"

text \<open>
  The non-blocking send. A send on a closed channel would panic; it is kept as a flag here
  and shown not to happen.
\<close>

definition try_send :: "SSEEvent \<Rightarrow> nat \<Rightarrow> bool \<times> EventBus \<Rightarrow> bool \<times> EventBus" where
  "try_send event ch = (\<lambda>(panicked, eb).
     if panicked \<or> chan_closed (chans eb ! ch) then (True, eb)
     else if length (chan_buf (chans eb ! ch)) < 100
     then (False, eb\<lparr>chans := (chans eb)[ch :=
            (chans eb ! ch)\<lparr>chan_buf := chan_buf (chans eb ! ch) @ [event]\<rparr>]\<rparr>)
     else (False, eb))"

definition Publish :: "string \<Rightarrow> SSEEvent \<Rightarrow> EventBus \<Rightarrow> EventBus go_result" where
  "Publish jobID event eb =
     (let (panicked, eb') = fold (try_send event)
            (subscribers_of eb jobID @ subscribers_of eb ''*'') (False, eb)
      in if panicked then Panics ''send on closed channel'' else Returns eb')"

section \<open>Facts\<close>

text \<open>Every subscribed channel exists, is open, and is subscribed once.\<close>

definition bus_ok :: "EventBus \<Rightarrow> bool" where
  "bus_ok eb \<longleftrightarrow>
     (\<forall>k. distinct (subscribers_of eb k)) \<and>
     (\<forall>k k' ch. ch \<in> set (subscribers_of eb k) \<longrightarrow> ch \<in> set (subscribers_of eb k') \<longrightarrow> k = k') \<and>
     (\<forall>k ch. ch \<in> set (subscribers_of eb k) \<longrightarrow>
        ch < length (chans eb) \<and> \<not> chan_closed (chans eb ! ch))"

lemma subscribers_of_update [simp]:
  "subscribers_of (eb\<lparr>chans := cs, subscribers := AList.update k l (subscribers eb)\<rparr>) k' =
     (if k' = k then l else subscribers_of eb k')"
  "subscribers_of (eb\<lparr>subscribers := AList.update k l (subscribers eb), chans := cs\<rparr>) k' =
     (if k' = k then l else subscribers_of eb k')"
  "subscribers_of (eb\<lparr>chans := cs\<rparr>) k' = subscribers_of eb k'"
  "subscribers_of (eb\<lparr>subscribers := AList.update k l (subscribers eb)\<rparr>) k' =
     (if k' = k then l else subscribers_of eb k')"
  by (simp_all add: subscribers_of_def)

lemma bus_ok_new [simp]: "bus_ok NewEventBus"
  by (simp add: bus_ok_def NewEventBus_def subscribers_of_def)

lemma bus_ok_Subscribe:
  assumes "bus_ok eb" and "Subscribe k eb = (ch, eb')"
  shows "bus_ok eb' \<and> ch \<in> set (subscribers_of eb' k) \<and> chan_buf (chans eb' ! ch) = []"
proof -
  have lt: "c < length (chans eb)" if "c \<in> set (subscribers_of eb k')" for c k'
    using assms(1) that by (auto simp: bus_ok_def)
  have fresh: "length (chans eb) \<notin> set (subscribers_of eb k')" for k'
    using lt by blast
  show ?thesis
    using assms fresh lt unfolding Subscribe_def Let_def bus_ok_def
    by (auto simp: nth_append less_SucI split: if_splits)
qed

lemma bus_ok_Unsubscribe:
  assumes "bus_ok eb"
  shows "bus_ok (Unsubscribe k ch eb)"
proof (cases "ch \<in> set (subscribers_of eb k)")
  case False
  with assms show ?thesis by (simp add: Unsubscribe_def)
next
  case True
  have d: "distinct (subscribers_of eb k')" for k' using assms by (simp add: bus_ok_def)
  have only: "k' = k" if "ch \<in> set (subscribers_of eb k')" for k'
    using assms True that unfolding bus_ok_def by blast
  have eq: "subscribers_of (Unsubscribe k ch eb) k' =
      (if k' = k then remove1 ch (subscribers_of eb k) else subscribers_of eb k')" for k'
    using True by (simp add: Unsubscribe_def)
  have gone: "c \<noteq> ch" if "c \<in> set (subscribers_of (Unsubscribe k ch eb) k')" for c k'
    using that d [of k] only [of k'] by (auto simp: eq split: if_splits)
  have sub: "c \<in> set (subscribers_of eb k')" if "c \<in> set (subscribers_of (Unsubscribe k ch eb) k')"
    for c k' using that set_remove1_subset [of ch "subscribers_of eb k"] by (auto simp: eq split: if_splits)
  have chans: "chans (Unsubscribe k ch eb) = (chans eb)[ch := (chans eb ! ch)\<lparr>chan_closed := True\<rparr>]"
    using True by (simp add: Unsubscribe_def)
  show ?thesis
    unfolding bus_ok_def
  proof (intro conjI allI impI)
    show "distinct (subscribers_of (Unsubscribe k ch eb) k')" for k' using d by (simp add: eq)
    show "k' = k''" if "c \<in> set (subscribers_of (Unsubscribe k ch eb) k')"
        "c \<in> set (subscribers_of (Unsubscribe k ch eb) k'')" for k' k'' c
      using sub [OF that(1)] sub [OF that(2)] assms unfolding bus_ok_def by blast
    show "c < length (chans (Unsubscribe k ch eb))"
      if "c \<in> set (subscribers_of (Unsubscribe k ch eb) k')" for k' c
      using sub [OF that] assms unfolding chans bus_ok_def by simp
    show "\<not> chan_closed (chans (Unsubscribe k ch eb) ! c)"
      if "c \<in> set (subscribers_of (Unsubscribe k ch eb) k')" for k' c
      using sub [OF that] gone [OF that] assms unfolding chans bus_ok_def by simp
  qed
qed

lemma try_send_fold:
  assumes "distinct chs"
    and "\<forall>ch \<in> set chs. ch < length (chans eb) \<and> \<not> chan_closed (chans eb ! ch)"
  shows "\<exists>eb'. fold (try_send ev) chs (False, eb) = (False, eb') \<and>
    subscribers eb' = subscribers eb \<and> length (chans eb') = length (chans eb) \<and>
    (\<forall>c < length (chans eb). chan_closed (chans eb' ! c) = chan_closed (chans eb ! c) \<and>
       chan_buf (chans eb' ! c) =
         (if c \<in> set chs \<and> length (chan_buf (chans eb ! c)) < 100
          then chan_buf (chans eb ! c) @ [ev] else chan_buf (chans eb ! c)))"
  using assms
proof (induction chs arbitrary: eb)
  case Nil
  then show ?case by simp
next
  case (Cons ch chs)
  define eb1 where "eb1 = (if length (chan_buf (chans eb ! ch)) < 100
    then eb\<lparr>chans := (chans eb)[ch :=
      (chans eb ! ch)\<lparr>chan_buf := chan_buf (chans eb ! ch) @ [ev]\<rparr>]\<rparr> else eb)"
  have step: "try_send ev ch (False, eb) = (False, eb1)"
    using Cons.prems(2) by (simp add: try_send_def eb1_def)
  have same: "subscribers eb1 = subscribers eb" "length (chans eb1) = length (chans eb)"
    by (simp_all add: eb1_def)
  have buf: "chan_closed (chans eb1 ! c) = chan_closed (chans eb ! c) \<and> chan_buf (chans eb1 ! c) =
      (if c = ch \<and> length (chan_buf (chans eb ! c)) < 100
       then chan_buf (chans eb ! c) @ [ev] else chan_buf (chans eb ! c))"
    if "c < length (chans eb)" for c
    using that by (cases "c = ch") (auto simp: eb1_def)
  have "\<forall>c \<in> set chs. c < length (chans eb1) \<and> \<not> chan_closed (chans eb1 ! c)"
    using Cons.prems(2) buf same(2) by auto
  with Cons.IH [of eb1] Cons.prems(1) obtain eb' where
    "fold (try_send ev) chs (False, eb1) = (False, eb')" "subscribers eb' = subscribers eb1"
    "length (chans eb') = length (chans eb1)"
    "\<forall>c < length (chans eb1). chan_closed (chans eb' ! c) = chan_closed (chans eb1 ! c) \<and>
       chan_buf (chans eb' ! c) =
         (if c \<in> set chs \<and> length (chan_buf (chans eb1 ! c)) < 100
          then chan_buf (chans eb1 ! c) @ [ev] else chan_buf (chans eb1 ! c))"
    by auto
  moreover have "ch \<notin> set chs" using Cons.prems(1) by simp
  ultimately show ?case
    using step same buf by (intro exI [of _ eb']) auto
qed

lemma bus_ok_Publish:
  assumes "bus_ok eb" and "jobID \<noteq> ''*''"
  shows "\<exists>eb'. Publish jobID ev eb = Returns eb' \<and> bus_ok eb' \<and>
    subscribers eb' = subscribers eb \<and> length (chans eb') = length (chans eb) \<and>
    (\<forall>c < length (chans eb). chan_buf (chans eb' ! c) =
       (if c \<in> set (subscribers_of eb jobID) \<union> set (subscribers_of eb ''*'') \<and>
           length (chan_buf (chans eb ! c)) < 100
        then chan_buf (chans eb ! c) @ [ev] else chan_buf (chans eb ! c)))"
proof -
  let ?chs = "subscribers_of eb jobID @ subscribers_of eb ''*''"
  have "set (subscribers_of eb jobID) \<inter> set (subscribers_of eb ''*'') = {}"
    using assms unfolding bus_ok_def by blast
  then have "distinct ?chs" using assms(1) by (simp add: bus_ok_def)
  moreover have "\<forall>ch \<in> set ?chs. ch < length (chans eb) \<and> \<not> chan_closed (chans eb ! ch)"
    using assms(1) by (auto simp: bus_ok_def)
  ultimately obtain eb' where f: "fold (try_send ev) ?chs (False, eb) = (False, eb')"
    and same: "subscribers eb' = subscribers eb" "length (chans eb') = length (chans eb)"
    and each: "\<forall>c < length (chans eb). chan_closed (chans eb' ! c) = chan_closed (chans eb ! c) \<and>
       chan_buf (chans eb' ! c) =
         (if c \<in> set ?chs \<and> length (chan_buf (chans eb ! c)) < 100
          then chan_buf (chans eb ! c) @ [ev] else chan_buf (chans eb ! c))"
    using try_send_fold [of ?chs eb ev] by blast
  have "subscribers_of eb' k = subscribers_of eb k" for k
    using same(1) by (simp add: subscribers_of_def)
  then have "bus_ok eb'" using assms(1) each same(2) unfolding bus_ok_def by auto
  moreover have "Publish jobID ev eb = Returns eb'" using f by (simp add: Publish_def)
  ultimately show ?thesis using same each by auto
qed

text \<open>
  The buses the server can reach. A subscriber takes events from its own channel; events are
  published under job identifiers, which are UUIDs and never \<open>*\<close>.
\<close>

inductive bus_reachable :: "EventBus \<Rightarrow> bool" where
  "bus_reachable NewEventBus"
| "bus_reachable eb \<Longrightarrow> Subscribe k eb = (ch, eb') \<Longrightarrow> bus_reachable eb'"
| "bus_reachable eb \<Longrightarrow> bus_reachable (Unsubscribe k ch eb)"
| "bus_reachable eb \<Longrightarrow> jobID \<noteq> ''*'' \<Longrightarrow> Publish jobID ev eb = Returns eb' \<Longrightarrow> bus_reachable eb'"
| "bus_reachable eb \<Longrightarrow> ch < length (chans eb) \<Longrightarrow> chan_buf (chans eb ! ch) = ev # evs \<Longrightarrow>
     bus_reachable (eb\<lparr>chans := (chans eb)[ch := (chans eb ! ch)\<lparr>chan_buf := evs\<rparr>]\<rparr>)"

lemma bus_reachable_ok: "bus_reachable eb \<Longrightarrow> bus_ok eb"
proof (induction rule: bus_reachable.induct)
  case (4 eb jobID ev eb')
  then show ?case using bus_ok_Publish [of eb jobID ev] by auto
next
  case (5 eb ch ev evs)
  then show ?case unfolding bus_ok_def by (auto simp: nth_list_update)
qed (auto dest: bus_ok_Subscribe bus_ok_Unsubscribe)

text \<open>
  Publishing an event never panics, whatever subscriptions came and went before: it
  reaches exactly the subscribers of the job and those of all jobs, each once, except the ones
  whose buffer of 100 events is full, and it changes no other buffer.
\<close>

theorem Publish_delivers:
  assumes "bus_reachable eb" and "jobID \<noteq> ''*''"
  shows "\<exists>eb'. Publish jobID ev eb = Returns eb' \<and>
    length (chans eb') = length (chans eb) \<and>
    (\<forall>c < length (chans eb). chan_buf (chans eb' ! c) =
       (if c \<in> set (subscribers_of eb jobID) \<union> set (subscribers_of eb ''*'') \<and>
           length (chan_buf (chans eb ! c)) < 100
        then chan_buf (chans eb ! c) @ [ev] else chan_buf (chans eb ! c)))"
  using bus_ok_Publish [OF bus_reachable_ok [OF assms(1)] assms(2)] by blast

theorem Publish_delivers_witness:
  "let eb = snd (Subscribe ''*'' (snd (Subscribe ''j1'' NewEventBus)));
     ev = \<lparr>Event = ''job.deleted'', Data = DeletedData ''j2'', EventID = ''j2''\<rparr>
   in \<exists>eb'. Publish ''j2'' ev eb = Returns eb' \<and> chan_buf (chans eb' ! 0) = [] \<and>
     chan_buf (chans eb' ! 1) = [ev]"
proof -
  let ?eb = "snd (Subscribe ''*'' (snd (Subscribe ''j1'' NewEventBus)))"
  let ?ev = "\<lparr>Event = ''job.deleted'', Data = DeletedData ''j2'', EventID = ''j2''\<rparr>"
  have "bus_reachable ?eb"
    by (rule bus_reachable.intros(2), rule bus_reachable.intros(2), rule bus_reachable.intros(1))
      (rule prod.collapse [symmetric])+
  from Publish_delivers [OF this, of "''j2''" ?ev] show ?thesis
    by (auto simp: Subscribe_def NewEventBus_def subscribers_of_def Let_def)
qed


end
