(* ===== verification/GQ_Api.thy ===== *)
theory GQ_Api
  imports GQ_Events GQ_Security GQ_Metrics
begin

text \<open>
  The HTTP interface (\<open>api/server.go\<close>, \<open>api/handlers.go\<close>): the server's state, one
  definition per handler, the routes and the middleware. A handler maps a request and the
  state to an answer and the new state. Decoding of JSON bodies, parsing of durations and
  printing and parsing of UUIDs are library code, the record \<open>api_env\<close> of parameters; the
  encoding of answers is left out, an answer is its status, headers and value.
\<close>

section \<open>State, requests, answers\<close>

record ApiServerConfig =
  Addr :: string
  ReadTimeout :: duration
  WriteTimeout :: duration
  MaxRequestSize :: int
  AuthEnabled :: bool
  CORSEnabled :: bool
  CORSOrigins :: "string list"

definition DefaultApiServerConfig :: ApiServerConfig where
  "DefaultApiServerConfig = \<lparr>Addr = '':8080'', ReadTimeout = 30 * Second,
     WriteTimeout = 30 * Second, MaxRequestSize = 10 * 1024 * 1024, AuthEnabled = False,
     CORSEnabled = True, CORSOrigins = [''*'']\<rparr>"

text \<open>The store is the one in the scheduler's state, shared with the pool.\<close>

record 's Server =
  srv_sched :: "'s PriorityScheduler"
  srv_pool :: "SimplePool option"
  srv_metrics :: SimpleMetrics
  srv_auth :: "api_keys option"
  srv_authz :: authorizer
  srv_eventBus :: "EventBus option"
  srv_config :: ApiServerConfig

definition NewServer ::
    "instant \<Rightarrow> 's PriorityScheduler \<Rightarrow> SimplePool option \<Rightarrow> ApiServerConfig option \<Rightarrow> 's Server" where
  "NewServer t sched pool config =
     \<lparr>srv_sched = sched, srv_pool = pool, srv_metrics = NewSimpleMetrics t, srv_auth = None,
      srv_authz = NewSimpleAuthorizer, srv_eventBus = Some NewEventBus,
      srv_config = (case config of None \<Rightarrow> DefaultApiServerConfig | Some c \<Rightarrow> c)\<rparr>"

definition SetAuthenticator :: "api_keys \<Rightarrow> 's Server \<Rightarrow> 's Server" where
  "SetAuthenticator auth srv =
     srv\<lparr>srv_auth := Some auth, srv_config := (srv_config srv)\<lparr>AuthEnabled := True\<rparr>\<rparr>"

text \<open>
  The decoders return \<open>None\<close> on an error, except those of cancel and retry, whose error is
  ignored: they return what is left in the fields. A missing query parameter is empty.
\<close>

record api_env =
  dec_submit :: "bytes \<Rightarrow> JobSubmitRequest option"
  dec_batch :: "bytes \<Rightarrow> BatchSubmitRequest option"
  dec_wait :: "bytes \<Rightarrow> string option"
  dec_cancel :: "bytes \<Rightarrow> string \<times> bool"
  dec_retry :: "bytes \<Rightarrow> bool"
  ParseDuration :: "string \<Rightarrow> duration option"
  uuid_Parse :: "string \<Rightarrow> uuid option"
  uuid_text :: "uuid \<Rightarrow> string"
  format_stamp :: "instant \<Rightarrow> string"

record api_request = http_request +
  Method :: string
  Path :: string
  Query :: "string \<Rightarrow> string"
  Body :: bytes

datatype answer =
    JobAnswer JobResponse
  | JobsAnswer "JobResponse list" int
  | BatchAnswer BatchSubmitResponse
  | WaitAnswer WaitResponse
  | ResultAnswer JobResult
  | StatsAnswer QueueStats "PoolStats option"
  | MetricsAnswer Metrics
  | HealthAnswer HealthStatus
  | ReadyAnswer bool
  | AliveAnswer
  | InfoAnswer string string "(string, string) gomap" "string list"
  | ErrorAnswer string string
  | NoAnswer

record response =
  code :: nat
  content :: answer
  headers :: "(string, string) gomap"

definition writeJSON :: "nat \<Rightarrow> answer \<Rightarrow> response" where
  "writeJSON status data =
     \<lparr>code = status, content = data, headers = [(''Content-Type'', ''application/json'')]\<rparr>"

definition writeError :: "nat \<Rightarrow> string \<Rightarrow> string \<Rightarrow> response" where
  "writeError status c message = writeJSON status (ErrorAnswer c message)"

abbreviation (input) srv_store :: "'s Server \<Rightarrow> 's" where
  "srv_store srv \<equiv> sch_store (srv_sched srv)"

definition with_store :: "'s \<Rightarrow> 's Server \<Rightarrow> 's Server" where
  "with_store s srv = srv\<lparr>srv_sched := (srv_sched srv)\<lparr>sch_store := s\<rparr>\<rparr>"

text \<open>Publishing on the bus, if there is one. A panic of the bus would end the request.\<close>

definition publish_event :: "string \<Rightarrow> SSEEvent \<Rightarrow> 's Server \<Rightarrow> 's Server go_result" where
  "publish_event jobID ev srv =
     (case srv_eventBus srv of
        None \<Rightarrow> Returns srv
      | Some eb \<Rightarrow>
          (case Publish jobID ev eb of
             Panics m \<Rightarrow> Panics m
           | Returns eb' \<Rightarrow> Returns (srv\<lparr>srv_eventBus := Some eb'\<rparr>)))"

definition job_event :: "api_env \<Rightarrow> string \<Rightarrow> Job \<Rightarrow> SSEEvent" where
  "job_event env kind job = \<lparr>Event = kind, Data = JobData (jobToResponse (uuid_text env) job),
     EventID = uuid_text env (ID job)\<rparr>"

text \<open>An answer together with the new state, or a panic of the handler.\<close>

type_synonym 's served_by = "(response \<times> 's Server) go_result"

definition answer_after :: "'s Server go_result \<Rightarrow> response \<Rightarrow> 's served_by" where
  "answer_after r resp = (case r of Panics m \<Rightarrow> Panics m | Returns srv \<Rightarrow> Returns (resp, srv))"

section \<open>Submitting\<close>

text \<open>
  \<open>WithDelay\<close> reads the clock when \<open>NewJob\<close> applies it, after the two timestamps.
\<close>

definition request_options :: "api_env \<Rightarrow> instant \<Rightarrow> JobSubmitRequest \<Rightarrow> JobOption list" where
  "request_options env t req =
     (if ReqIdempotencyKey req \<noteq> '''' then [WithIdempotencyKey (ReqIdempotencyKey req)] else []) @
     (if ReqCorrelationID req \<noteq> '''' then [WithCorrelationID (ReqCorrelationID req)] else []) @
     (case ReqPriority req of None \<Rightarrow> [] | Some p \<Rightarrow> [WithPriority p]) @
     (if ReqDelay req \<noteq> ''''
      then (case ParseDuration env (ReqDelay req) of None \<Rightarrow> [] | Some d \<Rightarrow> [WithDelay t d])
      else []) @
     (case ReqScheduledAt req of None \<Rightarrow> [] | Some u \<Rightarrow> [WithScheduledAt u]) @
     (if ReqTimeout req \<noteq> ''''
      then (case ParseDuration env (ReqTimeout req) of None \<Rightarrow> [] | Some d \<Rightarrow> [WithTimeout d])
      else []) @
     (case ReqMaxAttempts req of None \<Rightarrow> [] | Some n \<Rightarrow> [WithMaxAttempts n]) @
     (case ReqTags req of None \<Rightarrow> [] | Some m \<Rightarrow> if m \<noteq> [] then [WithTags (Some m)] else [])"

definition createJobFromRequest ::
    "api_env \<Rightarrow> uuid \<Rightarrow> clock \<Rightarrow> JobSubmitRequest \<Rightarrow> Job" where
  "createJobFromRequest env newID clk req =
     NewJob newID clk (ReqType req) (ReqPayload req) (request_options env (clk 2) req)"

definition submitJob ::
    "'s JobStore \<Rightarrow> api_env \<Rightarrow> uuid \<Rightarrow> clock \<Rightarrow> bytes \<Rightarrow> 's Server \<Rightarrow> 's served_by" where
  "submitJob ops env newID clk body srv =
     (case dec_submit env body of
        None \<Rightarrow> Returns (writeError 400 ''invalid_request'' ''invalid JSON body'', srv)
      | Some req \<Rightarrow>
          if ReqType req = ''''
          then Returns (writeError 400 ''validation_error'' ''job type is required'', srv)
          else
            let job = createJobFromRequest env newID clk req
            in case Create ops job (srv_store srv) of
                 (Some e, s') \<Rightarrow>
                   (let srv1 = with_store s' srv
                    in if e = ErrJobAlreadyExists
                       then (case (if ReqIdempotencyKey req \<noteq> ''''
                                   then GetByIdempotencyKey ops (ReqIdempotencyKey req) s'
                                   else Inl ErrJobNotFound) of
                               Inr existing \<Rightarrow>
                                 Returns (writeJSON 200 (JobAnswer (jobToResponse (uuid_text env) existing)), srv1)
                             | Inl _ \<Rightarrow>
                                 Returns (writeError 409 ''conflict'' ''job already exists'', srv1))
                       else Returns (writeError 500 ''internal_error'' (Error e), srv1))
               | (None, s') \<Rightarrow>
                   (let srv1 = with_store s' srv;
                        (job', err, sched') = Enqueue (later 3 clk) job (srv_sched srv1);
                        srv2 = srv1\<lparr>srv_sched := sched'\<rparr>
                    in case err of
                         Some e \<Rightarrow> Returns (writeError 500 ''internal_error'' (Error e), srv2)
                       | None \<Rightarrow>
                           (let srv3 = srv2\<lparr>srv_metrics :=
                                  RecordJobEnqueued (JobType job') (Priority job') (srv_metrics srv2)\<rparr>
                            in answer_after
                                 (publish_event (uuid_text env (ID job')) (job_event env ''job.created'' job') srv3)
                                 (writeJSON 201 (JobAnswer (jobToResponse (uuid_text env) job'))))))"

text \<open>
  The first loop of the batch: validation and creation of the jobs in memory. It returns the
  results and the created jobs, or the index at which an atomic batch is refused. Each created
  job takes three readings of the clock.
\<close>

fun batch_create ::
    "api_env \<Rightarrow> bool \<Rightarrow> (nat \<Rightarrow> uuid) \<Rightarrow> clock \<Rightarrow> nat \<Rightarrow> JobSubmitRequest list \<Rightarrow>
       nat + BatchSubmitJobResult list \<times> Job list" where
  "batch_create env atomic newIDs clk i [] = Inr ([], [])"
| "batch_create env atomic newIDs clk i (req # reqs) =
     (if ReqType req = ''''
      then if atomic then Inl i
           else case batch_create env atomic newIDs clk (Suc i) reqs of
                  Inl k \<Rightarrow> Inl k
                | Inr (results, jobs) \<Rightarrow>
                    Inr (\<lparr>ResIndex = int i, ResSuccess = False, ResJob = zero_JobResponse,
                          ResError = ''job type is required''\<rparr> # results, jobs)
      else let job = createJobFromRequest env (newIDs i) clk req
           in case batch_create env atomic newIDs (later 3 clk) (Suc i) reqs of
                Inl k \<Rightarrow> Inl k
              | Inr (results, jobs) \<Rightarrow>
                  Inr (\<lparr>ResIndex = int i, ResSuccess = True,
                        ResJob = jobToResponse (uuid_text env) job, ResError = ''''\<rparr> # results,
                       job # jobs))"

definition batch_response :: "BatchSubmitJobResult list \<Rightarrow> BatchSubmitResponse" where
  "batch_response results =
     \<lparr>Total = int (length results), Accepted = int (length (filter ResSuccess results)),
      Rejected = int (length (filter (Not \<circ> ResSuccess) results)), Results = results\<rparr>"

text \<open>
  The second loop: persisting and enqueueing. The index is the position in the list of created
  jobs, and the same index is used for the results.
\<close>

fun batch_persist ::
    "'s JobStore \<Rightarrow> api_env \<Rightarrow> bool \<Rightarrow> clock \<Rightarrow> nat \<Rightarrow> Job list \<Rightarrow>
       BatchSubmitResponse \<Rightarrow> 's Server \<Rightarrow> 's served_by" where
  "batch_persist ops env atomic clk i [] resp srv =
     Returns (writeJSON 201 (BatchAnswer resp), srv)"
| "batch_persist ops env atomic clk i (job # jobs) resp srv =
     (case Create ops job (srv_store srv) of
        (Some e, s') \<Rightarrow>
          if atomic
          then Returns (writeError 500 ''internal_error''
                 (''failed to create job '' @ fmt_d (int i) @ '': '' @ Error e), with_store s' srv)
          else batch_persist ops env atomic clk (Suc i) jobs
                 (resp\<lparr>Results := (Results resp)[i := (Results resp ! i)\<lparr>ResSuccess := False,
                         ResError := Error e\<rparr>],
                       Accepted := Accepted resp - 1, Rejected := Rejected resp + 1\<rparr>)
                 (with_store s' srv)
      | (None, s') \<Rightarrow>
          (let srv1 = with_store s' srv;
               (job', err, sched') = Enqueue clk job (srv_sched srv1);
               srv2 = srv1\<lparr>srv_sched := sched'\<rparr>
           in if err \<noteq> None \<and> atomic
              then Returns (writeError 500 ''internal_error''
                     (''failed to enqueue job '' @ fmt_d (int i) @ '': '' @ Error (the err)), srv2)
              else let srv3 = srv2\<lparr>srv_metrics :=
                          RecordJobEnqueued (JobType job') (Priority job') (srv_metrics srv2)\<rparr>
                   in case publish_event (uuid_text env (ID job')) (job_event env ''job.created'' job') srv3 of
                        Panics m \<Rightarrow> Panics m
                      | Returns srv4 \<Rightarrow> batch_persist ops env atomic (later 1 clk) (Suc i) jobs resp srv4))"

definition handleBatchSubmit ::
    "'s JobStore \<Rightarrow> api_env \<Rightarrow> (nat \<Rightarrow> uuid) \<Rightarrow> clock \<Rightarrow> api_request \<Rightarrow> 's Server \<Rightarrow> 's served_by" where
  "handleBatchSubmit ops env newIDs clk r srv =
     (if Method r \<noteq> ''POST''
      then Returns (writeError 405 ''method_not_allowed'' ''method not allowed'', srv)
      else case dec_batch env (Body r) of
        None \<Rightarrow> Returns (writeError 400 ''invalid_request'' ''invalid JSON body'', srv)
      | Some req \<Rightarrow>
          if BatchJobs req = []
          then Returns (writeError 400 ''validation_error'' ''at least one job is required'', srv)
          else if length (BatchJobs req) > 1000
          then Returns (writeError 400 ''validation_error'' ''maximum 1000 jobs per batch'', srv)
          else case batch_create env (Atomic req) newIDs clk 0 (BatchJobs req) of
              Inl i \<Rightarrow> Returns (writeError 400 ''validation_error''
                (''job '' @ fmt_d (int i) @ '': type is required''), srv)
            | Inr (results, jobs) \<Rightarrow>
                batch_persist ops env (Atomic req) (later (3 * length jobs) clk) 0 jobs
                  (batch_response results) srv)"

section \<open>Reading\<close>

definition getJob :: "'s JobStore \<Rightarrow> api_env \<Rightarrow> uuid \<Rightarrow> 's Server \<Rightarrow> response" where
  "getJob ops env i srv =
     (case Get ops i (srv_store srv) of
        Inl e \<Rightarrow> if e = ErrJobNotFound then writeError 404 ''not_found'' ''job not found''
                 else writeError 500 ''internal_error'' (Error e)
      | Inr job \<Rightarrow> writeJSON 200 (JobAnswer (jobToResponse (uuid_text env) job)))"

definition list_filter :: "(string \<Rightarrow> string) \<Rightarrow> JobFilter" where
  "list_filter query =
     empty_filter\<lparr>Limit := 100, Order := OrderCreatedDesc,
       States := (if query ''state'' \<noteq> '''' then [JobState_of_string (query ''state'')] else []),
       Types := (if query ''type'' \<noteq> '''' then [query ''type''] else [])\<rparr>"

definition listJobs ::
    "'s JobStore \<Rightarrow> api_env \<Rightarrow> (string \<Rightarrow> string) \<Rightarrow> 's Server \<Rightarrow> response" where
  "listJobs ops env query srv =
     (case List ops (list_filter query) (srv_store srv) of
        Inl e \<Rightarrow> writeError 500 ''internal_error'' (Error e)
      | Inr jobs \<Rightarrow> writeJSON 200 (JobsAnswer (map (jobToResponse (uuid_text env)) jobs)
                       (int (length jobs))))"

definition getJobResult :: "'s JobStore \<Rightarrow> string \<Rightarrow> uuid \<Rightarrow> 's Server \<Rightarrow> response" where
  "getJobResult ops meth i srv =
     (if meth \<noteq> ''GET'' then writeError 405 ''method_not_allowed'' ''method not allowed''
      else case GetResult ops i (srv_store srv) of
        Inl e \<Rightarrow> if e = ErrJobNotFound then writeError 404 ''not_found'' ''result not found''
                 else writeError 500 ''internal_error'' (Error e)
      | Inr result \<Rightarrow> writeJSON 200 (ResultAnswer result))"

definition handleStats ::
    "'s JobStore \<Rightarrow> (uuid, bool) range_order \<Rightarrow> clock \<Rightarrow> string \<Rightarrow> 's Server \<Rightarrow> response" where
  "handleStats ops ord clk meth srv =
     (if meth \<noteq> ''GET'' then writeError 405 ''method_not_allowed'' ''method not allowed''
      else case Stats ops (clk 0) (srv_store srv) of
        Inl e \<Rightarrow> writeError 500 ''internal_error'' (Error e)
      | Inr st \<Rightarrow> writeJSON 200 (StatsAnswer st (map_option (pool_Stats ord (clk 1)) (srv_pool srv))))"

text \<open>
  The wait: a requested timeout, 30 s by default and at most 5 minutes; then the polling loop.
  Each event of the loop comes with the store as it is then: a tick, or the end of the
  context. The loop has no answer while no event ends it.
\<close>

definition wait_timeout :: "api_env \<Rightarrow> api_request \<Rightarrow> duration" where
  "wait_timeout env r =
     (let text = (if Method r = ''POST''
            then (case dec_wait env (Body r) of None \<Rightarrow> '''' | Some t \<Rightarrow> t)
            else Query r ''timeout'');
          timeout = (if text \<noteq> ''''
            then (case ParseDuration env text of None \<Rightarrow> 30 * Second | Some d \<Rightarrow> d)
            else 30 * Second)
      in if timeout > 5 * Minute then 5 * Minute else timeout)"

datatype 's wait_event = WaitTick 's | WaitDone 's

fun wait_loop ::
    "'s JobStore \<Rightarrow> api_env \<Rightarrow> uuid \<Rightarrow> 's wait_event list \<Rightarrow> response option" where
  "wait_loop ops env i [] = None"
| "wait_loop ops env i (WaitDone s # events) =
     (case Get ops i s of
        Inl e \<Rightarrow> Some (writeError 404 ''not_found'' ''job not found'')
      | Inr job \<Rightarrow> Some (writeJSON 200 (WaitAnswer \<lparr>WaitID = uuid_text env (ID job),
          WaitState = string_of_JobState (State job), WaitCompleted = IsTerminal job,
          WaitSuccess = False, WaitResult = None, WaitTimedOut = True\<rparr>)))"
| "wait_loop ops env i (WaitTick s # events) =
     (case Get ops i s of
        Inl e \<Rightarrow> Some (writeError 404 ''not_found'' ''job not found'')
      | Inr job \<Rightarrow>
          if IsTerminal job
          then Some (writeJSON 200 (WaitAnswer \<lparr>WaitID = uuid_text env (ID job),
            WaitState = string_of_JobState (State job), WaitCompleted = True,
            WaitSuccess = (State job = JobStateCompleted),
            WaitResult = (case GetResult ops i s of Inl e \<Rightarrow> None | Inr result \<Rightarrow> Some result),
            WaitTimedOut = False\<rparr>))
          else wait_loop ops env i events)"

definition waitForJob ::
    "'s JobStore \<Rightarrow> api_env \<Rightarrow> api_request \<Rightarrow> uuid \<Rightarrow> 's wait_event list \<Rightarrow> response option" where
  "waitForJob ops env r i events =
     (if Method r \<noteq> ''POST'' \<and> Method r \<noteq> ''GET''
      then Some (writeError 405 ''method_not_allowed'' ''method not allowed'')
      else wait_loop ops env i events)"

section \<open>Changing a job\<close>

text \<open>
  After the change the handler reads the job again and ignores an error; without a job,
  \<open>jobToResponse\<close> dereferences a nil pointer.
\<close>

definition answer_job ::
    "'s JobStore \<Rightarrow> api_env \<Rightarrow> string \<Rightarrow> uuid \<Rightarrow> 's Server \<Rightarrow> 's served_by" where
  "answer_job ops env kind i srv =
     (case Get ops i (srv_store srv) of
        Inl e \<Rightarrow> Panics ''nil pointer dereference''
      | Inr job \<Rightarrow> answer_after (publish_event (uuid_text env (ID job)) (job_event env kind job) srv)
          (writeJSON 200 (JobAnswer (jobToResponse (uuid_text env) job))))"

definition cancelJob ::
    "'s JobStore \<Rightarrow> api_env \<Rightarrow> clock \<Rightarrow> api_request \<Rightarrow> uuid \<Rightarrow> 's Server \<Rightarrow> 's served_by" where
  "cancelJob ops env clk r i srv =
     (if Method r \<noteq> ''POST''
      then Returns (writeError 405 ''method_not_allowed'' ''method not allowed'', srv)
      else
        let (reason, force) = dec_cancel env (Body r);
            (err, sched') = Cancel ops clk i reason force (srv_sched srv);
            srv1 = srv\<lparr>srv_sched := sched'\<rparr>
        in case err of
             Some e \<Rightarrow>
               if e = ErrJobNotFound
               then Returns (writeError 404 ''not_found'' ''job not found'', srv1)
               else if e = ErrJobNotCancellable
               then Returns (writeError 409 ''conflict'' ''job cannot be cancelled'', srv1)
               else Returns (writeError 500 ''internal_error'' (Error e), srv1)
           | None \<Rightarrow> answer_job ops env ''job.cancelled'' i srv1)"

definition retryJob ::
    "'s JobStore \<Rightarrow> api_env \<Rightarrow> clock \<Rightarrow> api_request \<Rightarrow> uuid \<Rightarrow> 's Server \<Rightarrow> 's served_by" where
  "retryJob ops env clk r i srv =
     (if Method r \<noteq> ''POST''
      then Returns (writeError 405 ''method_not_allowed'' ''method not allowed'', srv)
      else
        let (err, sched') = Retry ops clk i (dec_retry env (Body r)) (srv_sched srv);
            srv1 = srv\<lparr>srv_sched := sched'\<rparr>
        in case err of
             Some e \<Rightarrow>
               if e = ErrJobNotFound
               then Returns (writeError 404 ''not_found'' ''job not found'', srv1)
               else Returns (writeError 500 ''internal_error'' (Error e), srv1)
           | None \<Rightarrow> answer_job ops env ''job.retried'' i srv1)"

definition deleteJob :: "'s JobStore \<Rightarrow> api_env \<Rightarrow> uuid \<Rightarrow> 's Server \<Rightarrow> 's served_by" where
  "deleteJob ops env i srv =
     (case Delete ops i (srv_store srv) of
        (Some e, s') \<Rightarrow>
          if e = ErrJobNotFound
          then Returns (writeError 404 ''not_found'' ''job not found'', with_store s' srv)
          else Returns (writeError 500 ''internal_error'' (Error e), with_store s' srv)
      | (None, s') \<Rightarrow>
          answer_after (publish_event (uuid_text env i) \<lparr>Event = ''job.deleted'',
              Data = DeletedData (uuid_text env i), EventID = uuid_text env i\<rparr> (with_store s' srv))
            \<lparr>code = 204, content = NoAnswer, headers = []\<rparr>)"

section \<open>The event stream\<close>

text \<open>
  \<open>handleEvents\<close> subscribes, writes a first event and then one text per keep-alive tick and
  per event received, until the client leaves; it unsubscribes on every return.
  \<open>json_Marshal\<close> is the encoding of the data of an event, \<open>flusher\<close> says whether the
  connection can be flushed.
\<close>

definition newline :: string where
  "newline = [CHR 0x0A]"

definition stream_key :: "api_request \<Rightarrow> string" where
  "stream_key r = (if Query r ''job_id'' = '''' then ''*'' else Query r ''job_id'')"

datatype stream_input = KeepAliveTick | EventReady

definition event_text :: "(event_data \<Rightarrow> string) \<Rightarrow> SSEEvent \<Rightarrow> string" where
  "event_text json_Marshal ev =
     ''event: '' @ Event ev @ newline @ ''data: '' @ json_Marshal (Data ev) @ newline @
     (if EventID ev \<noteq> '''' then ''id: '' @ EventID ev @ newline else '''') @ newline"

definition connected_text :: string where
  "connected_text = ''event: connected'' @ newline @
     ''data: {'' @ [CHR 0x22] @ ''status'' @ [CHR 0x22] @ '':'' @ [CHR 0x22] @ ''connected'' @
     [CHR 0x22] @ ''}'' @ newline @ newline"

definition stream_headers :: "(string, string) gomap" where
  "stream_headers = [(''Content-Type'', ''text/event-stream''), (''Cache-Control'', ''no-cache''),
     (''Connection'', ''keep-alive''), (''Access-Control-Allow-Origin'', ''*'')]"

text \<open>
  The headers set on the connection so far, overridden by those an answer sets itself.
\<close>

definition set_headers ::
    "(string, string) gomap \<Rightarrow> (string, string) gomap \<Rightarrow> (string, string) gomap" where
  "set_headers h own = fold (\<lambda>(k, v). AList.update k v) own h"

text \<open>
  The handler up to its loop: an answer, or the stream's channel and first text.
\<close>

datatype 's events_start =
    EventsAnswer response "'s Server"
  | EventsStream nat string "'s Server"
  | EventsPanic string

definition handleEvents :: "bool \<Rightarrow> api_request \<Rightarrow> 's Server \<Rightarrow> 's events_start" where
  "handleEvents flusher r srv =
     (if Method r \<noteq> ''GET''
      then EventsAnswer (writeError 405 ''method_not_allowed'' ''method not allowed'') srv
      else
        (case srv_eventBus srv of
           None \<Rightarrow> EventsPanic ''nil pointer dereference''
         | Some eb \<Rightarrow>
             (let (ch, eb') = Subscribe (stream_key r) eb
              in if flusher
                 then EventsStream ch connected_text (srv\<lparr>srv_eventBus := Some eb'\<rparr>)
                 else (let resp = writeError 500 ''internal_error'' ''streaming not supported''
                       in EventsAnswer (resp\<lparr>headers := set_headers stream_headers (headers resp)\<rparr>)
                            (srv\<lparr>srv_eventBus := Some (Unsubscribe (stream_key r) ch eb')\<rparr>)))))"

text \<open>One round of the loop: what is written. The event case needs an event in the buffer.\<close>

definition stream_step ::
    "(event_data \<Rightarrow> string) \<Rightarrow> nat \<Rightarrow> stream_input \<Rightarrow> EventBus \<Rightarrow> string \<times> EventBus" where
  "stream_step json_Marshal ch input eb =
     (case input of
        KeepAliveTick \<Rightarrow> ('': keepalive'' @ newline @ newline, eb)
      | EventReady \<Rightarrow>
          (case chan_buf (chans eb ! ch) of
             [] \<Rightarrow> ('''', eb)
           | ev # evs \<Rightarrow> (event_text json_Marshal ev,
               eb\<lparr>chans := (chans eb)[ch := (chans eb ! ch)\<lparr>chan_buf := evs\<rparr>]\<rparr>)))"

fun stream_loop ::
    "(event_data \<Rightarrow> string) \<Rightarrow> nat \<Rightarrow> stream_input list \<Rightarrow> EventBus \<Rightarrow> string \<times> EventBus" where
  "stream_loop json_Marshal ch [] eb = ('''', eb)"
| "stream_loop json_Marshal ch (input # inputs) eb =
     (let (text, eb1) = stream_step json_Marshal ch input eb;
          (rest, eb2) = stream_loop json_Marshal ch inputs eb1
      in (text @ rest, eb2))"

section \<open>Routes\<close>

definition handleJobs ::
    "'s JobStore \<Rightarrow> api_env \<Rightarrow> uuid \<Rightarrow> clock \<Rightarrow> api_request \<Rightarrow> 's Server \<Rightarrow> 's served_by" where
  "handleJobs ops env newID clk r srv =
     (if Method r = ''POST'' then submitJob ops env newID clk (Body r) srv
      else if Method r = ''GET'' then Returns (listJobs ops env (Query r) srv, srv)
      else Returns (writeError 405 ''method_not_allowed'' ''method not allowed'', srv))"

text \<open>\<open>strings.Split(s, "/")\<close>; it never returns an empty list.\<close>

fun split_slash :: "string \<Rightarrow> string list" where
  "split_slash [] = [[]]"
| "split_slash (c # cs) =
     (if c = CHR ''/'' then [] # split_slash cs
      else case split_slash cs of [] \<Rightarrow> [[c]] | (w # ws) \<Rightarrow> (c # w) # ws)"

text \<open>
  The result is \<open>None\<close> while a wait has no answer; \<open>events\<close> is what a wait observes.
\<close>

definition handleJobByID ::
    "'s JobStore \<Rightarrow> api_env \<Rightarrow> clock \<Rightarrow> 's wait_event list \<Rightarrow> api_request \<Rightarrow> 's Server \<Rightarrow>
       's served_by option" where
  "handleJobByID ops env clk events r srv =
     (let parts = split_slash (trim_prefix (Path r) ''/api/v1/jobs/'')
      in case parts of
           [] \<Rightarrow> Some (Returns (writeError 400 ''invalid_request'' ''job ID required'', srv))
         | idStr # rest \<Rightarrow>
             if idStr = ''''
             then Some (Returns (writeError 400 ''invalid_request'' ''job ID required'', srv))
             else case uuid_Parse env idStr of
                 None \<Rightarrow> Some (Returns (writeError 400 ''invalid_request'' ''invalid job ID format'', srv))
               | Some i \<Rightarrow>
                   (case rest of
                      sub # _ \<Rightarrow>
                        if sub = ''cancel'' then Some (cancelJob ops env clk r i srv)
                        else if sub = ''retry'' then Some (retryJob ops env clk r i srv)
                        else if sub = ''result''
                        then Some (Returns (getJobResult ops (Method r) i srv, srv))
                        else if sub = ''wait''
                        then map_option (\<lambda>resp. Returns (resp, srv)) (waitForJob ops env r i events)
                        else Some (Returns (writeError 404 ''not_found'' ''resource not found'', srv))
                    | [] \<Rightarrow>
                        if Method r = ''GET'' then Some (Returns (getJob ops env i srv, srv))
                        else if Method r = ''DELETE'' then Some (deleteJob ops env i srv)
                        else Some (Returns (writeError 405 ''method_not_allowed'' ''method not allowed'', srv))))"

definition api_endpoints :: "(string, string) gomap" where
  "api_endpoints =
     [(''POST /api/v1/jobs'', ''Submit a new job''),
      (''GET /api/v1/jobs'', ''List jobs with filters''),
      (''POST /api/v1/jobs/batch'', ''Submit multiple jobs''),
      (''GET /api/v1/jobs/{id}'', ''Get job by ID''),
      (''DELETE /api/v1/jobs/{id}'', ''Delete a job''),
      (''POST /api/v1/jobs/{id}/wait'', ''Wait for job completion (long-polling)''),
      (''POST /api/v1/jobs/{id}/cancel'', ''Cancel a job''),
      (''POST /api/v1/jobs/{id}/retry'', ''Retry a failed job''),
      (''GET /api/v1/jobs/{id}/result'', ''Get job result''),
      (''GET /api/v1/stats'', ''Get queue statistics''),
      (''GET /api/v1/events'', ''SSE stream for real-time updates''),
      (''GET /health'', ''Full health status''),
      (''GET /live'', ''Liveness probe''),
      (''GET /ready'', ''Readiness probe''),
      (''GET /metrics'', ''Metrics endpoint'')]"

definition api_features :: "string list" where
  "api_features =
     [''Priority queues (Critical, High, Normal, Low, Bulk)'',
      ''Batch job submission (up to 1000 jobs)'',
      ''Long-polling job wait'',
      ''Server-Sent Events (SSE) for real-time updates'',
      ''Automatic retries with exponential backoff'',
      ''Job checkpointing for crash recovery'',
      ''API key authentication'',
      ''Role-based authorization'']"

definition handleAPIInfo :: "string \<Rightarrow> response" where
  "handleAPIInfo path =
     (if path \<noteq> ''/api/v1'' \<and> path \<noteq> ''/api/v1/''
      then writeError 404 ''not_found'' ''endpoint not found''
      else writeJSON 200 (InfoAnswer ''GopherQueue API'' ''1.0.0'' api_endpoints api_features))"

definition handleHealth :: "'s JobStore \<Rightarrow> clock \<Rightarrow> 's Server \<Rightarrow> response" where
  "handleHealth ops clk srv =
     (let (status, h) = health_ServeHTTP ops clk (srv_store srv) (Some (srv_sched srv)) (srv_pool srv)
      in writeJSON status (HealthAnswer h))"

definition handleReady :: "'s JobStore \<Rightarrow> clock \<Rightarrow> 's Server \<Rightarrow> response" where
  "handleReady ops clk srv =
     (let h = CheckHealth ops clk (srv_store srv) (Some (srv_sched srv)) (srv_pool srv)
      in writeJSON (if \<not> HHealthy h then 503 else 200) (ReadyAnswer (HHealthy h)))"

definition handleLive :: response where
  "handleLive = writeJSON 200 AliveAnswer"

definition handleMetrics :: "clock \<Rightarrow> 's Server \<Rightarrow> response" where
  "handleMetrics clk srv = writeJSON 200 (MetricsAnswer (GetMetrics clk (srv_metrics srv)))"

text \<open>
  The table of \<open>registerRoutes\<close>. \<open>http.ServeMux\<close> picks the longest registered pattern:
  a pattern that ends in a slash covers everything below it, the others one path each. A path
  no pattern covers gets the mux's own 404.
\<close>

datatype route =
    JobsRoute | JobByIDRoute | BatchRoute | StatsRoute | EventsRoute | HealthRoute
  | ReadyRoute | LiveRoute | MetricsRoute | APIInfoRoute

definition exact_routes :: "(string \<times> route) list" where
  "exact_routes =
     [(''/api/v1/jobs'', JobsRoute), (''/api/v1/jobs/batch'', BatchRoute),
      (''/api/v1/stats'', StatsRoute), (''/api/v1/events'', EventsRoute),
      (''/health'', HealthRoute), (''/ready'', ReadyRoute), (''/live'', LiveRoute),
      (''/metrics'', MetricsRoute), (''/api/v1'', APIInfoRoute)]"

definition registerRoutes :: "string \<Rightarrow> route option" where
  "registerRoutes path =
     (case map_of exact_routes path of
        Some rt \<Rightarrow> Some rt
      | None \<Rightarrow>
          if has_prefix path ''/api/v1/jobs/'' then Some JobByIDRoute
          else if has_prefix path ''/api/v1/'' then Some APIInfoRoute
          else None)"

section \<open>Middleware\<close>

definition origin_allowed :: "string list \<Rightarrow> string \<Rightarrow> bool" where
  "origin_allowed origins origin \<longleftrightarrow> list_ex (\<lambda>o'. o' = ''*'' \<or> o' = origin) origins"

definition cors_headers :: "ApiServerConfig \<Rightarrow> api_request \<Rightarrow> (string, string) gomap" where
  "cors_headers cfg r =
     (let origin = Header_Get r ''Origin''
      in if origin \<noteq> '''' \<and> origin_allowed (CORSOrigins cfg) origin
         then [(''Access-Control-Allow-Origin'', origin),
               (''Access-Control-Allow-Methods'', ''GET, POST, PUT, DELETE, OPTIONS''),
               (''Access-Control-Allow-Headers'',
                ''Content-Type, Authorization, X-API-Key, X-Request-ID''),
               (''Access-Control-Allow-Credentials'', ''true''),
               (''Access-Control-Max-Age'', ''86400'')]
         else [])"

text \<open>
  What the middleware does before the next handler: it answers itself, or it hands on the
  request, with the principal in its context, and the headers it has set.
\<close>

definition middleware ::
    "api_env \<Rightarrow> (string, Principal option) range_order \<Rightarrow> clock \<Rightarrow> api_request \<Rightarrow> 's Server \<Rightarrow>
       response + api_request \<times> (string, string) gomap" where
  "middleware env ord clk r srv =
     (let cfg = srv_config srv;
          h1 = (if CORSEnabled cfg then cors_headers cfg r else [])
      in if CORSEnabled cfg \<and> Method r = ''OPTIONS''
         then Inl \<lparr>code = 204, content = NoAnswer, headers = h1\<rparr>
         else
           let given = Header_Get r ''X-Request-ID'';
               requestID = (if given = '''' then format_stamp env (clk 1) else given);
               h2 = AList.update ''X-Request-ID'' requestID h1
           in case (if AuthEnabled cfg then srv_auth srv else None) of
                None \<Rightarrow> Inr (r, h2)
              | Some keys \<Rightarrow>
                  if Path r \<noteq> ''/health'' \<and> Path r \<noteq> ''/live'' \<and> Path r \<noteq> ''/ready''
                  then (case AuthenticateRequest ord keys (http_request.truncate r) of
                          Inl e \<Rightarrow>
                            (let resp = writeError 401 ''unauthorized'' (auth_Error e)
                             in Inl (resp\<lparr>headers := h2 @ headers resp\<rparr>))
                        | Inr p \<Rightarrow> Inr (r\<lparr>ctx_principal := p\<rparr>, h2))
                  else Inr (r, h2))"

section \<open>The server's handler\<close>

text \<open>
  What a client sees of a request: an answer, a handler that panicked (the connection is
  closed), a wait that goes on, or a stream with its channel and first text.
\<close>

datatype 's exchange =
    Answered response "'s Server"
  | Panicked string
  | Waiting
  | Streaming nat string "(string, string) gomap" "'s Server"

definition with_headers :: "(string, string) gomap \<Rightarrow> response \<Rightarrow> response" where
  "with_headers h resp = resp\<lparr>headers := set_headers h (headers resp)\<rparr>"

definition exchange_of :: "(string, string) gomap \<Rightarrow> 's served_by \<Rightarrow> 's exchange" where
  "exchange_of h served =
     (case served of
        Panics m \<Rightarrow> Panicked m
      | Returns (resp, srv) \<Rightarrow> Answered (with_headers h resp) srv)"

text \<open>
  \<open>NewServer\<close> serves \<open>middleware(mux)\<close>. The mux answers a path without a route itself; paths
  are clean, that is without empty, dot and dot-dot segments, which the mux would redirect.
  \<open>pord\<close> is the order in which the pool's statistics range over its workers.
\<close>

definition route_request ::
    "'s JobStore \<Rightarrow> api_env \<Rightarrow> bool \<Rightarrow> (uuid, bool) range_order \<Rightarrow> (nat \<Rightarrow> uuid) \<Rightarrow> clock \<Rightarrow>
       's wait_event list \<Rightarrow> (string, string) gomap \<Rightarrow> api_request \<Rightarrow> 's Server \<Rightarrow> 's exchange" where
  "route_request ops env flusher pord newIDs clk events h r srv =
     (let reply = (\<lambda>resp. Answered (with_headers h resp) srv)
      in case registerRoutes (Path r) of
           None \<Rightarrow> reply \<lparr>code = 404, content = NoAnswer, headers = []\<rparr>
         | Some rt \<Rightarrow>
             (case rt of
                JobsRoute \<Rightarrow> exchange_of h (handleJobs ops env (newIDs 0) clk r srv)
              | JobByIDRoute \<Rightarrow>
                  (case handleJobByID ops env clk events r srv of
                     None \<Rightarrow> Waiting
                   | Some served \<Rightarrow> exchange_of h served)
              | BatchRoute \<Rightarrow> exchange_of h (handleBatchSubmit ops env newIDs clk r srv)
              | StatsRoute \<Rightarrow> reply (handleStats ops pord clk (Method r) srv)
              | EventsRoute \<Rightarrow>
                  (case handleEvents flusher r srv of
                     EventsPanic m \<Rightarrow> Panicked m
                   | EventsAnswer resp srv' \<Rightarrow> Answered (with_headers h resp) srv'
                   | EventsStream ch text srv' \<Rightarrow> Streaming ch text (set_headers h stream_headers) srv')
              | HealthRoute \<Rightarrow> reply (handleHealth ops clk srv)
              | ReadyRoute \<Rightarrow> reply (handleReady ops clk srv)
              | LiveRoute \<Rightarrow> reply handleLive
              | MetricsRoute \<Rightarrow> reply (handleMetrics clk srv)
              | APIInfoRoute \<Rightarrow> reply (handleAPIInfo (Path r))))"

definition ServeHTTP ::
    "'s JobStore \<Rightarrow> api_env \<Rightarrow> bool \<Rightarrow> (string, Principal option) range_order \<Rightarrow>
       (uuid, bool) range_order \<Rightarrow> (nat \<Rightarrow> uuid) \<Rightarrow> clock \<Rightarrow> 's wait_event list \<Rightarrow>
       api_request \<Rightarrow> 's Server \<Rightarrow> 's exchange" where
  "ServeHTTP ops env flusher kord pord newIDs clk events r srv =
     (case middleware env kord clk r srv of
        Inl resp \<Rightarrow> Answered resp srv
      | Inr (r', h) \<Rightarrow>
          route_request ops env flusher pord newIDs (later 2 clk) events h r' srv)"

end
