(* ===== verification/GQ_Serve.thy ===== *)
theory GQ_Serve
  imports GQ_Api GQ_Recovery
begin

text \<open>
  The serve command (\<open>cli/serve.go\<close>): how the components are put together and started, the
  order in which they are stopped, and the example handlers. The whole program is one state,
  \<open>System\<close>, whose store is the one in the scheduler's state.
\<close>

section \<open>Flags\<close>

record ServeFlags =
  httpAddr :: string
  workers :: int
  shutdownTimeout :: duration
  useBoltDB :: bool
  dataDir :: string

definition default_serve_flags :: ServeFlags where
  "default_serve_flags = \<lparr>httpAddr = '':8080'', workers = 10, shutdownTimeout = 30 * Second,
     useBoltDB = True, dataDir = ''./data''\<rparr>"

section \<open>Example handlers\<close>

definition echo_handler :: handler where
  "echo_handler job deadline = SetOutput (Payload job) (Return None)"

definition error_handler :: handler where
  "error_handler job deadline = Return (Some (ErrorString (''intentional error: '' @ Payload job)))"

text \<open>
  The sleep handler waits ten times for a tenth of the duration in the payload. \<open>ended d i\<close>
  says how the \<open>select\<close> of step \<open>i\<close> ends when it waits for \<open>d\<close>: by the context's error, or
  by the timer. \<open>parse\<close> is \<open>time.ParseDuration\<close>.
\<close>

definition sleep_duration :: "(string \<Rightarrow> duration option) \<Rightarrow> bytes \<Rightarrow> duration" where
  "sleep_duration parse payload =
     (if payload \<noteq> []
      then (case parse payload of None \<Rightarrow> 5 * Second | Some d \<Rightarrow> d)
      else 5 * Second)"

text \<open>Go's integer division truncates.\<close>

definition tenth :: "duration \<Rightarrow> duration" where
  "tenth d = (if d < 0 then - ((- d) div 10) else d div 10)"

fun sleep_steps :: "(duration \<Rightarrow> nat \<Rightarrow> gerror option) \<Rightarrow> duration \<Rightarrow> nat list \<Rightarrow> handler_run" where
  "sleep_steps ended d [] = Return None"
| "sleep_steps ended d (i # is) =
     (case ended d i of
        Some e \<Rightarrow> Return (Some e)
      | None \<Rightarrow> ReportProgress (fmul (fdiv (float_of_int (int i)) (float_of_int 10)) (float_of_int 100))
          (''Step '' @ fmt_d (int i) @ ''/'' @ fmt_d 10) (sleep_steps ended d is))"

definition sleep_handler ::
    "(string \<Rightarrow> duration option) \<Rightarrow> (instant \<Rightarrow> duration \<Rightarrow> nat \<Rightarrow> gerror option) \<Rightarrow> handler" where
  "sleep_handler parse ended job deadline =
     sleep_steps (ended deadline) (tenth (sleep_duration parse (Payload job))) [1..<11]"

definition registerExampleHandlers ::
    "(string \<Rightarrow> duration option) \<Rightarrow> (instant \<Rightarrow> duration \<Rightarrow> nat \<Rightarrow> gerror option) \<Rightarrow>
       SimplePool \<Rightarrow> SimplePool" where
  "registerExampleHandlers parse ended p =
     RegisterHandler ''error'' error_handler
       (RegisterHandler ''sleep'' (sleep_handler parse ended)
         (RegisterHandler ''echo'' echo_handler p))"

section \<open>The whole program\<close>

text \<open>
  The server holds the scheduler and, through it, the store, and the pool. The recovery
  manager's own copy of the store is not used here: it shares the server's.
\<close>

record 's System =
  sys_server :: "'s Server"
  sys_recovery :: "'s SimpleRecoveryManager"

text \<open>The store the flags ask for; opening the database file may fail.\<close>

definition serve_store ::
    "(string \<Rightarrow> gerror + 'b) \<Rightarrow> ServeFlags \<Rightarrow> string + (MemoryStore + 'b)" where
  "serve_store NewBoltStore flags =
     (if useBoltDB flags
      then (case NewBoltStore (dataDir flags) of
              Inl e \<Rightarrow> Inl (''failed to initialize BoltDB store: '' @ Error e)
            | Inr b \<Rightarrow> Inr (Inr b))
      else Inr (Inl NewMemoryStore))"

text \<open>
  The configurations \<open>runServe\<close> builds: fields it does not set have their zero value, among
  them the identifier of the workers and the API server's CORS and authentication switches.
\<close>

definition serve_pool_config :: "ServeFlags \<Rightarrow> WorkerConfig" where
  "serve_pool_config flags = \<lparr>WorkerConfigID = '''', Concurrency = workers flags,
     WorkerHeartbeatInterval = 30 * Second, JobTimeout = 30 * Minute,
     ShutdownGracePeriod = shutdownTimeout flags, CheckpointInterval = 0,
     WorkerDataDir = dataDir flags\<rparr>"

definition serve_api_config :: "ServeFlags \<Rightarrow> ApiServerConfig" where
  "serve_api_config flags = \<lparr>Addr = httpAddr flags, ReadTimeout = 30 * Second,
     WriteTimeout = 30 * Second, MaxRequestSize = 0, AuthEnabled = False, CORSEnabled = False,
     CORSOrigins = []\<rparr>"

text \<open>
  \<open>runServe\<close> up to the point where the program is ready, over an opened store. No start
  returns an error; creating the pool's channel may panic. The clock is read when the pool
  starts and when the server's metrics are made.
\<close>

definition runServe ::
    "(string \<Rightarrow> duration option) \<Rightarrow> (instant \<Rightarrow> duration \<Rightarrow> nat \<Rightarrow> gerror option) \<Rightarrow> string \<Rightarrow> clock \<Rightarrow>
       ServeFlags \<Rightarrow> 's \<Rightarrow> (string + 's System) go_result" where
  "runServe parse ended newID clk flags st =
     (case NewPriorityScheduler st (Some DefaultSchedulerConfig) of
        Panics m \<Rightarrow> Panics m
      | Returns sched0 \<Rightarrow>
          (case sched_Start sched0 of
             (Some e, sched) \<Rightarrow> Returns (Inl (''failed to start scheduler: '' @ Error e))
           | (None, sched) \<Rightarrow>
               (case NewSimplePool newID (Some (serve_pool_config flags)) of
                  Panics m \<Rightarrow> Panics m
                | Returns pool0 \<Rightarrow>
                    (case pool_Start (clk 0) (registerExampleHandlers parse ended pool0) of
                       (Some e, pool) \<Rightarrow> Returns (Inl (''failed to start worker pool: '' @ Error e))
                     | (None, pool) \<Rightarrow>
                         (case rec_Start (NewSimpleRecoveryManager st (Some DefaultRecoveryConfig)) of
                            (Some e, rec) \<Rightarrow> Returns (Inl (''failed to start recovery manager: '' @ Error e))
                          | (None, rec) \<Rightarrow>
                              Returns (Inr \<lparr>sys_server = NewServer (clk 1) sched (Some pool)
                                  (Some (serve_api_config flags)), sys_recovery = rec\<rparr>))))))"

text \<open>
  The shutdown after the signal: recovery manager, pool and scheduler are stopped in this
  order, after the HTTP server; an error is only logged.
\<close>

definition shutdown :: "'s System \<Rightarrow> 's System go_result" where
  "shutdown sys =
     (case rec_Stop (sys_recovery sys) of
        Panics m \<Rightarrow> Panics m
      | Returns (e1, rec) \<Rightarrow>
          (case map_option pool_Stop (srv_pool (sys_server sys)) of
             None \<Rightarrow> Panics ''nil pointer dereference''
           | Some (Panics m) \<Rightarrow> Panics m
           | Some (Returns (e2, pool)) \<Rightarrow>
               (case sched_Stop (srv_sched (sys_server sys)) of
                  Panics m \<Rightarrow> Panics m
                | Returns (e3, sched) \<Rightarrow>
                    Returns (sys\<lparr>sys_recovery := rec,
                      sys_server := (sys_server sys)\<lparr>srv_pool := Some pool, srv_sched := sched\<rparr>\<rparr>))))"

end
