(* ===== verification/GQ_Api_Props.thy ===== *)
theory GQ_Api_Props
  imports GQ_Api GQ_Sched_Props
begin

text \<open>
  Properties of the HTTP interface over any store that keeps the contract: what submitting does
  on every branch, that it is idempotent per key, what a delayed submission becomes, and what a
  batch accepts.
\<close>

section \<open>The server's invariant\<close>

definition server_ok :: "('s \<Rightarrow> bool) \<Rightarrow> 's Server \<Rightarrow> bool" where
  "server_ok sinv srv \<longleftrightarrow> sinv (sch_store (srv_sched srv)) \<and>
     (\<exists>eb. srv_eventBus srv = Some eb \<and> bus_ok eb)"

text \<open>The environment never prints a UUID as the wildcard key of the event bus.\<close>

definition uuid_texts_ok :: "api_env \<Rightarrow> bool" where
  "uuid_texts_ok env \<longleftrightarrow> (\<forall>i. uuid_text env i \<noteq> ''*'')"

lemma uuid_texts_okD [simp]: "uuid_texts_ok env \<Longrightarrow> uuid_text env i \<noteq> ''*''"
  by (simp add: uuid_texts_ok_def)

text \<open>A new bus in an otherwise equal server.\<close>

definition only_bus :: "'s Server \<Rightarrow> 's Server \<Rightarrow> bool" where
  "only_bus srv srv' \<longleftrightarrow> srv' = srv\<lparr>srv_eventBus := srv_eventBus srv'\<rparr>"

lemma only_bus_simps:
  assumes "only_bus srv srv'"
  shows "srv_sched srv' = srv_sched srv" "srv_pool srv' = srv_pool srv"
    "srv_metrics srv' = srv_metrics srv" "srv_auth srv' = srv_auth srv"
    "srv_config srv' = srv_config srv"
  using assms unfolding only_bus_def by (metis Server.simps Server.surjective Server.update_convs)+

lemma server_ok_store [simp]:
  "server_ok sinv (with_store s srv) \<longleftrightarrow> sinv s \<and> (\<exists>eb. srv_eventBus srv = Some eb \<and> bus_ok eb)"
  "srv_sched (with_store s srv) = (srv_sched srv)\<lparr>sch_store := s\<rparr>"
  "srv_eventBus (with_store s srv) = srv_eventBus srv"
  by (simp_all add: server_ok_def with_store_def)

lemma server_ok_sched [simp]:
  "server_ok sinv (srv\<lparr>srv_sched := sched\<rparr>) \<longleftrightarrow>
     sinv (sch_store sched) \<and> (\<exists>eb. srv_eventBus srv = Some eb \<and> bus_ok eb)"
  "server_ok sinv (srv\<lparr>srv_metrics := m\<rparr>) \<longleftrightarrow> server_ok sinv srv"
  by (simp_all add: server_ok_def)

lemma publish_ok:
  assumes "\<exists>eb. srv_eventBus srv = Some eb \<and> bus_ok eb" and "jobID \<noteq> ''*''"
  obtains srv' where "publish_event jobID ev srv = Returns srv'" "only_bus srv srv'"
    "\<exists>eb. srv_eventBus srv' = Some eb \<and> bus_ok eb"
proof -
  from assms(1) obtain eb where eb: "srv_eventBus srv = Some eb" "bus_ok eb" by blast
  from bus_ok_Publish [OF eb(2) assms(2), of ev] obtain eb'
    where "Publish jobID ev eb = Returns eb'" "bus_ok eb'" by blast
  with eb show ?thesis
    by (intro that [of "srv\<lparr>srv_eventBus := Some eb'\<rparr>"]) (simp_all add: publish_event_def only_bus_def)
qed

lemma Enqueue_effect:
  "fst (snd (Enqueue clk job sched)) = None"
  "sch_store (snd (snd (Enqueue clk job sched))) = sch_store sched"
  "ID (fst (Enqueue clk job sched)) = ID job"
  "State (fst (Enqueue clk job sched)) =
     (if Delay job > 0 \<or> ScheduledAt job \<noteq> 0 \<and> ScheduledAt job > clk 0
      then JobStateDelayed else JobStatePending)"
  by (auto simp: Enqueue_def Let_def IsZero_def)

section \<open>Submitting\<close>

text \<open>A submission that the store accepts.\<close>

lemma submitJob_created:
  assumes "\<exists>eb. srv_eventBus srv = Some eb \<and> bus_ok eb" and "uuid_texts_ok env"
    and "dec_submit env body = Some req" and "ReqType req \<noteq> ''''"
    and "Create ops (createJobFromRequest env newID clk req) (sch_store (srv_sched srv)) = (None, s')"
  shows "\<exists>job' srv'. submitJob ops env newID clk body srv =
      Returns (writeJSON 201 (JobAnswer (jobToResponse (uuid_text env) job')), srv') \<and>
    job' = fst (Enqueue (later 3 clk) (createJobFromRequest env newID clk req)
      ((srv_sched srv)\<lparr>sch_store := s'\<rparr>)) \<and>
    sch_store (srv_sched srv') = s' \<and> (\<exists>eb. srv_eventBus srv' = Some eb \<and> bus_ok eb)"
proof -
  let ?job = "createJobFromRequest env newID clk req"
  obtain job' err sched' where enq:
      "Enqueue (later 3 clk) ?job ((srv_sched srv)\<lparr>sch_store := s'\<rparr>) = (job', err, sched')"
    by (metis prod_cases3)
  then have err: "err = None" "sch_store sched' = s'"
    using Enqueue_effect(1,2) [of "later 3 clk" ?job "(srv_sched srv)\<lparr>sch_store := s'\<rparr>"] by simp_all
  let ?srv3 = "(with_store s' srv)\<lparr>srv_sched := sched',
    srv_metrics := RecordJobEnqueued (JobType job') (Priority job') (srv_metrics (with_store s' srv))\<rparr>"
  have "\<exists>eb. srv_eventBus ?srv3 = Some eb \<and> bus_ok eb" using assms(1) by simp
  from publish_ok [OF this uuid_texts_okD [OF assms(2)], of "ID job'" "job_event env ''job.created'' job'"]
  obtain srv' where pub: "publish_event (uuid_text env (ID job')) (job_event env ''job.created'' job') ?srv3 = Returns srv'"
      "only_bus ?srv3 srv'" "\<exists>eb. srv_eventBus srv' = Some eb \<and> bus_ok eb" .
  have "submitJob ops env newID clk body srv =
      Returns (writeJSON 201 (JobAnswer (jobToResponse (uuid_text env) job')), srv')"
    using assms(3-5) enq err pub(1) by (simp add: submitJob_def answer_after_def)
  then show ?thesis using pub(2,3) err enq only_bus_simps(1) [OF pub(2)] by auto
qed

text \<open>One that it refuses.\<close>

lemma submitJob_refused:
  assumes "dec_submit env body = Some req" and "ReqType req \<noteq> ''''"
    and "Create ops (createJobFromRequest env newID clk req) (sch_store (srv_sched srv)) = (Some e, s')"
  shows "submitJob ops env newID clk body srv = Returns (
    (if e = ErrJobAlreadyExists
     then (case (if ReqIdempotencyKey req \<noteq> '''' then GetByIdempotencyKey ops (ReqIdempotencyKey req) s'
                 else Inl ErrJobNotFound) of
             Inr existing \<Rightarrow> writeJSON 200 (JobAnswer (jobToResponse (uuid_text env) existing))
           | Inl _ \<Rightarrow> writeError 409 ''conflict'' ''job already exists'')
     else writeError 500 ''internal_error'' (Error e)), with_store s' srv)"
  using assms by (auto simp: submitJob_def Let_def split: sum.split)

text \<open>A request that does not get as far as the store.\<close>

lemma submitJob_invalid:
  assumes "case dec_submit env body of None \<Rightarrow> True | Some req \<Rightarrow> ReqType req = ''''"
  shows "\<exists>c m. submitJob ops env newID clk body srv = Returns (writeError 400 c m, srv)"
  using assms by (auto simp: submitJob_def split: option.splits)

text \<open>The fields of a created job that the request decides or that no option touches.\<close>

lemma fold_preserves:
  "\<forall>opt \<in> set opts. \<forall>j. f (opt j) = f j \<Longrightarrow> f (fold (\<lambda>opt j. opt j) opts j) = f j"
  by (induction opts arbitrary: j) auto

lemma request_options_core:
  "\<forall>opt \<in> set (request_options env t req). \<forall>j. (ID (opt j), State (opt j), JobType (opt j)) =
     (ID j, State j, JobType j)"
  unfolding request_options_def set_append ball_Un
  apply (intro conjI)
         apply (simp_all only: option_defs split: option.split)
        apply simp_all
  done

lemma created_fields [simp]:
  "ID (createJobFromRequest env newID clk req) = newID"
  "State (createJobFromRequest env newID clk req) = JobStatePending"
  "JobType (createJobFromRequest env newID clk req) = ReqType req"
  using fold_preserves [OF request_options_core]
  by (simp_all add: createJobFromRequest_def NewJob_def Let_def)

lemma fold_chunk:
  "fold (\<lambda>opt j. opt j) (if c then [f] else []) j = (if c then f j else j)"
  "fold (\<lambda>opt j. opt j) (case x of None \<Rightarrow> [] | Some y \<Rightarrow> [g y]) j =
     (case x of None \<Rightarrow> j | Some y \<Rightarrow> g y j)"
  "fold (\<lambda>opt j. opt j) (case x of None \<Rightarrow> [] | Some y \<Rightarrow> if d y then [g y] else []) j =
     (case x of None \<Rightarrow> j | Some y \<Rightarrow> if d y then g y j else j)"
  "fold (\<lambda>opt j. opt j) (if c then (case x of None \<Rightarrow> [] | Some y \<Rightarrow> [g y]) else []) j =
     (if c then (case x of None \<Rightarrow> j | Some y \<Rightarrow> g y j) else j)"
  by (simp_all split: option.split)

lemma case_option_same: "(case x of None \<Rightarrow> a | Some _ \<Rightarrow> a) = a"
  by (cases x) simp_all

lemmas created_fold = createJobFromRequest_def NewJob_def Let_def request_options_def fold_append
  comp_def fold_chunk option_defs

lemma created_key [simp]:
  "IdempotencyKey (createJobFromRequest env newID clk req) = ReqIdempotencyKey req"
  by (simp add: created_fold zero_Job_def case_option_same if_distrib [of IdempotencyKey] option.case_distrib [of IdempotencyKey]
      cong: if_cong option.case_cong)

lemma created_Delay [simp]:
  "Delay (createJobFromRequest env newID clk req) =
     (if ReqDelay req \<noteq> '''' then (case ParseDuration env (ReqDelay req) of None \<Rightarrow> 0 | Some d \<Rightarrow> d) else 0)"
  by (simp add: created_fold zero_Job_def case_option_same if_distrib [of Delay] option.case_distrib [of Delay]
      cong: if_cong option.case_cong)

lemma with_store_same [simp]: "with_store (sch_store (srv_sched srv)) srv = srv"
  by (simp add: with_store_def)

lemma writeJSON_simps [simp]:
  "code (writeJSON n a) = n" "content (writeJSON n a) = a" "code (writeError n c m) = n"
  by (simp_all add: writeJSON_def writeError_def)

lemma jobToResponse_simps [simp]:
  "RespID (jobToResponse f j) = f (ID j)" "RespState (jobToResponse f j) = string_of_JobState (State j)"
  by (simp_all add: jobToResponse_def)

context job_store
begin

lemma submitJob_cases:
  assumes "server_ok inv srv" and "uuid_texts_ok env"
  obtains (invalid) c m where "submitJob ops env newID clk body srv = Returns (writeError 400 c m, srv)"
    | (refused) req e s' resp where "dec_submit env body = Some req" "ReqType req \<noteq> ''''"
      "Create ops (createJobFromRequest env newID clk req) (sch_store (srv_sched srv)) = (Some e, s')"
      "submitJob ops env newID clk body srv = Returns (resp, with_store s' srv)"
      "code resp \<in> {200, 409, 500}" "inv s'" "jobs_of s' = jobs_of (sch_store (srv_sched srv))"
    | (created) req job' srv' where "dec_submit env body = Some req" "ReqType req \<noteq> ''''"
      "Create ops (createJobFromRequest env newID clk req) (sch_store (srv_sched srv)) =
         (None, sch_store (srv_sched srv'))"
      "submitJob ops env newID clk body srv =
         Returns (writeJSON 201 (JobAnswer (jobToResponse (uuid_text env) job')), srv')"
      "ID job' = newID" "server_ok inv srv'"
      "State job' = (let job = createJobFromRequest env newID clk req
         in if Delay job > 0 \<or> ScheduledAt job \<noteq> 0 \<and> ScheduledAt job > clk 3
            then JobStateDelayed else JobStatePending)"
proof -
  have ok: "inv (sch_store (srv_sched srv))" and bus: "\<exists>eb. srv_eventBus srv = Some eb \<and> bus_ok eb"
    using assms(1) by (simp_all add: server_ok_def)
  show ?thesis
  proof (cases "case dec_submit env body of None \<Rightarrow> True | Some req \<Rightarrow> ReqType req = ''''")
    case True
    then show ?thesis using submitJob_invalid invalid by metis
  next
    case False
    then obtain req where req: "dec_submit env body = Some req" "ReqType req \<noteq> ''''"
      by (auto split: option.splits)
    let ?job = "createJobFromRequest env newID clk req"
    obtain err s' where c: "Create ops ?job (sch_store (srv_sched srv)) = (err, s')" by fastforce
    show ?thesis
    proof (cases err)
      case (Some e)
      with c have c: "Create ops ?job (sch_store (srv_sched srv)) = (Some e, s')" by simp
      from Create_err [OF ok c] have s': "inv s'" "jobs_of s' = jobs_of (sch_store (srv_sched srv))"
        by simp_all
      show ?thesis
        by (rule refused [OF req c submitJob_refused [OF req c] _ s']) (simp split: sum.split)
    next
      case None
      with c have c: "Create ops ?job (sch_store (srv_sched srv)) = (None, s')" by simp
      from submitJob_created [OF bus assms(2) req c] obtain job' srv' where
        sub: "submitJob ops env newID clk body srv =
          Returns (writeJSON 201 (JobAnswer (jobToResponse (uuid_text env) job')), srv')"
        and job': "job' = fst (Enqueue (later 3 clk) ?job ((srv_sched srv)\<lparr>sch_store := s'\<rparr>))"
        and srv': "sch_store (srv_sched srv') = s'" "\<exists>eb. srv_eventBus srv' = Some eb \<and> bus_ok eb"
        by blast
      have "inv s'" using Create_ok [OF ok c] by simp
      with srv' have "server_ok inv srv'" by (simp add: server_ok_def)
      with req c sub srv' job' show ?thesis
        by (intro created [of req srv' job']) (simp_all only: Enqueue_effect Let_def created_fields later_apply, simp_all)
    qed
  qed
qed

end

section \<open>A concrete server\<close>

definition example_submit :: "string \<Rightarrow> JobSubmitRequest" where
  "example_submit k = \<lparr>ReqType = ''email'', ReqPayload = ''hi'', ReqPriority = Some 0,
     ReqIdempotencyKey = k, ReqCorrelationID = '''', ReqDelay = ''5s'', ReqScheduledAt = None,
     ReqTimeout = '''', ReqMaxAttempts = None, ReqTags = None\<rparr>"

definition example_env :: api_env where
  "example_env = \<lparr>
     dec_submit = (\<lambda>b. if b = '''' then None else Some (example_submit b)),
     dec_batch = (\<lambda>b. Some \<lparr>BatchJobs = [(example_submit b)\<lparr>ReqType := ''''\<rparr>, example_submit b],
                            Atomic = False\<rparr>),
     dec_wait = (\<lambda>b. None), dec_cancel = (\<lambda>b. (b, False)), dec_retry = (\<lambda>b. True),
     ParseDuration = (\<lambda>t. if t = ''5s'' then Some (5 * Second) else None),
     uuid_Parse = (\<lambda>t. if t = ''one'' then Some 1 else None),
     uuid_text = (\<lambda>i. if i = 1 then ''one'' else ''other''), format_stamp = (\<lambda>t. ''now'')\<rparr>"

definition example_server :: "Job list \<Rightarrow> MemoryStore Server" where
  "example_server js = NewServer 0 (example_sched js) None None"

lemma example_server_ok [simp]: "distinct (map ID js) \<Longrightarrow> server_ok mem_inv (example_server js)"
  by (simp add: server_ok_def example_server_def NewServer_def)

lemma example_env_ok [simp]: "uuid_texts_ok example_env"
  by (simp add: uuid_texts_ok_def example_env_def)

lemma example_server_store [simp]: "sch_store (srv_sched (example_server js)) = example_store js"
  by (simp add: example_server_def NewServer_def)

lemma example_env_submit [simp]:
  "k \<noteq> '''' \<Longrightarrow> dec_submit example_env k = Some (example_submit k)"
  "ReqType (example_submit k) = ''email''" "ReqIdempotencyKey (example_submit k) = k"
  "ReqDelay (example_submit k) = ''5s''" "ParseDuration example_env ''5s'' = Some (5 * Second)"
  by (simp_all add: example_env_def example_submit_def)

section \<open>What a submission does\<close>

text \<open>
  C18: submitting a job on every branch: the handler always answers, and either answers 201,
  and then exactly the new job, pending and under a fresh identifier, has been added to the
  store, or answers 200, 400, 409 or 500, and then no job has been added, removed or changed.
\<close>

theorem submitJob_outcome:
  assumes "job_store ops sinv storable jobs_of results_of checkpoints_of idem_of"
    and "server_ok sinv srv" and "uuid_texts_ok env"
  shows "\<exists>resp srv'. submitJob ops env newID clk body srv = Returns (resp, srv') \<and> server_ok sinv srv' \<and>
    (let before = jobs_of (sch_store (srv_sched srv)); now = jobs_of (sch_store (srv_sched srv'))
     in code resp = 201 \<and> before newID = None \<and>
          (\<exists>req j r. dec_submit env body = Some req \<and> now = before(newID \<mapsto> j) \<and>
             State j = JobStatePending \<and> JobType j = ReqType req \<and> JobType j \<noteq> '''' \<and>
             IdempotencyKey j = ReqIdempotencyKey req \<and>
             content resp = JobAnswer r \<and> RespID r = uuid_text env newID) \<or>
        code resp \<in> {200, 400, 409, 500} \<and> now = before)"
proof (cases rule: job_store.submitJob_cases [OF assms, of newID clk body])
  case (1 c m)
  with assms(2) show ?thesis by simp
next
  case (2 req e s' resp)
  then have "server_ok sinv (with_store s' srv)" using assms(2) by (simp add: server_ok_def)
  with 2 show ?thesis by (auto simp: Let_def)
next
  case (3 req job' srv')
  have "sinv (sch_store (srv_sched srv))" using assms(2) by (simp add: server_ok_def)
  from job_store.Create_ok [OF assms(1) this 3(3)] 3 show ?thesis by (auto simp: Let_def)
qed

theorem submitJob_outcome_witness:
  "\<exists>resp srv'. submitJob (memory_store (\<lambda>m. m)) example_env 1 (\<lambda>_. 7) '''' (example_server []) =
     Returns (resp, srv') \<and> server_ok mem_inv srv'"
  using submitJob_outcome [OF mem.job_store_axioms example_server_ok example_env_ok,
      of "[]" 1 "\<lambda>_. 7" "''''"] by auto



lemma example_create:
  "\<exists>s'. mem_Create j (example_store []) = (None, s') \<and> mem_jobs s' = [(ID j, j)]"
  by (simp add: mem_Create_def example_store_def NewMemoryStore_def Let_def)

lemma example_submission:
  "\<exists>resp srv1. submitJob (memory_store (\<lambda>m. m)) example_env 1 clk ''k'' (example_server []) =
     Returns (resp, srv1) \<and> code resp = 201 \<and> length (mem_jobs (sch_store (srv_sched srv1))) = 1"
proof -
  let ?j = "createJobFromRequest example_env 1 clk (example_submit ''k'')"
  have bus: "\<exists>eb. srv_eventBus (example_server []) = Some eb \<and> bus_ok eb"
    using example_server_ok [of "[]"] by (simp add: server_ok_def)
  from example_create [of ?j] obtain s' where "mem_Create ?j (example_store []) = (None, s')"
    and len: "mem_jobs s' = [(ID ?j, ?j)]" by blast
  then have "Create (memory_store (\<lambda>m. m)) ?j (sch_store (srv_sched (example_server []))) = (None, s')"
    by simp
  from submitJob_created [OF bus example_env_ok _ _ this, of "''k''"] len show ?thesis by auto
qed


text \<open>
  C33: a submission with a positive delay is answered as delayed, but the stored job is pending:
  \<open>Enqueue\<close> marks only the handler's copy, after the job was stored. The store's next list of
  pending jobs contains it unless the list is full, whatever the delay, and the loop for
  delayed jobs never sees it.
\<close>

theorem delayed_submission_pending:
  assumes "job_store ops sinv storable jobs_of results_of checkpoints_of idem_of"
    and "server_ok sinv srv" and "uuid_texts_ok env"
    and "submitJob ops env newID clk body srv = Returns (resp, srv1)" and "code resp = 201"
    and "dec_submit env body = Some req" and "ParseDuration env (ReqDelay req) = Some d"
    and "ReqDelay req \<noteq> ''''" and "d > 0"
    and "GetPending ops limit (sch_store (srv_sched srv1)) = Inr js"
    and "int (length js) < effective_limit limit"
    and "GetDelayed ops t limit' (sch_store (srv_sched srv1)) = Inr ds"
  shows "\<exists>r j. content resp = JobAnswer r \<and> RespID r = uuid_text env newID \<and>
    RespState r = ''delayed'' \<and> j \<in> set js \<and> ID j = newID \<and> State j = JobStatePending \<and>
    newID \<notin> ID ` set ds"
proof (cases rule: job_store.submitJob_cases [OF assms(1-3), of newID clk body])
  case (1 c m)
  with assms(4,5) show ?thesis by auto
next
  case (2 req' e s' resp')
  with assms(4,5) show ?thesis by auto
next
  case (3 req' job' srv')
  let ?j = "createJobFromRequest env newID clk req"
  have eqs: "srv' = srv1" "req' = req" "resp = writeJSON 201 (JobAnswer (jobToResponse (uuid_text env) job'))"
    using 3 assms(4,6) by simp_all
  have inv: "sinv (sch_store (srv_sched srv))" "sinv (sch_store (srv_sched srv1))"
    using assms(2) 3 eqs by (simp_all add: server_ok_def)
  have job: "jobs_of (sch_store (srv_sched srv1)) newID = Some ?j"
    using job_store.Create_ok [OF assms(1) inv(1) 3(3) [unfolded eqs(1,2)]] by simp
  have "?j \<in> set js"
    using job_store.GetPending [OF assms(1) inv(2), of limit] assms(10,11) job
    by (auto simp: is_pending_def)
  moreover have "newID \<notin> ID ` set ds"
  proof
    assume "newID \<in> ID ` set ds"
    then obtain k where k: "k \<in> set ds" "ID k = newID" by blast
    have "\<forall>k \<in> set ds. jobs_of (sch_store (srv_sched srv1)) (ID k) = Some k \<and> State k = JobStateDelayed"
      using job_store.GetDelayed [OF assms(1) inv(2), of t limit'] assms(12) by auto
    with k job have "k = ?j" "State k = JobStateDelayed" by auto
    moreover have "State ?j = JobStatePending" by (rule created_fields)
    ultimately show False by simp
  qed
  moreover have "State job' = JobStateDelayed" using 3(7) eqs assms(7-9) by simp
  ultimately show ?thesis using 3(5) eqs
    by (intro exI [of _ "jobToResponse (uuid_text env) job'"] exI [of _ ?j]) simp
qed

theorem delayed_submission_pending_witness:
  "\<exists>resp r srv1 js j. submitJob (memory_store (\<lambda>m. m)) example_env 1 (\<lambda>_. 7) ''k'' (example_server []) =
      Returns (resp, srv1) \<and> content resp = JobAnswer r \<and> RespState r = ''delayed'' \<and>
    mem_GetPending (\<lambda>m. m) 10 (sch_store (srv_sched srv1)) = Inr js \<and> j \<in> set js \<and> ID j = 1"
proof -
  let ?ops = "memory_store (\<lambda>m. m)"
  from example_submission [of "\<lambda>_. 7"] obtain resp srv1
    where sub: "submitJob ?ops example_env 1 (\<lambda>_. 7) ''k'' (example_server []) = Returns (resp, srv1)"
      and code: "code resp = 201" and len: "length (mem_jobs (sch_store (srv_sched srv1))) = 1" by blast
  let ?s = "sch_store (srv_sched srv1)"
  obtain js where js: "mem_GetPending (\<lambda>m. m) 10 ?s = Inr js" "length js \<le> 1"
    using len length_filter_le [of is_pending "map snd (mem_jobs ?s)"]
    by (simp add: mem_GetPending_eq effective_limit_def)
  obtain ds where ds: "GetDelayed ?ops 8 10 ?s = Inr ds" by (simp add: mem_GetDelayed_def)
  from delayed_submission_pending [OF mem.job_store_axioms example_server_ok example_env_ok sub code,
      of "example_submit ''k''" "5 * Second" 10 js 8 10 ds] sub js ds
  show ?thesis by (auto simp: effective_limit_def)
qed

section \<open>What a batch does\<close>

lemma batch_create_results:
  assumes "batch_create env atomic newIDs clk i reqs = Inr (results, jobs)"
  shows "length results = length reqs \<and> length (filter ResSuccess results) = length jobs \<and>
    length jobs + length (filter (Not \<circ> ResSuccess) results) = length reqs"
  using assms
proof (induction env atomic newIDs clk i reqs arbitrary: results jobs rule: batch_create.induct)
  case (1 env atomic newIDs clk i)
  then show ?case by simp
next
  case (2 env atomic newIDs clk i req reqs)
  show ?case
  proof (cases "ReqType req = ''''")
    case True
    with "2.prems" obtain results' where
      "batch_create env atomic newIDs clk (Suc i) reqs = Inr (results', jobs)"
      "results = \<lparr>ResIndex = int i, ResSuccess = False, ResJob = zero_JobResponse,
         ResError = ''job type is required''\<rparr> # results'" "\<not> atomic"
      by (auto split: sum.splits if_splits)
    with "2.IH"(1) [OF True] show ?thesis by auto
  next
    case False
    with "2.prems" obtain results' jobs' r where
      rest: "batch_create env atomic newIDs (later 3 clk) (Suc i) reqs = Inr (results', jobs')"
      and "results = r # results'" "ResSuccess r" "jobs = createJobFromRequest env (newIDs i) clk req # jobs'"
      by (auto simp: Let_def split: sum.splits)
    with "2.IH"(2) [OF False refl rest] show ?thesis by auto
  qed
qed

lemma batch_response_counts:
  assumes "batch_create env atomic newIDs clk i reqs = Inr (results, jobs)"
  shows "Total (batch_response results) = int (length reqs)"
    "Accepted (batch_response results) = int (length jobs)"
    "Accepted (batch_response results) + Rejected (batch_response results) = int (length reqs)"
    "length (Results (batch_response results)) = length reqs"
  using batch_create_results [OF assms] by (auto simp: batch_response_def)

text \<open>The jobs a batch adds to the store's contents.\<close>

definition stored_on_top :: "(uuid \<Rightarrow> Job option) \<Rightarrow> Job list \<Rightarrow> (uuid \<Rightarrow> Job option) \<Rightarrow> bool" where
  "stored_on_top before js now \<longleftrightarrow> distinct (map ID js) \<and> ID ` set js \<inter> dom before = {} \<and>
     now = before ++ map_of (map (\<lambda>j. (ID j, j)) js)"

lemma stored_on_top_Nil [simp]: "stored_on_top before [] now \<longleftrightarrow> now = before"
  by (simp add: stored_on_top_def)

lemma stored_on_top_Cons:
  assumes "before (ID j) = None" and "stored_on_top (before(ID j \<mapsto> j)) js now"
  shows "stored_on_top before (j # js) now"
  using assms by (auto simp: stored_on_top_def map_add_def fun_eq_iff dest!: map_of_SomeD split: option.split)

context job_store
begin

lemma batch_persist_stored:
  assumes "server_ok inv srv" and "uuid_texts_ok env"
  shows "\<exists>resp' srv'. batch_persist ops env atomic clk i jobs resp srv = Returns (resp', srv') \<and>
    server_ok inv srv' \<and>
    (\<exists>js. stored_on_top (jobs_of (sch_store (srv_sched srv))) js (jobs_of (sch_store (srv_sched srv'))) \<and>
       set js \<subseteq> set jobs \<and>
       (code resp' = 500 \<and> atomic \<or>
        code resp' = 201 \<and> (\<exists>b. content resp' = BatchAnswer b \<and> Total b = Total resp \<and>
          length (Results b) = length (Results resp) \<and>
          Accepted b + Rejected b = Accepted resp + Rejected resp \<and>
          Accepted b = Accepted resp - int (length jobs) + int (length js))))"
  using assms(1)
proof (induction jobs arbitrary: clk i resp srv)
  case Nil
  then show ?case by (auto intro!: exI [of _ "[]"])
next
  case (Cons job jobs)
  let ?s = "sch_store (srv_sched srv)"
  have ok: "inv ?s" and bus: "\<exists>eb. srv_eventBus srv = Some eb \<and> bus_ok eb"
    using Cons.prems by (simp_all add: server_ok_def)
  obtain err s' where c: "Create ops job ?s = (err, s')" by fastforce
  show ?case
  proof (cases err)
    case (Some e)
    with Create_err [OF ok] c have s': "inv s'" "jobs_of s' = jobs_of ?s" by auto
    show ?thesis
    proof (cases atomic)
      case True
      with Some c s' bus show ?thesis by (auto intro!: exI [of _ "[]"])
    next
      case False
      let ?resp = "resp\<lparr>Results := (Results resp)[i := (Results resp ! i)\<lparr>ResSuccess := False,
        ResError := Error e\<rparr>], Accepted := Accepted resp - 1, Rejected := Rejected resp + 1\<rparr>"
      have "server_ok inv (with_store s' srv)" using s' bus by simp
      from Cons.IH [OF this, of clk "Suc i" ?resp] obtain resp' srv' js b where
        "batch_persist ops env atomic clk (Suc i) jobs ?resp (with_store s' srv) = Returns (resp', srv')"
        "server_ok inv srv'" "stored_on_top (jobs_of s') js (jobs_of (sch_store (srv_sched srv')))"
        "set js \<subseteq> set jobs" "code resp' = 201" "content resp' = BatchAnswer b" "Total b = Total ?resp"
        "length (Results b) = length (Results ?resp)"
        "Accepted b + Rejected b = Accepted ?resp + Rejected ?resp"
        "Accepted b = Accepted ?resp - int (length jobs) + int (length js)"
        using False by auto
      with Some c False s' show ?thesis by (auto intro!: exI [of _ js])
    qed
  next
    case None
    with Create_ok [OF ok] c have s': "inv s'" "jobs_of ?s (ID job) = None"
      "jobs_of s' = (jobs_of ?s)(ID job \<mapsto> job)" by auto
    obtain job' err' sched' where enq: "Enqueue clk job ((srv_sched srv)\<lparr>sch_store := s'\<rparr>) = (job', err', sched')"
      by (metis prod_cases3)
    then have enq': "err' = None" "sch_store sched' = s'"
      using Enqueue_effect(1,2) [of clk job "(srv_sched srv)\<lparr>sch_store := s'\<rparr>"] by simp_all
    let ?srv3 = "(with_store s' srv)\<lparr>srv_sched := sched',
      srv_metrics := RecordJobEnqueued (JobType job') (Priority job') (srv_metrics (with_store s' srv))\<rparr>"
    have "\<exists>eb. srv_eventBus ?srv3 = Some eb \<and> bus_ok eb" using bus by simp
    from publish_ok [OF this uuid_texts_okD [OF assms(2)], of "ID job'" "job_event env ''job.created'' job'"]
    obtain srv4 where pub: "publish_event (uuid_text env (ID job')) (job_event env ''job.created'' job') ?srv3 =
        Returns srv4" "only_bus ?srv3 srv4" "\<exists>eb. srv_eventBus srv4 = Some eb \<and> bus_ok eb" .
    have srv4: "sch_store (srv_sched srv4) = s'" using only_bus_simps(1) [OF pub(2)] enq' by simp
    then have "server_ok inv srv4" using s' pub(3) by (simp add: server_ok_def)
    from Cons.IH [OF this, of "later 1 clk" "Suc i" resp] obtain resp' srv' js where
      IH: "batch_persist ops env atomic (later 1 clk) (Suc i) jobs resp srv4 = Returns (resp', srv')"
        "server_ok inv srv'" "set js \<subseteq> set jobs"
        "stored_on_top (jobs_of s') js (jobs_of (sch_store (srv_sched srv')))"
      and b: "code resp' = 500 \<and> atomic \<or>
        code resp' = 201 \<and> (\<exists>b. content resp' = BatchAnswer b \<and> Total b = Total resp \<and>
          length (Results b) = length (Results resp) \<and>
          Accepted b + Rejected b = Accepted resp + Rejected resp \<and>
          Accepted b = Accepted resp - int (length jobs) + int (length js))"
      unfolding srv4 by blast
    have step: "batch_persist ops env atomic clk i (job # jobs) resp srv = Returns (resp', srv')"
      using c None enq enq'(1) pub(1) IH(1) by (simp add: Let_def)
    have "stored_on_top (jobs_of ?s) (job # js) (jobs_of (sch_store (srv_sched srv')))"
      using IH(4) s' by (intro stored_on_top_Cons) simp_all
    with step IH(2,3) b show ?thesis
      by (intro exI [of _ resp'] exI [of _ srv'] conjI exI [of _ "job # js"]) auto
  qed
qed

end

context job_store
begin

lemma handleBatchSubmit_cases:
  assumes "server_ok inv srv" and "uuid_texts_ok env"
  shows "\<exists>resp srv' js. handleBatchSubmit ops env newIDs clk r srv = Returns (resp, srv') \<and>
    server_ok inv srv' \<and>
    stored_on_top (jobs_of (sch_store (srv_sched srv))) js (jobs_of (sch_store (srv_sched srv'))) \<and>
    (code resp \<in> {400, 405} \<and> js = [] \<or>
     (\<exists>req. dec_batch env (Body r) = Some req \<and> Method r = ''POST'' \<and>
        BatchJobs req \<noteq> [] \<and> length (BatchJobs req) \<le> 1000 \<and>
        (code resp = 500 \<and> Atomic req \<or>
         code resp = 201 \<and> (\<exists>b. content resp = BatchAnswer b \<and> Total b = int (length (BatchJobs req)) \<and>
           length (Results b) = length (BatchJobs req) \<and> Accepted b + Rejected b = Total b \<and>
           Accepted b = int (length js)))))"
proof (cases "Method r = ''POST'' \<and> dec_batch env (Body r) \<noteq> None")
  case False
  with assms show ?thesis by (auto simp: handleBatchSubmit_def intro!: exI [of _ "[]"])
next
  case True
  then obtain req where req: "dec_batch env (Body r) = Some req" "Method r = ''POST''" by auto
  show ?thesis
  proof (cases "BatchJobs req = [] \<or> length (BatchJobs req) > 1000")
    case True
    with req assms show ?thesis by (auto simp: handleBatchSubmit_def intro!: exI [of _ "[]"])
  next
    case False
    show ?thesis
    proof (cases "batch_create env (Atomic req) newIDs clk 0 (BatchJobs req)")
      case (Inl k)
      with False req assms show ?thesis by (auto simp: handleBatchSubmit_def intro!: exI [of _ "[]"])
    next
      case (Inr rj)
      obtain results jobs where create: "batch_create env (Atomic req) newIDs clk 0 (BatchJobs req) = Inr (results, jobs)"
        using Inr by (cases rj) simp
      have h: "handleBatchSubmit ops env newIDs clk r srv = batch_persist ops env (Atomic req)
          (later (3 * length jobs) clk) 0 jobs (batch_response results) srv"
        using False req create by (simp add: handleBatchSubmit_def)
      from batch_persist_stored [OF assms, of "Atomic req" "later (3 * length jobs) clk" 0 jobs
          "batch_response results"] batch_response_counts [OF create] req False
      show ?thesis unfolding h by fastforce
    qed
  qed
qed

end


definition example_api_request :: "string \<Rightarrow> string \<Rightarrow> string \<Rightarrow> api_request" where
  "example_api_request m path body = \<lparr>Header_Get = (\<lambda>h. if h = ''X-API-Key'' then ''k1'' else ''''),
     ctx_principal = None, Method = m, Path = path, Query = (\<lambda>q. ''''), Body = body\<rparr>"

lemma example_api_request_simps [simp]:
  "Method (example_api_request m path body) = m" "Path (example_api_request m path body) = path"
  "Body (example_api_request m path body) = body"
  by (simp_all add: example_api_request_def)


text \<open>
  The results of a batch can name the wrong job. The second loop numbers the created jobs,
  not the submitted ones. If the first job has no type and the second repeats a key, the
  counts are right (none accepted, both rejected), but the store's error is written over the
  first job's error and the second is reported as a success, although nothing was stored.
\<close>

theorem batch_results_shifted:
  assumes "job_store ops sinv storable jobs_of results_of checkpoints_of idem_of"
    and "server_ok sinv srv" and "Method r = ''POST''" and "dec_batch env (Body r) = Some req"
    and "BatchJobs req = [req1, req2]" and "\<not> Atomic req" and "ReqType req1 = ''''"
    and "ReqType req2 \<noteq> ''''" and "ReqIdempotencyKey req2 \<noteq> ''''"
    and "idem_of (sch_store (srv_sched srv)) (ReqIdempotencyKey req2) \<noteq> None"
  shows "\<exists>resp b. handleBatchSubmit ops env newIDs clk r srv = Returns (resp, srv) \<and> code resp = 201 \<and>
    content resp = BatchAnswer b \<and> Total b = 2 \<and> Accepted b = 0 \<and> Rejected b = 2 \<and>
    map (\<lambda>res. (ResSuccess res, ResError res)) (Results b) =
      [(False, Error ErrJobAlreadyExists), (True, '''')]"
proof -
  let ?j = "createJobFromRequest env (newIDs 1) clk req2"
  have "sinv (sch_store (srv_sched srv))" using assms(2) by (simp add: server_ok_def)
  from job_store.Create_key_exists [OF assms(1) this, of ?j] assms(9,10)
  have "Create ops ?j (sch_store (srv_sched srv)) = (Some ErrJobAlreadyExists, sch_store (srv_sched srv))"
    by simp
  then show ?thesis
    using assms(3-8) by (simp add: handleBatchSubmit_def batch_response_def Let_def)
qed

theorem batch_results_shifted_witness:
  "\<exists>srv resp b. handleBatchSubmit (memory_store (\<lambda>m. m)) example_env (\<lambda>i. word_of_nat (Suc i)) (\<lambda>_. 9)
      (example_api_request ''POST'' ''/api/v1/jobs/batch'' ''k'') srv = Returns (resp, srv) \<and>
    content resp = BatchAnswer b \<and> map ResSuccess (Results b) = [False, True]"
proof -
  let ?srv = "with_store ((example_store [])\<lparr>mem_idempotency := [(''k'', 5)]\<rparr>) (example_server [])"
  let ?r = "example_api_request ''POST'' ''/api/v1/jobs/batch'' ''k''"
  have "server_ok mem_inv ?srv"
    using example_server_ok [of "[]"] by (simp add: server_ok_def with_store_def)
  note shifted = batch_results_shifted [OF mem.job_store_axioms this, of ?r example_env
      "\<lparr>BatchJobs = [(example_submit ''k'')\<lparr>ReqType := ''''\<rparr>, example_submit ''k''], Atomic = False\<rparr>"
      "(example_submit ''k'')\<lparr>ReqType := ''''\<rparr>" "example_submit ''k''" "\<lambda>i. word_of_nat (Suc i)" "\<lambda>_. 9"]
  have "\<exists>resp b. handleBatchSubmit (memory_store (\<lambda>m. m)) example_env (\<lambda>i. word_of_nat (Suc i)) (\<lambda>_. 9) ?r ?srv =
      Returns (resp, ?srv) \<and> code resp = 201 \<and> content resp = BatchAnswer b \<and> Total b = 2 \<and>
      Accepted b = 0 \<and> Rejected b = 2 \<and> map (\<lambda>res. (ResSuccess res, ResError res)) (Results b) =
      [(False, Error ErrJobAlreadyExists), (True, '''')]"
    by (rule shifted) (simp_all add: example_env_def example_submit_def with_store_def)
  then obtain resp b where h: "handleBatchSubmit (memory_store (\<lambda>m. m)) example_env
      (\<lambda>i. word_of_nat (Suc i)) (\<lambda>_. 9) ?r ?srv = Returns (resp, ?srv)" "content resp = BatchAnswer b"
    and res: "map (\<lambda>res. (ResSuccess res, ResError res)) (Results b) =
      [(False, Error ErrJobAlreadyExists), (True, '''')]" by (elim exE conjE) (rule that)
  have "map ResSuccess (Results b) = map fst (map (\<lambda>res. (ResSuccess res, ResError res)) (Results b))"
    by simp
  also have "\<dots> = [False, True]" unfolding res by simp
  finally have "map ResSuccess (Results b) = [False, True]" .
  with h show ?thesis by (intro exI conjI)
qed

text \<open>
  An atomic batch is not atomic. Two typed jobs with the same new idempotency key are
  refused with 500, and the first of them stays in the store.
\<close>

theorem batch_not_atomic:
  assumes "job_store ops sinv storable jobs_of results_of checkpoints_of idem_of"
    and "server_ok sinv srv" and "uuid_texts_ok env"
    and "Method r = ''POST''" and "dec_batch env (Body r) = Some req" and "Atomic req"
    and "BatchJobs req = [req1, req2]" and "ReqType req1 \<noteq> ''''" and "ReqType req2 \<noteq> ''''"
    and "ReqIdempotencyKey req1 \<noteq> ''''" and "ReqIdempotencyKey req2 = ReqIdempotencyKey req1"
    and "fst (Create ops (createJobFromRequest env (newIDs 0) clk req1) (sch_store (srv_sched srv))) = None"
  shows "\<exists>resp srv'. handleBatchSubmit ops env newIDs clk r srv = Returns (resp, srv') \<and>
    code resp = 500 \<and> jobs_of (sch_store (srv_sched srv)) (newIDs 0) = None \<and>
    jobs_of (sch_store (srv_sched srv')) =
      (jobs_of (sch_store (srv_sched srv)))(newIDs 0 \<mapsto> createJobFromRequest env (newIDs 0) clk req1)"
proof -
  let ?j1 = "createJobFromRequest env (newIDs 0) clk req1"
  let ?j2 = "createJobFromRequest env (newIDs 1) (later 3 clk) req2"
  have ok: "sinv (sch_store (srv_sched srv))" and bus: "\<exists>eb. srv_eventBus srv = Some eb \<and> bus_ok eb"
    using assms(2) by (simp_all add: server_ok_def)
  from assms(12) obtain s' where c: "Create ops ?j1 (sch_store (srv_sched srv)) = (None, s')"
    by (cases "Create ops ?j1 (sch_store (srv_sched srv))") auto
  note ok1 = job_store.Create_ok [OF assms(1) ok c]
  then have again: "Create ops ?j2 s' = (Some ErrJobAlreadyExists, s')"
    using assms(10,11) by (intro job_store.Create_key_exists [OF assms(1)]) auto
  obtain job' err' sched' where enq: "Enqueue (later 6 clk) ?j1 ((srv_sched srv)\<lparr>sch_store := s'\<rparr>) = (job', err', sched')"
    by (metis prod_cases3)
  then have enq': "err' = None" "sch_store sched' = s'"
    using Enqueue_effect(1,2) [of "later 6 clk" ?j1 "(srv_sched srv)\<lparr>sch_store := s'\<rparr>"] by simp_all
  let ?srv3 = "(with_store s' srv)\<lparr>srv_sched := sched',
    srv_metrics := RecordJobEnqueued (JobType job') (Priority job') (srv_metrics (with_store s' srv))\<rparr>"
  have "\<exists>eb. srv_eventBus ?srv3 = Some eb \<and> bus_ok eb" using bus by simp
  from publish_ok [OF this uuid_texts_okD [OF assms(3)], of "ID job'" "job_event env ''job.created'' job'"]
  obtain srv4 where pub: "publish_event (uuid_text env (ID job')) (job_event env ''job.created'' job') ?srv3 =
      Returns srv4" "only_bus ?srv3 srv4" .
  have srv4: "sch_store (srv_sched srv4) = s'" using only_bus_simps(1) [OF pub(2)] enq' by simp
  show ?thesis
    using assms(4-9) c enq enq' pub(1) again srv4 ok1
    by (simp add: handleBatchSubmit_def Let_def)
qed

theorem batch_not_atomic_witness:
  "\<exists>env resp srv'. handleBatchSubmit (memory_store (\<lambda>m. m)) env (\<lambda>i. word_of_nat (Suc i)) (\<lambda>_. 9)
      (example_api_request ''POST'' ''/api/v1/jobs/batch'' ''k'') (example_server []) = Returns (resp, srv') \<and>
    code resp = 500 \<and> mem_jobs_of (sch_store (srv_sched srv')) 1 \<noteq> None"
proof -
  let ?req = "example_submit ''k''" and ?batch = "\<lparr>BatchJobs = [example_submit ''k'', example_submit ''k''], Atomic = True\<rparr>"
  let ?env = "example_env\<lparr>dec_batch := \<lambda>b. Some ?batch\<rparr>"
  let ?newIDs = "\<lambda>i. word_of_nat (Suc i) :: uuid"
  let ?r = "example_api_request ''POST'' ''/api/v1/jobs/batch'' ''k''"
  have env: "uuid_texts_ok ?env" by (simp add: uuid_texts_ok_def example_env_def)
  have ok: "server_ok mem_inv (example_server [])" by simp
  have "fst (Create (memory_store (\<lambda>m. m)) (createJobFromRequest ?env (?newIDs 0) (\<lambda>_. 9) ?req)
      (sch_store (srv_sched (example_server [])))) = None"
    using example_create [of "createJobFromRequest ?env (?newIDs 0) (\<lambda>_. 9) ?req"] by auto
  from batch_not_atomic [OF mem.job_store_axioms ok env, of ?r ?batch ?req ?req ?newIDs, OF _ _ _ _ _ _ _ _ this]
  have "\<exists>resp srv'. handleBatchSubmit (memory_store (\<lambda>m. m)) ?env ?newIDs (\<lambda>_. 9) ?r (example_server []) =
      Returns (resp, srv') \<and> code resp = 500 \<and> mem_jobs_of (sch_store (srv_sched srv')) (?newIDs 0) \<noteq> None"
    by auto
  then show ?thesis by auto
qed

end
