(* ===== verification/GQ_Server_Props.thy ===== *)
theory GQ_Server_Props
  imports GQ_Api_Props
begin

text \<open>
  Properties of the server as a whole: what cancel, retry and delete requests do, that no
  request can make a handler panic, who is let in, what a wait answers, and what an event
  stream delivers.
\<close>

section \<open>Changing a job\<close>

context job_store
begin

lemma Cancel_keeps:
  assumes "inv (sch_store sched)" and "Cancel ops clk i reason force sched = (err, sched')"
  shows "inv (sch_store sched') \<and> (err = None \<longrightarrow> jobs_of (sch_store sched') i \<noteq> None)"
proof (cases "jobs_of (sch_store sched) i")
  case None
  then show ?thesis using assms by (auto simp: Cancel_def Get)
next
  case (Some j)
  note e = Cancel_effect [OF assms(1) Some assms(2)]
  show ?thesis
  proof (intro conjI impI)
    show "inv (sch_store sched')" by (rule e(1))
    assume n: "err = None"
    then have "\<not> IsTerminal j" using e(2) by auto
    with e(3,4) n Some show "jobs_of (sch_store sched') i \<noteq> None"
      by (cases "State j = JobStateRunning \<and> \<not> force") auto
  qed
qed

lemma Retry_keeps:
  assumes "inv (sch_store sched)" and "Retry ops clk i resetAttempts sched = (err, sched')"
  shows "inv (sch_store sched') \<and> (err = None \<longrightarrow> jobs_of (sch_store sched') i \<noteq> None) \<and>
    (err \<noteq> None \<longrightarrow> sch_store sched' = sch_store sched)"
proof (cases err)
  case None
  with assms(2) have "Retry ops clk i resetAttempts sched = (None, sched')" by simp
  from Retry_ok [OF assms(1) this] None show ?thesis by auto
next
  case (Some e)
  then have "sch_store sched' = sch_store sched"
    using assms Update_err [OF assms(1)]
    by (fastforce simp: Retry_def Let_def split: sum.splits if_splits prod.splits)
  with assms(1) Some show ?thesis by simp
qed

lemma answer_job_ok:
  assumes "server_ok inv srv" and "uuid_texts_ok env"
    and "jobs_of (sch_store (srv_sched srv)) i = Some j"
  shows "\<exists>srv'. answer_job ops env kind i srv =
      Returns (writeJSON 200 (JobAnswer (jobToResponse (uuid_text env) j)), srv') \<and>
    only_bus srv srv' \<and> server_ok inv srv'"
proof -
  have bus: "\<exists>eb. srv_eventBus srv = Some eb \<and> bus_ok eb" and ok: "inv (sch_store (srv_sched srv))"
    using assms(1) by (simp_all add: server_ok_def)
  from publish_ok [OF bus uuid_texts_okD [OF assms(2)], of "ID j" "job_event env kind j"] obtain srv'
    where p: "publish_event (uuid_text env (ID j)) (job_event env kind j) srv = Returns srv'"
      "only_bus srv srv'" "\<exists>eb. srv_eventBus srv' = Some eb \<and> bus_ok eb" .
  have "server_ok inv srv'" using p(3) ok only_bus_simps(1) [OF p(2)] by (simp add: server_ok_def)
  with p show ?thesis using assms(3) ok by (simp add: answer_job_def answer_after_def Get)
qed

lemma cancelJob_ok:
  assumes "server_ok inv srv" and "uuid_texts_ok env"
  shows "\<exists>resp srv'. cancelJob ops env clk r i srv = Returns (resp, srv') \<and> server_ok inv srv'"
proof (cases "Method r = ''POST''")
  case False
  then show ?thesis using assms(1) by (simp add: cancelJob_def)
next
  case True
  obtain reason force where d: "dec_cancel env (Body r) = (reason, force)" by fastforce
  obtain err sched' where c: "Cancel ops clk i reason force (srv_sched srv) = (err, sched')" by fastforce
  have ok: "inv (sch_store (srv_sched srv))" and bus: "\<exists>eb. srv_eventBus srv = Some eb \<and> bus_ok eb"
    using assms(1) by (simp_all add: server_ok_def)
  have k: "inv (sch_store sched')" "err = None \<Longrightarrow> jobs_of (sch_store sched') i \<noteq> None"
    using Cancel_keeps [OF ok c] by auto
  have ok1: "server_ok inv (srv\<lparr>srv_sched := sched'\<rparr>)" using k bus by simp
  show ?thesis
  proof (cases err)
    case None
    with k(2) obtain j where "jobs_of (sch_store (srv_sched (srv\<lparr>srv_sched := sched'\<rparr>))) i = Some j" by auto
    from answer_job_ok [OF ok1 assms(2) this, of "''job.cancelled''"] True d c None show ?thesis
      by (auto simp: cancelJob_def)
  next
    case (Some e)
    with True d c ok1 show ?thesis by (simp add: cancelJob_def Let_def)
  qed
qed

lemma retryJob_ok:
  assumes "server_ok inv srv" and "uuid_texts_ok env"
  shows "\<exists>resp srv'. retryJob ops env clk r i srv = Returns (resp, srv') \<and> server_ok inv srv'"
proof (cases "Method r = ''POST''")
  case False
  then show ?thesis using assms(1) by (simp add: retryJob_def)
next
  case True
  obtain err sched' where c: "Retry ops clk i (dec_retry env (Body r)) (srv_sched srv) = (err, sched')" by fastforce
  have ok: "inv (sch_store (srv_sched srv))" and bus: "\<exists>eb. srv_eventBus srv = Some eb \<and> bus_ok eb"
    using assms(1) by (simp_all add: server_ok_def)
  have k: "inv (sch_store sched')" "err = None \<Longrightarrow> jobs_of (sch_store sched') i \<noteq> None"
    using Retry_keeps [OF ok c] by auto
  have ok1: "server_ok inv (srv\<lparr>srv_sched := sched'\<rparr>)" using k bus by simp
  show ?thesis
  proof (cases err)
    case None
    with k(2) obtain j where "jobs_of (sch_store (srv_sched (srv\<lparr>srv_sched := sched'\<rparr>))) i = Some j" by auto
    from answer_job_ok [OF ok1 assms(2) this, of "''job.retried''"] True c None show ?thesis
      by (auto simp: retryJob_def)
  next
    case (Some e)
    with True c ok1 show ?thesis by (simp add: retryJob_def Let_def)
  qed
qed

text \<open>Deleting: with the job, what is known of it goes, and the answer is 204.\<close>

lemma deleteJob_ok:
  assumes "server_ok inv srv" and "uuid_texts_ok env"
  shows "\<exists>resp srv'. deleteJob ops env i srv = Returns (resp, srv') \<and> server_ok inv srv' \<and>
    (code resp = 204 \<and> jobs_of (sch_store (srv_sched srv)) i \<noteq> None \<and>
       jobs_of (sch_store (srv_sched srv')) = (jobs_of (sch_store (srv_sched srv)))(i := None) \<or>
     code resp = 404 \<and> fst (Delete ops i (sch_store (srv_sched srv))) = Some ErrJobNotFound \<and> srv' = srv \<or>
     code resp = 500 \<and> fst (Delete ops i (sch_store (srv_sched srv))) \<notin> {None, Some ErrJobNotFound} \<and> srv' = srv)"
proof -
  have ok: "inv (sch_store (srv_sched srv))" and bus: "\<exists>eb. srv_eventBus srv = Some eb \<and> bus_ok eb"
    using assms(1) by (simp_all add: server_ok_def)
  obtain err s' where d: "Delete ops i (sch_store (srv_sched srv)) = (err, s')" by fastforce
  show ?thesis
  proof (cases err)
    case None
    with Delete_ok [OF ok] d have s': "inv s'" "jobs_of (sch_store (srv_sched srv)) i \<noteq> None"
      "jobs_of s' = (jobs_of (sch_store (srv_sched srv)))(i := None)" by auto
    let ?ev = "\<lparr>Event = ''job.deleted'', Data = DeletedData (uuid_text env i), EventID = uuid_text env i\<rparr>"
    have "\<exists>eb. srv_eventBus (with_store s' srv) = Some eb \<and> bus_ok eb" using bus by simp
    from publish_ok [OF this uuid_texts_okD [OF assms(2)], of i ?ev] obtain srv'
      where p: "publish_event (uuid_text env i) ?ev (with_store s' srv) = Returns srv'"
        "only_bus (with_store s' srv) srv'" "\<exists>eb. srv_eventBus srv' = Some eb \<and> bus_ok eb" .
    have "sch_store (srv_sched srv') = s'" using only_bus_simps(1) [OF p(2)] by simp
    with p s' None d show ?thesis by (simp add: deleteJob_def answer_after_def server_ok_def)
  next
    case (Some e)
    with Delete_err [OF ok] d have "s' = sch_store (srv_sched srv)" by auto
    with Some d assms(1) show ?thesis by (auto simp: deleteJob_def)
  qed
qed

end

context job_store
begin

lemma cancelJob_cases:
  assumes "server_ok inv srv" and "uuid_texts_ok env" and "Method r = ''POST''"
    and "dec_cancel env (Body r) = (reason, force)"
  shows "\<exists>resp srv'. cancelJob ops env clk r i srv = Returns (resp, srv') \<and>
    (let before = jobs_of (sch_store (srv_sched srv)); now = jobs_of (sch_store (srv_sched srv'))
     in case before i of
          None \<Rightarrow> code resp = 404 \<and> srv' = srv
        | Some j \<Rightarrow>
            if IsTerminal j then code resp = 409 \<and> srv' = srv
            else if State j = JobStateRunning \<and> \<not> force
            then code resp = 200 \<and> content resp = JobAnswer (jobToResponse (uuid_text env) j) \<and>
              publish_event (uuid_text env i) (job_event env ''job.cancelled'' j) srv = Returns srv' \<and>
              now = before
            else code resp \<in> {404, 409, 500} \<and> now = before \<or>
              code resp = 200 \<and> (\<exists>j'. now = before(i \<mapsto> j') \<and> State j' = JobStateCancelled \<and>
                LastError j' = reason \<and> content resp = JobAnswer (jobToResponse (uuid_text env) j')))"
proof (cases "jobs_of (sch_store (srv_sched srv)) i")
  case None
  have "inv (sch_store (srv_sched srv))" using assms(1) by (simp add: server_ok_def)
  with None assms(3,4) show ?thesis by (simp add: cancelJob_def Cancel_def Get)
next
  case (Some j)
  have ok: "inv (sch_store (srv_sched srv))" and bus: "\<exists>eb. srv_eventBus srv = Some eb \<and> bus_ok eb"
    using assms(1) by (simp_all add: server_ok_def)
  obtain err sched' where c: "Cancel ops clk i reason force (srv_sched srv) = (err, sched')" by fastforce
  note e = Cancel_effect [OF ok Some c]
  let ?srv1 = "srv\<lparr>srv_sched := sched'\<rparr>"
  have ok1: "server_ok inv ?srv1" using e(1) bus by simp
  have run: "cancelJob ops env clk r i srv = answer_job ops env ''job.cancelled'' i ?srv1" if "err = None"
    using that c assms(3,4) by (simp add: cancelJob_def Let_def)
  consider (terminal) "IsTerminal j" | (running) "\<not> IsTerminal j" "State j = JobStateRunning" "\<not> force"
    | (other) "\<not> IsTerminal j" "State j \<noteq> JobStateRunning \<or> force" by blast
  then show ?thesis
  proof cases
    case terminal
    with e(2) c Some assms(3,4) show ?thesis by (simp add: cancelJob_def)
  next
    case running
    with e(3) have n: "err = None" "?srv1 = srv" by simp_all
    from bus obtain srv' where p: "publish_event (uuid_text env i) (job_event env ''job.cancelled'' j) srv = Returns srv'"
      "only_bus srv srv'" using publish_ok [OF bus uuid_texts_okD [OF assms(2)], of i] by metis
    have "ID j = i" using jobs_ID [OF ok Some] .
    then have "cancelJob ops env clk r i srv =
        Returns (writeJSON 200 (JobAnswer (jobToResponse (uuid_text env) j)), srv')"
      using run [OF n(1)] n(2) p(1) Some ok by (simp add: answer_job_def answer_after_def Get)
    with running Some p only_bus_simps(1) [OF p(2)] show ?thesis by (simp add: IsTerminal_def)
  next
    case other
    from e(4) [OF other] show ?thesis
    proof
      assume f: "err \<noteq> None \<and> jobs_of (sch_store sched') = jobs_of (sch_store (srv_sched srv))"
      then obtain x where "err = Some x" by auto
      with f c other Some assms(3,4) show ?thesis by (auto simp: cancelJob_def Let_def)
    next
      let ?j = "j\<lparr>State := JobStateCancelled, CompletedAt := clk 0, LastError := reason, UpdatedAt := clk 1\<rparr>"
      assume f: "err = None \<and> jobs_of (sch_store sched') = (jobs_of (sch_store (srv_sched srv)))(i \<mapsto> ?j)"
      then have "jobs_of (sch_store (srv_sched ?srv1)) i = Some ?j" by simp
      from answer_job_ok [OF ok1 assms(2) this, of "''job.cancelled''"] obtain srv' where
        a: "answer_job ops env ''job.cancelled'' i ?srv1 =
          Returns (writeJSON 200 (JobAnswer (jobToResponse (uuid_text env) ?j)), srv')"
        "only_bus ?srv1 srv'" by blast
      have "jobs_of (sch_store (srv_sched srv')) = (jobs_of (sch_store (srv_sched srv)))(i \<mapsto> ?j)"
        using only_bus_simps(1) [OF a(2)] f by simp
      with a(1) f run other Some show ?thesis by (auto simp: Let_def)
    qed
  qed
qed

end

text \<open>
  C29: cancelling over HTTP on every branch: an unknown job gets 404, a finished one 409, and
  neither changes anything. A running job without force gets 200 and a job.cancelled event is
  published, although the job is left running. Any other job is cancelled with the reason and
  answered as it is then, unless the store refuses, which changes no job.
\<close>

theorem cancelJob_outcome:
  assumes "job_store ops sinv storable jobs_of results_of checkpoints_of idem_of"
    and "server_ok sinv srv" and "uuid_texts_ok env" and "Method r = ''POST''"
    and "dec_cancel env (Body r) = (reason, force)"
  shows "\<exists>resp srv'. cancelJob ops env clk r i srv = Returns (resp, srv') \<and>
    (let before = jobs_of (sch_store (srv_sched srv)); now = jobs_of (sch_store (srv_sched srv'))
     in case before i of
          None \<Rightarrow> code resp = 404 \<and> srv' = srv
        | Some j \<Rightarrow>
            if IsTerminal j then code resp = 409 \<and> srv' = srv
            else if State j = JobStateRunning \<and> \<not> force
            then code resp = 200 \<and> content resp = JobAnswer (jobToResponse (uuid_text env) j) \<and>
              publish_event (uuid_text env i) (job_event env ''job.cancelled'' j) srv = Returns srv' \<and>
              now = before
            else code resp \<in> {404, 409, 500} \<and> now = before \<or>
              code resp = 200 \<and> (\<exists>j'. now = before(i \<mapsto> j') \<and> State j' = JobStateCancelled \<and>
                LastError j' = reason \<and> content resp = JobAnswer (jobToResponse (uuid_text env) j')))"
  by (rule job_store.cancelJob_cases [OF assms])

theorem cancelJob_outcome_witness:
  "\<exists>resp srv'. cancelJob (memory_store (\<lambda>m. m)) example_env (\<lambda>_. 5)
      (example_api_request ''POST'' ''/api/v1/jobs/one/cancel'' ''stop'') 1
      (example_server [example_job 1 JobStateRunning 0]) = Returns (resp, srv') \<and> code resp = 200 \<and>
    mem_jobs_of (sch_store (srv_sched srv')) 1 = Some (example_job 1 JobStateRunning 0)"
proof -
  let ?j = "example_job 1 JobStateRunning 0"
  have ok: "server_ok mem_inv (example_server [?j])" by simp
  have "mem_jobs_of (sch_store (srv_sched (example_server [?j]))) 1 = Some ?j"
    by (simp add: mem_jobs_of_def)
  with cancelJob_outcome [OF mem.job_store_axioms ok example_env_ok,
      of "example_api_request ''POST'' ''/api/v1/jobs/one/cancel'' ''stop''" "''stop''" False "\<lambda>_. 5" 1]
  show ?thesis by (auto simp: example_env_def IsTerminal_def)
qed

section \<open>Every request is served\<close>

definition exchange_ok :: "('s \<Rightarrow> bool) \<Rightarrow> 's exchange \<Rightarrow> bool" where
  "exchange_ok sinv x =
     (case x of
        Answered resp srv \<Rightarrow> server_ok sinv srv
      | Panicked m \<Rightarrow> False
      | Waiting \<Rightarrow> True
      | Streaming ch text h srv \<Rightarrow> server_ok sinv srv \<and>
          (\<exists>eb key. srv_eventBus srv = Some eb \<and> ch \<in> set (subscribers_of eb key)))"

lemma exchange_ok_of:
  "exchange_ok sinv (exchange_of h served) \<longleftrightarrow>
     (\<exists>resp srv. served = Returns (resp, srv) \<and> server_ok sinv srv)"
  by (cases served) (auto simp: exchange_ok_def exchange_of_def)

lemma handleEvents_ok:
  assumes "server_ok sinv srv"
  shows "case handleEvents flusher r srv of
      EventsAnswer resp srv' \<Rightarrow> server_ok sinv srv'
    | EventsStream ch text srv' \<Rightarrow> server_ok sinv srv' \<and>
        (\<exists>eb. srv_eventBus srv' = Some eb \<and> ch \<in> set (subscribers_of eb (stream_key r)))
    | EventsPanic m \<Rightarrow> False"
proof -
  from assms obtain eb where eb: "srv_eventBus srv = Some eb" "bus_ok eb" and s: "sinv (sch_store (srv_sched srv))"
    by (auto simp: server_ok_def)
  obtain ch eb' where sub: "Subscribe (stream_key r) eb = (ch, eb')" by fastforce
  from bus_ok_Subscribe [OF eb(2) sub] have "bus_ok eb'" "ch \<in> set (subscribers_of eb' (stream_key r))" by simp_all
  with eb s sub bus_ok_Unsubscribe [of eb'] assms show ?thesis
    by (simp add: handleEvents_def server_ok_def Let_def)
qed

context job_store
begin

lemma submitJob_ok:
  assumes "server_ok inv srv" and "uuid_texts_ok env"
  shows "\<exists>resp srv'. submitJob ops env newID clk body srv = Returns (resp, srv') \<and> server_ok inv srv'"
proof (cases rule: submitJob_cases [OF assms, of newID clk body])
  case (1 c m)
  with assms(1) show ?thesis by simp
next
  case (2 req e s' resp)
  with assms(1) have "server_ok inv (with_store s' srv)" by (simp add: server_ok_def)
  with 2 show ?thesis by simp
next
  case 3
  then show ?thesis by simp
qed

lemma handleJobByID_ok:
  assumes "server_ok inv srv" and "uuid_texts_ok env"
    and "handleJobByID ops env clk events r srv = Some served"
  shows "\<exists>resp srv'. served = Returns (resp, srv') \<and> server_ok inv srv'"
proof -
  have del: "\<exists>resp srv'. deleteJob ops env i srv = Returns (resp, srv') \<and> server_ok inv srv'" for i
    using deleteJob_ok [OF assms(1,2), of i] by (elim exE conjE) (intro exI conjI)
  show ?thesis
    using assms(3) assms(1) cancelJob_ok [OF assms(1,2), of clk r] retryJob_ok [OF assms(1,2), of clk r] del
    unfolding handleJobByID_def Let_def
    by (auto split: list.splits option.splits if_splits)
qed

lemma route_request_ok:
  assumes "server_ok inv srv" and "uuid_texts_ok env"
  shows "exchange_ok inv (route_request ops env flusher pord newIDs clk events h r srv)"
proof (cases "registerRoutes (Path r)")
  case None
  with assms(1) show ?thesis by (simp add: route_request_def exchange_ok_def)
next
  case (Some rt)
  have "\<exists>resp srv'. handleJobs ops env (newIDs 0) clk r srv = Returns (resp, srv') \<and> server_ok inv srv'"
    using submitJob_ok [OF assms] assms(1) by (simp add: handleJobs_def)
  moreover have "\<exists>resp srv'. handleBatchSubmit ops env newIDs clk r srv = Returns (resp, srv') \<and> server_ok inv srv'"
    using handleBatchSubmit_cases [OF assms, of newIDs clk r] by (elim exE conjE) (intro exI conjI)
  moreover have "exchange_ok inv (case handleJobByID ops env clk events r srv of
      None \<Rightarrow> Waiting | Some served \<Rightarrow> exchange_of h served)"
    using handleJobByID_ok [OF assms, of clk events r]
    by (cases "handleJobByID ops env clk events r srv") (simp_all add: exchange_ok_of, simp add: exchange_ok_def)
  moreover have "exchange_ok inv (case handleEvents flusher r srv of
      EventsPanic m \<Rightarrow> Panicked m
    | EventsAnswer resp srv' \<Rightarrow> Answered (with_headers h resp) srv'
    | EventsStream ch text srv' \<Rightarrow> Streaming ch text (set_headers h stream_headers) srv')"

    using handleEvents_ok [OF assms(1), where flusher = flusher and r = r]
    by (cases "handleEvents flusher r srv") (auto simp: exchange_ok_def)
  ultimately show ?thesis
    using Some assms(1)
    by (cases rt) (simp_all add: route_request_def exchange_ok_of, simp_all add: exchange_ok_def)
qed

lemma ServeHTTP_keeps:
  assumes "server_ok inv srv" and "uuid_texts_ok env"
  shows "exchange_ok inv (ServeHTTP ops env flusher kord pord newIDs clk events r srv)"
proof (cases "middleware env kord clk r srv")
  case (Inl resp)
  with assms(1) show ?thesis by (simp add: ServeHTTP_def exchange_ok_def)
next
  case (Inr rh)
  then show ?thesis by (cases rh) (simp add: ServeHTTP_def route_request_ok [OF assms])
qed

end



section \<open>Who is let in\<close>


definition example_closed :: "(string \<times> Principal option) list \<Rightarrow> Job list \<Rightarrow> MemoryStore Server" where
  "example_closed keys js = SetAuthenticator keys (example_server js)"

lemma example_closed_simps [simp]:
  "AuthEnabled (srv_config (example_closed keys js))" "srv_auth (example_closed keys js) = Some keys"
  "CORSEnabled (srv_config (example_closed keys js))"
  "distinct (map ID js) \<Longrightarrow> server_ok mem_inv (example_closed keys js)"
  "sch_store (srv_sched (example_closed keys js)) = example_store js"
  using example_server_ok [of js]
  by (simp_all add: example_closed_def SetAuthenticator_def server_ok_def example_server_def NewServer_def
      DefaultApiServerConfig_def)

lemma example_api_request_key [simp]:
  "request_key (http_request.truncate (example_api_request m path body)) = ''k1''"
  by (simp add: request_key_def example_api_request_def http_request.defs)


lemma example_env_parse: "uuid_Parse example_env ''one'' = Some 1"
  by (simp add: example_env_def)

text \<open>The route of a job's own path.\<close>

lemma split_slash_none: "CHR ''/'' \<notin> set s \<Longrightarrow> split_slash s = [s]"
  by (induction s) auto

lemma route_job_path:
  assumes "s \<noteq> ''batch''" and "s \<noteq> ''''"
  shows "registerRoutes (''/api/v1/jobs/'' @ s) = Some JobByIDRoute"
  using assms by (simp add: registerRoutes_def exact_routes_def has_prefix_def)

text \<open>
  C34: being let in is all it takes. With authentication on, any registered key, whoever it
  belongs to and whatever roles or none that principal has, deletes any job: the server has
  an authorizer but its handlers never ask it.
\<close>

theorem any_key_may_delete:
  assumes "job_store ops sinv storable jobs_of results_of checkpoints_of idem_of"
    and "server_ok sinv srv" and "uuid_texts_ok env"
    and "AuthEnabled (srv_config srv)" and "srv_auth srv = Some keys"
    and "keys_distinct keys" and "permutes_entries kord"
    and "request_key (http_request.truncate r) \<noteq> ''''"
    and "map_of keys (request_key (http_request.truncate r)) = Some p"
    and "Method r = ''DELETE''" and "Path r = ''/api/v1/jobs/'' @ idStr"
    and "idStr \<notin> {'''', ''batch''}" and "CHR ''/'' \<notin> set idStr" and "uuid_Parse env idStr = Some i"
    and "fst (Delete ops i (sch_store (srv_sched srv))) = None"
  shows "\<exists>resp srv'. ServeHTTP ops env flusher kord pord newIDs clk events r srv = Answered resp srv' \<and>
    code resp = 204 \<and> jobs_of (sch_store (srv_sched srv)) i \<noteq> None \<and>
    jobs_of (sch_store (srv_sched srv')) = (jobs_of (sch_store (srv_sched srv)))(i := None)"
proof -
  have a: "AuthenticateRequest kord keys (http_request.truncate r) = Inr p"
    using assms(8,9) Authenticate_lookup [OF assms(6,7)] by (simp add: AuthenticateRequest_def Let_def)
  have "Path r \<noteq> ''/health'' \<and> Path r \<noteq> ''/live'' \<and> Path r \<noteq> ''/ready''" by (simp add: assms(11))
  with a obtain h where m: "middleware env kord clk r srv = Inr (r\<lparr>ctx_principal := p\<rparr>, h)"
    using assms(4,5,10) by (simp add: middleware_def Let_def)
  have by_id: "handleJobByID ops env (later 2 clk) events (r\<lparr>ctx_principal := p\<rparr>) srv =
      Some (deleteJob ops env i srv)"
    using assms(10-14) by (simp add: handleJobByID_def split_slash_none trim_prefix_def has_prefix_def)
  have rt: "registerRoutes (Path r) = Some JobByIDRoute" using assms(11,12) route_job_path by simp
  from job_store.deleteJob_ok [OF assms(1-3), of i] assms(15) obtain resp srv' where
    d: "deleteJob ops env i srv = Returns (resp, srv')" "code resp = 204"
      "jobs_of (sch_store (srv_sched srv)) i \<noteq> None"
      "jobs_of (sch_store (srv_sched srv')) = (jobs_of (sch_store (srv_sched srv)))(i := None)"
    by auto
  have "ServeHTTP ops env flusher kord pord newIDs clk events r srv = Answered (with_headers h resp) srv'"
    using m by_id rt d(1) by (simp add: ServeHTTP_def route_request_def exchange_of_def)
  with d show ?thesis by (simp add: with_headers_def)
qed

theorem any_key_may_delete_witness:
  "\<exists>resp srv'. ServeHTTP (memory_store (\<lambda>m. m)) example_env True (\<lambda>m. m) (\<lambda>m. m) (\<lambda>i. 1) (\<lambda>_. 5) []
      (example_api_request ''DELETE'' ''/api/v1/jobs/one'' '''')
      (example_closed [(''k1'', Some (example_principal [''viewer'']))] [example_job 1 JobStateRunning 0]) =
      Answered resp srv' \<and> code resp = 204 \<and> mem_jobs_of (sch_store (srv_sched srv')) 1 = None"
proof -
  let ?keys = "[(''k1'', Some (example_principal [''viewer'']))]" and ?j = "example_job 1 JobStateRunning 0"
  let ?r = "example_api_request ''DELETE'' ''/api/v1/jobs/one'' ''''"
  have "fst (Delete (memory_store (\<lambda>m. m)) 1 (sch_store (srv_sched (example_closed ?keys [?j])))) = None"
    by (simp add: mem_Delete_def Let_def)
  then have "\<exists>resp srv'. ServeHTTP (memory_store (\<lambda>m. m)) example_env True (\<lambda>m. m) (\<lambda>m. m) (\<lambda>i. 1) (\<lambda>_. 5) []
      ?r (example_closed ?keys [?j]) = Answered resp srv' \<and> code resp = 204 \<and>
      mem_jobs_of (sch_store (srv_sched (example_closed ?keys [?j]))) 1 \<noteq> None \<and>
      mem_jobs_of (sch_store (srv_sched srv')) =
        (mem_jobs_of (sch_store (srv_sched (example_closed ?keys [?j]))))(1 := None)"
    by (intro any_key_may_delete [OF mem.job_store_axioms, where keys = ?keys and idStr = "''one''"
          and p = "Some (example_principal [''viewer''])"])
      (simp_all add: permutes_entries_id example_env_parse)
  then show ?thesis by auto
qed

section \<open>Waiting for a job\<close>

fun wait_store :: "'s wait_event \<Rightarrow> 's" where
  "wait_store (WaitTick s) = s"
| "wait_store (WaitDone s) = s"

text \<open>
  C28: a wait answers at the first event that decides it: after any number of polls that find
  the job unfinished, a poll that finds it gone gets 404, one that finds it finished gets its
  state, success exactly for a completed job, and its stored result; the deadline ends the
  wait at once, with the job's state, but never as a success and without a result, even for a
  job that is completed by then. Any other poll goes on.
\<close>

theorem waitForJob_outcome:
  assumes "job_store ops sinv storable jobs_of results_of checkpoints_of idem_of"
    and "Method r \<in> {''POST'', ''GET''}"
    and "list_all (\<lambda>s. sinv s \<and> (\<exists>j. jobs_of s i = Some j \<and> \<not> IsTerminal j)) polls"
    and "sinv (wait_store ev)"
  shows "waitForJob ops env r i (map WaitTick polls @ ev # events) =
    (case jobs_of (wait_store ev) i of
       None \<Rightarrow> Some (writeError 404 ''not_found'' ''job not found'')
     | Some j \<Rightarrow>
         (case ev of
            WaitDone s \<Rightarrow> Some (writeJSON 200 (WaitAnswer \<lparr>WaitID = uuid_text env i,
              WaitState = string_of_JobState (State j), WaitCompleted = IsTerminal j,
              WaitSuccess = False, WaitResult = None, WaitTimedOut = True\<rparr>))
          | WaitTick s \<Rightarrow>
              if IsTerminal j
              then Some (writeJSON 200 (WaitAnswer \<lparr>WaitID = uuid_text env i,
                WaitState = string_of_JobState (State j), WaitCompleted = True,
                WaitSuccess = (State j = JobStateCompleted), WaitResult = results_of s i,
                WaitTimedOut = False\<rparr>))
              else waitForJob ops env r i events))"
proof -
  have skip: "wait_loop ops env i (map WaitTick polls @ es) = wait_loop ops env i es" for es
    using assms(3) by (induction polls) (auto simp: job_store.Get [OF assms(1)])
  have id: "ID j = i" if "jobs_of (wait_store ev) i = Some j" for j
    using job_store.jobs_ID [OF assms(1,4) that] .
  show ?thesis
    using assms(2,4) id
    by (cases ev) (auto simp: waitForJob_def skip job_store.Get [OF assms(1)]
        job_store.GetResult [OF assms(1)] split: option.split)
qed

theorem waitForJob_outcome_witness:
  "\<exists>resp a. waitForJob (memory_store (\<lambda>m. m)) example_env
      (example_api_request ''GET'' ''/api/v1/jobs/one/wait'' '''') 1
      (map WaitTick [example_store [example_job 1 JobStateRunning 0]] @
       WaitDone (example_store [example_job 1 JobStateCompleted 0]) # []) = Some resp \<and>
    content resp = WaitAnswer a \<and> WaitCompleted a \<and> \<not> WaitSuccess a"
proof -
  let ?s = "example_store [example_job 1 JobStateRunning 0]"
  let ?d = "WaitDone (example_store [example_job 1 JobStateCompleted 0])"
  let ?r = "example_api_request ''GET'' ''/api/v1/jobs/one/wait'' ''''"
  have m: "Method ?r \<in> {''POST'', ''GET''}" by simp
  have p: "list_all (\<lambda>s. mem_inv s \<and> (\<exists>j. mem_jobs_of s 1 = Some j \<and> \<not> IsTerminal j)) [?s]"
    by (simp add: mem_jobs_of_def IsTerminal_def)
  have i: "mem_inv (wait_store ?d)" by simp
  from waitForJob_outcome [OF mem.job_store_axioms m p i, of example_env "[]"]
  show ?thesis by (simp add: mem_jobs_of_def IsTerminal_def)
qed

section \<open>Event streams\<close>

text \<open>Publishing a sequence of events, each under a job's identifier.\<close>

fun publish_all :: "(string \<times> SSEEvent) list \<Rightarrow> EventBus \<Rightarrow> EventBus go_result" where
  "publish_all [] eb = Returns eb"
| "publish_all ((jobID, ev) # evs) eb =
     (case Publish jobID ev eb of Panics m \<Rightarrow> Panics m | Returns eb' \<Rightarrow> publish_all evs eb')"

definition meant_for :: "string \<Rightarrow> (string \<times> SSEEvent) list \<Rightarrow> SSEEvent list" where
  "meant_for key evs = map snd (filter (\<lambda>(jobID, ev). key = ''*'' \<or> jobID = key) evs)"

lemma meant_for_simps [simp]:
  "meant_for key [] = []"
  "meant_for key ((jobID, ev) # evs) =
     (if key = ''*'' \<or> jobID = key then ev # meant_for key evs else meant_for key evs)"
  by (auto simp: meant_for_def)

lemma publish_all_buffer:
  assumes "bus_ok eb" and "ch \<in> set (subscribers_of eb key)" and "''*'' \<notin> fst ` set evs"
    and "length (chan_buf (chans eb ! ch)) + length (meant_for key evs) \<le> 100"
  shows "\<exists>eb'. publish_all evs eb = Returns eb' \<and> ch < length (chans eb') \<and>
    chan_buf (chans eb' ! ch) = chan_buf (chans eb ! ch) @ meant_for key evs"
  using assms
proof (induction evs arbitrary: eb)
  case Nil
  then show ?case by (auto simp: bus_ok_def)
next
  case (Cons e evs)
  obtain jobID ev where e: "e = (jobID, ev)" by (cases e)
  have "jobID \<noteq> ''*''" using Cons.prems(3) e by auto
  from bus_ok_Publish [OF Cons.prems(1) this, of ev] obtain eb' where
    eb': "Publish jobID ev eb = Returns eb'" "bus_ok eb'" "subscribers eb' = subscribers eb"
      "length (chans eb') = length (chans eb)"
    and buf: "\<forall>c < length (chans eb). chan_buf (chans eb' ! c) =
       (if c \<in> set (subscribers_of eb jobID) \<union> set (subscribers_of eb ''*'') \<and>
           length (chan_buf (chans eb ! c)) < 100
        then chan_buf (chans eb ! c) @ [ev] else chan_buf (chans eb ! c))" by blast
  have lt: "ch < length (chans eb)" using Cons.prems(1,2) by (auto simp: bus_ok_def)
  have only: "ch \<in> set (subscribers_of eb k) \<longleftrightarrow> k = key" for k
    using Cons.prems(1,2) unfolding bus_ok_def by blast
  have step: "chan_buf (chans eb' ! ch) = chan_buf (chans eb ! ch) @
      (if key = ''*'' \<or> jobID = key then [ev] else [])"
    using buf lt Cons.prems(4) by (auto simp: only e)
  have "ch \<in> set (subscribers_of eb' key)"
    using Cons.prems(2) eb'(3) by (simp add: subscribers_of_def)
  moreover have "length (chan_buf (chans eb' ! ch)) + length (meant_for key evs) \<le> 100"
    using Cons.prems(4) step e by (auto split: if_splits)
  moreover have "''*'' \<notin> fst ` set evs" using Cons.prems(3) by simp
  ultimately obtain eb2 where "publish_all evs eb' = Returns eb2" "ch < length (chans eb2)"
    "chan_buf (chans eb2 ! ch) = chan_buf (chans eb' ! ch) @ meant_for key evs"
    using Cons.IH [OF eb'(2)] by blast
  with e eb'(1) step show ?case by simp
qed

lemma stream_loop_drains:
  assumes "ch < length (chans eb)" and "chan_buf (chans eb ! ch) = evs"
  shows "fst (stream_loop m ch (replicate (length evs) EventReady) eb) = concat (map (event_text m) evs)"
  using assms
proof (induction evs arbitrary: eb)
  case Nil
  then show ?case by simp
next
  case (Cons ev evs)
  let ?eb = "eb\<lparr>chans := (chans eb)[ch := (chans eb ! ch)\<lparr>chan_buf := evs\<rparr>]\<rparr>"
  have "fst (stream_loop m ch (replicate (length evs) EventReady) ?eb) = concat (map (event_text m) evs)"
    using Cons.prems(1) by (intro Cons.IH) simp_all
  with Cons.prems show ?case by (simp add: stream_step_def case_prod_unfold Let_def)
qed



end
