(* ===== verification/GQ_System.thy ===== *)
theory GQ_System
  imports GQ_Serve GQ_Server_Props GQ_Worker_Props
begin

text \<open>
  The running program as a step relation: the goroutines of the scheduler, the pool, the
  recovery manager and the HTTP server over one store. A step is what happens between two
  points where another goroutine can come in: the cycles of the scheduler and of the recovery
  manager take a list from the store and then work on their copy of it, one job at a time,
  and a worker claims a job, runs it and reports in separate steps.
\<close>

section \<open>Processing a job in two steps\<close>

text \<open>\<open>processJob\<close> up to the claim, and the rest of it.\<close>

definition start_job ::
    "'s JobStore \<Rightarrow> instant \<Rightarrow> Job \<Rightarrow> SimplePool \<Rightarrow> 's PriorityScheduler \<Rightarrow>
       bool \<times> SimplePool \<times> 's PriorityScheduler" where
  "start_job ops t job p sched =
     (let p1 = p\<lparr>activeCount := activeCount p + 1,
            processingIDs := AList.update (ID job) True (processingIDs p),
            processed := wrap64 (processed p + 1)\<rparr>;
          (claimed, err, s') = ClaimJob ops t (ID job) (WorkerConfigID (pool_config p)) (sch_store sched);
          sched1 = sched\<lparr>sch_store := s'\<rparr>
      in if err \<noteq> None \<or> \<not> claimed
         then (False, p1\<lparr>activeCount := activeCount p1 - 1,
                         processingIDs := AList.delete (ID job) (processingIDs p1)\<rparr>, sched1)
         else (True, p1, sched1))"

definition finish_job ::
    "'s JobStore \<Rightarrow> (float64 \<Rightarrow> int) \<Rightarrow> clock \<Rightarrow> Job \<Rightarrow> SimplePool \<Rightarrow> 's PriorityScheduler \<Rightarrow>
       SimplePool \<times> 's PriorityScheduler" where
  "finish_job ops cvt clk job p sched =
     (let (p2, sched2) = process_claimed ops cvt clk job p sched
      in (p2\<lparr>activeCount := activeCount p2 - 1,
             processingIDs := AList.delete (ID job) (processingIDs p2)\<rparr>, sched2))"

lemma processJob_two_steps:
  "processJob ops cvt clk job p sched =
     (let (granted, p1, sched1) = start_job ops (clk 1) job p sched
      in if granted then finish_job ops cvt clk job p1 sched1 else (p1, sched1))"
  by (auto simp: processJob_def start_job_def finish_job_def Let_def split: prod.split)

section \<open>States\<close>

text \<open>
  The server holds the store, the scheduler and the pool. The lists are what the loops still
  have to do in their present round, \<open>rt_busy\<close> the jobs being executed. \<open>rt_claims\<close> is the
  history of granted claims, which the program does not keep.
\<close>

record 's Runtime =
  rt_server :: "'s Server"
  rt_cycle :: "Job list"
  rt_delayed :: "Job list"
  rt_stuck :: "Job list"
  rt_busy :: "Job list"
  rt_claims :: "uuid list"

definition runtime_of :: "'s System \<Rightarrow> 's Runtime" where
  "runtime_of sys = \<lparr>rt_server = sys_server sys, rt_cycle = [], rt_delayed = [], rt_stuck = [],
     rt_busy = [], rt_claims = []\<rparr>"

abbreviation (input) rt_sched :: "'s Runtime \<Rightarrow> 's PriorityScheduler" where
  "rt_sched rt \<equiv> srv_sched (rt_server rt)"

abbreviation (input) rt_store :: "'s Runtime \<Rightarrow> 's" where
  "rt_store rt \<equiv> sch_store (srv_sched (rt_server rt))"

abbreviation (input) rt_batch :: "'s Runtime \<Rightarrow> int" where
  "rt_batch rt \<equiv> BatchSize (sch_config (srv_sched (rt_server rt)))"

definition put_sched :: "'s PriorityScheduler \<Rightarrow> 's Runtime \<Rightarrow> 's Runtime" where
  "put_sched sched rt = rt\<lparr>rt_server := (rt_server rt)\<lparr>srv_sched := sched\<rparr>\<rparr>"

definition put_store :: "'s \<Rightarrow> 's Runtime \<Rightarrow> 's Runtime" where
  "put_store s rt = put_sched ((srv_sched (rt_server rt))\<lparr>sch_store := s\<rparr>) rt"

definition put_pool :: "SimplePool \<Rightarrow> 's Runtime \<Rightarrow> 's Runtime" where
  "put_pool p rt = rt\<lparr>rt_server := (rt_server rt)\<lparr>srv_pool := Some p\<rparr>\<rparr>"

text \<open>The jobs in the two channels.\<close>

definition in_channels :: "'s Runtime \<Rightarrow> Job list" where
  "in_channels rt = jobCh (srv_sched (rt_server rt)) @
     (case srv_pool (rt_server rt) of None \<Rightarrow> [] | Some p \<Rightarrow> pool_jobCh p)"

text \<open>
  A UUID is new when no job has it that the program still knows of. \<open>uuid.New\<close> returns new
  ones.
\<close>

definition new_uuid :: "uuid \<Rightarrow> 's Runtime \<Rightarrow> bool" where
  "new_uuid i rt \<longleftrightarrow> i \<notin> set (rt_claims rt) \<and> i \<notin> ID ` set (rt_cycle rt) \<and>
     i \<notin> ID ` set (in_channels rt)"

text \<open>A request to retry a job.\<close>

definition retry_request :: "api_request \<Rightarrow> bool" where
  "retry_request r =
     (case split_slash (trim_prefix (Path r) ''/api/v1/jobs/'') of
        _ # sub # _ \<Rightarrow> sub = ''retry''
      | _ \<Rightarrow> False)"

text \<open>The server after a request, unless it panicked.\<close>

fun after_exchange :: "'s Server \<Rightarrow> 's exchange \<Rightarrow> 's Server option" where
  "after_exchange srv (Answered resp srv') = Some srv'"
| "after_exchange srv (Panicked m) = None"
| "after_exchange srv Waiting = Some srv"
| "after_exchange srv (Streaming ch text h srv') = Some srv'"

section \<open>Steps\<close>

text \<open>
  \<open>allowed\<close> restricts the requests that come in. A worker executes one job at a time. The
  clocks, the orders of map ranges and the choices of \<open>select\<close> are the environment's.
\<close>

inductive rt_step ::
    "'s JobStore \<Rightarrow> api_env \<Rightarrow> sorter \<Rightarrow> (float64 \<Rightarrow> int) \<Rightarrow> (api_request \<Rightarrow> bool) \<Rightarrow>
       's Runtime \<Rightarrow> 's Runtime \<Rightarrow> bool"
  for ops env sort_slice cvt allowed where
  cycle_begin: "0 < schedule_loops (rt_sched rt) \<Longrightarrow> rt_cycle rt = [] \<Longrightarrow>
     GetPending ops (rt_batch rt) (rt_store rt) = Inr jobs \<Longrightarrow>
     rt_step ops env sort_slice cvt allowed rt (rt\<lparr>rt_cycle := sort_slice priority_less jobs\<rparr>)"
| cycle_send: "rt_cycle rt = job # jobs \<Longrightarrow>
     send_jobs ops (rt_batch rt) clk [job] (rt_store rt) (jobCh (rt_sched rt)) = (sent, s', ch') \<Longrightarrow>
     rt_step ops env sort_slice cvt allowed rt
       ((put_sched ((rt_sched rt)\<lparr>sch_store := s', jobCh := ch'\<rparr>) rt)\<lparr>rt_cycle := (if sent then jobs else [])\<rparr>)"
| delayed_begin: "0 < delayed_loops (rt_sched rt) \<Longrightarrow> rt_delayed rt = [] \<Longrightarrow>
     GetDelayed ops t (rt_batch rt) (rt_store rt) = Inr jobs \<Longrightarrow>
     rt_step ops env sort_slice cvt allowed rt (rt\<lparr>rt_delayed := jobs\<rparr>)"
| delayed_mark: "rt_delayed rt = job # jobs \<Longrightarrow>
     rt_step ops env sort_slice cvt allowed rt
       ((put_store (mark_scheduled ops clk [job] (rt_store rt)) rt)\<lparr>rt_delayed := jobs\<rparr>)"
| fetch: "srv_pool (rt_server rt) = Some p \<Longrightarrow> 0 < live_fetchers p \<Longrightarrow>
     GetNextJob None False (rt_sched rt) = (Some (Inr job), sched') \<Longrightarrow>
     int (length (pool_jobCh p)) < pool_capacity p \<Longrightarrow>
     rt_step ops env sort_slice cvt allowed rt
       (put_pool (p\<lparr>pool_jobCh := pool_jobCh p @ [job]\<rparr>) (put_sched sched' rt))"
| claim: "srv_pool (rt_server rt) = Some p \<Longrightarrow> length (rt_busy rt) < live_workers p \<Longrightarrow>
     pool_jobCh p = job # rest \<Longrightarrow>
     start_job ops t job (p\<lparr>pool_jobCh := rest\<rparr>) (rt_sched rt) = (granted, p', sched') \<Longrightarrow>
     rt_step ops env sort_slice cvt allowed rt
       ((put_pool p' (put_sched sched' rt))\<lparr>rt_busy := (if granted then rt_busy rt @ [job] else rt_busy rt),
          rt_claims := (if granted then ID job # rt_claims rt else rt_claims rt)\<rparr>)"
| report: "srv_pool (rt_server rt) = Some p \<Longrightarrow> job \<in> set (rt_busy rt) \<Longrightarrow>
     finish_job ops cvt clk job p (rt_sched rt) = (p', sched') \<Longrightarrow>
     rt_step ops env sort_slice cvt allowed rt
       ((put_pool p' (put_sched sched' rt))\<lparr>rt_busy := remove1 job (rt_busy rt)\<rparr>)"
| stuck_begin: "rt_stuck rt = [] \<Longrightarrow> GetStuck ops t d (rt_store rt) = Inr jobs \<Longrightarrow>
     rt_step ops env sort_slice cvt allowed rt (rt\<lparr>rt_stuck := jobs\<rparr>)"
| stuck_recover: "rt_stuck rt = job # jobs \<Longrightarrow>
     recover_jobs ops clk [job] n m (rt_store rt) = (n', m', s') \<Longrightarrow>
     rt_step ops env sort_slice cvt allowed rt ((put_store s' rt)\<lparr>rt_stuck := jobs\<rparr>)"
| request: "allowed r \<Longrightarrow> (\<forall>k. new_uuid (newIDs k) rt) \<Longrightarrow>
     after_exchange (rt_server rt)
       (ServeHTTP ops env flusher kord pord newIDs clk events r (rt_server rt)) = Some srv' \<Longrightarrow>
     rt_step ops env sort_slice cvt allowed rt (rt\<lparr>rt_server := srv'\<rparr>)"

inductive rt_steps ::
    "'s JobStore \<Rightarrow> api_env \<Rightarrow> sorter \<Rightarrow> (float64 \<Rightarrow> int) \<Rightarrow> (api_request \<Rightarrow> bool) \<Rightarrow>
       's Runtime \<Rightarrow> 's Runtime \<Rightarrow> bool"
  for ops env sort_slice cvt allowed where
  rt_refl: "rt_steps ops env sort_slice cvt allowed rt rt"
| rt_more: "rt_steps ops env sort_slice cvt allowed rt rt1 \<Longrightarrow>
     rt_step ops env sort_slice cvt allowed rt1 rt2 \<Longrightarrow>
     rt_steps ops env sort_slice cvt allowed rt rt2"

lemma put_simps [simp]:
  "srv_sched (rt_server (put_sched sched rt)) = sched"
  "srv_pool (rt_server (put_sched sched rt)) = srv_pool (rt_server rt)"
  "srv_sched (rt_server (put_pool p rt)) = srv_sched (rt_server rt)"
  "srv_pool (rt_server (put_pool p rt)) = Some p"
  "srv_sched (rt_server (put_store s rt)) = (srv_sched (rt_server rt))\<lparr>sch_store := s\<rparr>"
  "srv_pool (rt_server (put_store s rt)) = srv_pool (rt_server rt)"
  "srv_eventBus (rt_server (put_sched sched rt)) = srv_eventBus (rt_server rt)"
  "srv_eventBus (rt_server (put_pool p rt)) = srv_eventBus (rt_server rt)"
  "srv_eventBus (rt_server (put_store s rt)) = srv_eventBus (rt_server rt)"
  "rt_cycle (put_sched sched rt) = rt_cycle rt" "rt_cycle (put_pool p rt) = rt_cycle rt"
  "rt_cycle (put_store s rt) = rt_cycle rt"
  "rt_delayed (put_sched sched rt) = rt_delayed rt" "rt_delayed (put_pool p rt) = rt_delayed rt"
  "rt_delayed (put_store s rt) = rt_delayed rt"
  "rt_stuck (put_sched sched rt) = rt_stuck rt" "rt_stuck (put_pool p rt) = rt_stuck rt"
  "rt_stuck (put_store s rt) = rt_stuck rt"
  "rt_busy (put_sched sched rt) = rt_busy rt" "rt_busy (put_pool p rt) = rt_busy rt"
  "rt_busy (put_store s rt) = rt_busy rt"
  "rt_claims (put_sched sched rt) = rt_claims rt" "rt_claims (put_pool p rt) = rt_claims rt"
  "rt_claims (put_store s rt) = rt_claims rt"
  by (simp_all add: put_sched_def put_pool_def put_store_def)

text \<open>
  A scheduling cycle that nothing interrupts is \<open>scheduleJobs\<close>: sending the jobs of the list
  one by one leaves the store and the channel as \<open>send_jobs\<close> does in one go.
\<close>

lemma send_jobs_Cons:
  "send_jobs ops cap clk (job # jobs) s ch =
     (let (sent, s', ch') = send_jobs ops cap clk [job] s ch
      in if sent then send_jobs ops cap (later 1 clk) jobs s' ch' else (False, s', ch'))"
  by (auto simp: Let_def split: prod.split)

end
