(* ===== verification/GQ_System_Props.thy ===== *)
theory GQ_System_Props
  imports GQ_System
begin

text \<open>
  Runs of the running program, and the first property of them: a cycle of steps that nothing
  interrupts is \<open>scheduleJobs\<close>.
\<close>

section \<open>Runs\<close>

lemma rt_steps_one: "rt_step ops env srt cvt allowed rt rt' \<Longrightarrow> rt_steps ops env srt cvt allowed rt rt'"
  by (rule rt_more [OF rt_refl])

lemma rt_steps_trans:
  assumes "rt_steps ops env srt cvt allowed rt1 rt2" and "rt_steps ops env srt cvt allowed rt0 rt1"
  shows "rt_steps ops env srt cvt allowed rt0 rt2"
  using assms by (induction rule: rt_steps.induct) (auto intro: rt_more)

lemma send_run:
  assumes "rt_cycle rt = jobs"
    and "send_jobs ops (BatchSize (sch_config (srv_sched (rt_server rt)))) clk jobs
      (sch_store (srv_sched (rt_server rt))) (jobCh (srv_sched (rt_server rt))) = (sent, s', ch')"
  shows "rt_steps ops env srt cvt allowed rt
    ((put_sched ((srv_sched (rt_server rt))\<lparr>sch_store := s', jobCh := ch'\<rparr>) rt)\<lparr>rt_cycle := []\<rparr>)"
  using assms
proof (induction jobs arbitrary: rt clk)
  case Nil
  then have "(put_sched ((srv_sched (rt_server rt))\<lparr>sch_store := s', jobCh := ch'\<rparr>) rt)\<lparr>rt_cycle := []\<rparr> = rt"
    by (simp add: put_sched_def)
  then show ?case by (metis rt_refl)
next
  case (Cons job jobs)
  let ?sched = "srv_sched (rt_server rt)"
  obtain sent1 s1 ch1 where one: "send_jobs ops (BatchSize (sch_config ?sched)) clk [job] (sch_store ?sched)
      (jobCh ?sched) = (sent1, s1, ch1)" by (metis prod_cases3)
  let ?rt1 = "(put_sched (?sched\<lparr>sch_store := s1, jobCh := ch1\<rparr>) rt)\<lparr>rt_cycle := (if sent1 then jobs else [])\<rparr>"
  have step: "rt_steps ops env srt cvt allowed rt ?rt1"
    by (rule rt_steps_one) (rule cycle_send [OF Cons.prems(1) one])
  show ?case
  proof (cases sent1)
    case True
    define clk' where "clk' = later 1 clk"
    have rest: "send_jobs ops (BatchSize (sch_config ?sched)) clk' jobs s1 ch1 = (sent, s', ch')"
      using Cons.prems(2) one True unfolding send_jobs_Cons [of _ _ _ job jobs] clk'_def by simp
    have "rt_steps ops env srt cvt allowed ?rt1
        ((put_sched ((srv_sched (rt_server ?rt1))\<lparr>sch_store := s', jobCh := ch'\<rparr>) ?rt1)\<lparr>rt_cycle := []\<rparr>)"
      using True rest by (intro Cons.IH [where clk = clk']) simp_all
    then have "rt_steps ops env srt cvt allowed ?rt1
        ((put_sched (?sched\<lparr>sch_store := s', jobCh := ch'\<rparr>) rt)\<lparr>rt_cycle := []\<rparr>)"
      by (simp add: put_sched_def)
    from rt_steps_trans [OF this step] show ?thesis .
  next
    case False
    have "s' = s1" "ch' = ch1"
      using Cons.prems(2) one False unfolding send_jobs_Cons [of _ _ _ job jobs] by simp_all
    with step False show ?thesis by simp
  qed
qed



end
