(* ===== verification/GQ_Once.thy ===== *)
theory GQ_Once
  imports GQ_System_Props
begin

text \<open>
  How often a job is executed: the invariant of the running program from which it follows
  that no job is claimed twice unless a client asks for a retry. It needs a store whose writes
  do not fail, like the in-memory one.
\<close>

section \<open>Stores whose writes do not fail\<close>

locale reliable_store = job_store +
  assumes always_storable: "storable s j"
    and SaveResult_succeeds: "inv s \<Longrightarrow> \<exists>s'. SaveResult ops r s = (None, s')"
begin

lemma UpdateState_effect:
  assumes "inv s" and "UpdateState ops t i st s = (e, s')"
  shows "inv s' \<and> jobs_of s' =
    (case jobs_of s i of None \<Rightarrow> jobs_of s | Some j \<Rightarrow> (jobs_of s)(i \<mapsto> j\<lparr>State := st, UpdatedAt := t\<rparr>))"
proof (cases "jobs_of s i")
  case None
  from UpdateState_missing [OF assms(1) None, of t st] assms(2) have "e = Some ErrJobNotFound" by simp
  with assms(2) have "s' = s" by (auto dest: UpdateState_err [OF assms(1)])
  with assms(1) None show ?thesis by simp
next
  case (Some j)
  from UpdateState_succeeds [OF assms(1) Some always_storable, of t st] assms(2) have "e = None" by simp
  with UpdateState_ok [OF assms(1)] assms(2) Some show ?thesis by fastforce
qed

end

interpretation mem_reliable: reliable_store "memory_store (\<lambda>m. m)" mem_inv "\<lambda>_ _. True" mem_jobs_of
  "\<lambda>m. map_of (mem_results m)" "\<lambda>m. map_of (mem_checkpoints m)" "\<lambda>m. map_of (mem_idempotency m)"
  by unfold_locales (simp_all add: mem_SaveResult_def)

section \<open>What each step does to the stored jobs\<close>

text \<open>
  A change of one stored job by a report, a recovery or a cancellation: it keeps the number of
  attempts and leaves the job in a state in which nobody takes it up.
\<close>

definition settled :: "Job \<Rightarrow> bool" where
  "settled j \<longleftrightarrow> State j \<in> {JobStateCompleted, JobStateFailed, JobStateDeadLetter, JobStateRetrying,
     JobStateCancelled}"

lemma settledD:
  "settled j \<Longrightarrow> \<not> is_pending j" "settled j \<Longrightarrow> State j \<noteq> JobStatePending"
  "settled j \<Longrightarrow> State j \<noteq> JobStateDelayed" "settled j \<Longrightarrow> State j \<noteq> JobStateRunning"
  by (auto simp: settled_def is_pending_def)

definition settles :: "(uuid \<Rightarrow> Job option) \<Rightarrow> uuid \<Rightarrow> (uuid \<Rightarrow> Job option) \<Rightarrow> bool" where
  "settles before i now \<longleftrightarrow> now = before \<or>
     (\<exists>j j'. before i = Some j \<and> now = before(i \<mapsto> j') \<and> Attempt j' = Attempt j \<and> settled j')"

lemma settles_refl [simp]: "settles before i before"
  by (simp add: settles_def)

text \<open>A cancellation, of a job that is not finished.\<close>

definition cancels :: "(uuid \<Rightarrow> Job option) \<Rightarrow> uuid \<Rightarrow> (uuid \<Rightarrow> Job option) \<Rightarrow> bool" where
  "cancels before i now \<longleftrightarrow> now = before \<or>
     (\<exists>j j'. before i = Some j \<and> \<not> IsTerminal j \<and> now = before(i \<mapsto> j') \<and>
        Attempt j' = Attempt j \<and> State j' = JobStateCancelled)"

lemma cancels_refl [simp]: "cancels before i before"
  by (simp add: cancels_def)

text \<open>The other changes a request can make: new pending jobs, or a job less.\<close>

definition adds :: "(uuid \<Rightarrow> Job option) \<Rightarrow> uuid set \<Rightarrow> (uuid \<Rightarrow> Job option) \<Rightarrow> bool" where
  "adds before new now \<longleftrightarrow>
     (\<forall>i. now i = before i \<or> before i = None \<and> i \<in> new \<and>
        (\<exists>j. now i = Some j \<and> State j = JobStatePending \<and> Attempt j = 0))"

lemma adds_refl [simp]: "adds before new before"
  by (simp add: adds_def)

lemma failed_job_settled: "settled (failed_job cvt clk r j) \<and> Attempt (failed_job cvt clk r j) = Attempt j"
  by (auto simp: failed_job_def settled_def Let_def)

context job_store
begin

lemma Complete_settles:
  assumes "inv (sch_store sched)" and "Complete ops clk i r sched = (e, sched')"
  shows "inv (sch_store sched') \<and> settles (jobs_of (sch_store sched)) i (jobs_of (sch_store sched'))"
proof -
  let ?done = "\<lambda>j. j\<lparr>State := JobStateCompleted, CompletedAt := clk 0, UpdatedAt := clk 1\<rparr>"
  have "settled (?done j) \<and> Attempt (?done j) = Attempt j" for j by (simp add: settled_def)
  then show ?thesis
    using Complete_ok [OF assms(1)] Complete_failed [OF assms(1)] assms(2)
    by (cases e) (metis settles_def)+
qed

lemma Fail_settles:
  assumes "inv (sch_store sched)" and "Fail ops cvt clk i r sched = (e, sched')"
  shows "inv (sch_store sched') \<and> settles (jobs_of (sch_store sched)) i (jobs_of (sch_store sched'))"
proof (cases "jobs_of (sch_store sched) i")
  case None
  with assms show ?thesis by (auto simp: Fail_def Get)
next
  case (Some j)
  from assms(1) Some assms(2) show ?thesis
  proof (cases rule: Fail_cases)
    case not_saved
    with assms(1) show ?thesis by simp
  next
    case not_updated
    then show ?thesis by simp
  next
    case ok
    with Some failed_job_settled [of cvt clk r j] show ?thesis by (auto simp: settles_def)
  qed
qed

end

lemma report_channel:
  "Complete ops clk i r sched = (e, sched') \<Longrightarrow> jobCh sched' = jobCh sched"
  "Fail ops cvt clk i r sched = (e, sched') \<Longrightarrow> jobCh sched' = jobCh sched"
  by (auto simp: Complete_def Fail_def Let_def split: sum.splits prod.splits option.splits if_splits)

context job_store
begin

text \<open>The rest of \<open>processJob\<close> reports once, on the store as the handler has left it.\<close>

lemma finish_job_cases:
  assumes "inv (sch_store sched)" and "finish_job ops cvt clk job p sched = (p', sched')"
  obtains (completed) s1 res e clk' where "inv s1" "jobs_of s1 = jobs_of (sch_store sched)" "JobID res = ID job"
      "pool_jobCh p' = pool_jobCh p" "Complete ops clk' (ID job) res (sched\<lparr>sch_store := s1\<rparr>) = (e, sched')"
    | (failed) s1 res e clk' where "inv s1" "jobs_of s1 = jobs_of (sch_store sched)" "JobID res = ID job"
      "pool_jobCh p' = pool_jobCh p" "Fail ops cvt clk' (ID job) res (sched\<lparr>sch_store := s1\<rparr>) = (e, sched')"
proof -
  obtain p2 sched2 where c: "process_claimed ops cvt clk job p sched = (p2, sched2)" by fastforce
  with assms(2) have eq: "sched' = sched2" "pool_jobCh p' = pool_jobCh p2"
    by (auto simp: finish_job_def)
  show ?thesis
  proof (cases "map_of (handlers p) (JobType job)")
    case None
    define res where "res = zero_JobResult\<lparr>JobID := ID job,
      ResultError := ''no handler registered for job type: '' @ JobType job,
      ResultCategory := ErrorCategoryPermanent, ResultCompletedAt := clk 2, Duration := time_Sub (clk 3) (clk 0)\<rparr>"
    have "JobID res = ID job" by (simp add: res_def)
    moreover obtain e where f: "Fail ops cvt (later 4 clk) (JobID res) res sched = (e, sched2)"
        "pool_jobCh p2 = pool_jobCh p"
      using c None unfolding process_claimed_def FailJob_def res_def [symmetric] Let_def
      by (cases "Fail ops cvt (later 4 clk) (JobID res) res sched") auto
    ultimately show ?thesis using f eq assms(1) by (intro failed [of "sch_store sched" res _ e]) simp_all
  next
    case (Some h)
    define timeout where "timeout = (if Timeout job = 0 then JobTimeout (pool_config p) else Timeout job)"
    obtain err jc s1 where x: "executeWithRecovery ops (clk 2 + timeout) (createJobContext job) h (sch_store sched) =
        (err, jc, s1)" by (metis prod_cases3)
    have fr: "inv s1" "jobs_of s1 = jobs_of (sch_store sched)"
      using executeWithRecovery_frame [OF assms(1) x] by simp_all
    let ?sched1 = "sched\<lparr>sch_store := s1\<rparr>"
    have "\<exists>res e clk'. JobID res = ID job \<and> pool_jobCh p2 = pool_jobCh p \<and>
        (Fail ops cvt clk' (JobID res) res ?sched1 = (e, sched2) \<or>
         Complete ops clk' (JobID res) res ?sched1 = (e, sched2))"
    proof (cases err)
      case (Some e)
      define res where "res = zero_JobResult\<lparr>JobID := ID job, ResultError := Error e,
        ResultCategory := ClassifyError err, ResultCompletedAt := clk 4, Duration := time_Sub (clk 3) (clk 0)\<rparr>"
      have "JobID res = ID job" by (simp add: res_def)
      moreover have "process_claimed ops cvt clk job p sched =
          (p\<lparr>pool_failed := wrap64 (pool_failed p + 1)\<rparr>,
           snd (Fail ops cvt (later 5 clk) (JobID res) res ?sched1))"
        using \<open>map_of (handlers p) (JobType job) = Some h\<close> x Some
        by (simp add: process_claimed_def FailJob_def res_def timeout_def Let_def)
      ultimately show ?thesis using c by (metis SimplePool.ext_inject SimplePool.surjective
            SimplePool.update_convs(9) prod.collapse prod.inject)
    next
      case None
      define res where "res = zero_JobResult\<lparr>JobID := ID job, Success := True, Output := jc_output jc,
        ResultCompletedAt := clk 4, Duration := time_Sub (clk 3) (clk 0)\<rparr>"
      have "JobID res = ID job" by (simp add: res_def)
      moreover have "process_claimed ops cvt clk job p sched =
          (p\<lparr>succeeded := wrap64 (succeeded p + 1)\<rparr>,
           snd (Complete ops (later 5 clk) (JobID res) res ?sched1))"
        using \<open>map_of (handlers p) (JobType job) = Some h\<close> x None
        by (simp add: process_claimed_def CompleteJob_def res_def timeout_def Let_def)
      ultimately show ?thesis using c by (metis SimplePool.ext_inject SimplePool.surjective
            SimplePool.update_convs(8) prod.collapse prod.inject)
    qed
    then obtain res e clk' where res: "JobID res = ID job" "pool_jobCh p2 = pool_jobCh p"
      and r: "Fail ops cvt clk' (JobID res) res ?sched1 = (e, sched2) \<or>
        Complete ops clk' (JobID res) res ?sched1 = (e, sched2)" by blast
    from r show ?thesis
    proof
      assume f: "Fail ops cvt clk' (JobID res) res ?sched1 = (e, sched2)"
      with res fr eq show ?thesis by (intro failed [of s1 res clk' e]) simp_all
    next
      assume f: "Complete ops clk' (JobID res) res ?sched1 = (e, sched2)"
      with res fr eq show ?thesis by (intro completed [of s1 res clk' e]) simp_all
    qed
  qed
qed

lemma finish_job_effect:
  assumes "inv (sch_store sched)" and "finish_job ops cvt clk job p sched = (p', sched')"
  shows "inv (sch_store sched') \<and> settles (jobs_of (sch_store sched)) (ID job) (jobs_of (sch_store sched')) \<and>
    jobCh sched' = jobCh sched \<and> pool_jobCh p' = pool_jobCh p"
  using assms
proof (cases rule: finish_job_cases)
  case (completed s1 res e clk')
  with Complete_settles [OF _ completed(5)] report_channel(1) [OF completed(5)] show ?thesis by simp
next
  case (failed s1 res e clk')
  with Fail_settles [OF _ failed(5)] report_channel(2) [OF failed(5)] show ?thesis by simp
qed

lemma start_job_effect:
  assumes "inv (sch_store sched)" and "start_job ops t job p sched = (granted, p', sched')"
  shows "inv (sch_store sched') \<and> jobCh sched' = jobCh sched \<and> pool_jobCh p' = pool_jobCh p \<and>
    (if granted
     then \<exists>j w. jobs_of (sch_store sched) (ID job) = Some j \<and> is_pending j \<and>
       jobs_of (sch_store sched') = (jobs_of (sch_store sched))(ID job \<mapsto> claimed_by t w j)
     else jobs_of (sch_store sched') = jobs_of (sch_store sched))"
proof -
  let ?w = "WorkerConfigID (pool_config p)"
  obtain b err s' where c: "ClaimJob ops t (ID job) ?w (sch_store sched) = (b, err, s')" by (metis prod_cases3)
  show ?thesis
  proof (cases "(b, err) = (True, None)")
    case True
    with c have c': "ClaimJob ops t (ID job) ?w (sch_store sched) = (True, None, s')" by simp
    from ClaimJob_ok [OF assms(1) c'] assms(2) c True show ?thesis by (auto simp: start_job_def)
  next
    case False
    from ClaimJob_no [OF assms(1) c False] assms c False show ?thesis
      by (auto simp: start_job_def split: if_splits)
  qed
qed

lemma recover_one_effect:
  assumes "inv s" and "recover_jobs ops clk [job] n m s = (n', m', s')"
  shows "inv s' \<and> (jobs_of s' = jobs_of s \<or>
    (\<exists>j'. jobs_of s (ID job) \<noteq> None \<and> jobs_of s' = (jobs_of s)(ID job \<mapsto> j') \<and>
       Attempt j' = Attempt job \<and> settled j'))"
proof -
  let ?r = "recovered_job (clk 0) (clk 1) job"
  obtain j' e s1 where upd: "Update ops (clk 2) ?r s = (j', e, s1)" by (metis prod_cases3)
  then have s': "s' = s1" using assms(2) by (auto split: if_splits)
  have "settled (?r\<lparr>UpdatedAt := clk 2\<rparr>)" by (simp add: settled_def)
  moreover from assms(1) upd have "inv s1 \<and> (jobs_of s1 = jobs_of s \<or>
      jobs_of s (ID job) \<noteq> None \<and> jobs_of s1 = (jobs_of s)(ID job \<mapsto> ?r\<lparr>UpdatedAt := clk 2\<rparr>))"
    by (cases rule: Update_cases) (simp_all add: assms(1))
  ultimately show ?thesis unfolding s' by auto
qed

end

section \<open>What a request does\<close>

text \<open>
  A request leaves the channels, the scheduler's switches, the pool and the configuration alone.
\<close>

definition sched_shape where
  "sched_shape sched = (jobCh sched, sch_running sched, stopCh_closed sched, schedule_loops sched,
     delayed_loops sched, sch_config sched)"

lemma sched_shape_store [simp]: "sched_shape (sched\<lparr>sch_store := s\<rparr>) = sched_shape sched"
  by (simp add: sched_shape_def)

definition same_channels :: "'s Server \<Rightarrow> 's Server \<Rightarrow> bool" where
  "same_channels srv srv' \<longleftrightarrow> sched_shape (srv_sched srv') = sched_shape (srv_sched srv) \<and>
     srv_pool srv' = srv_pool srv \<and> srv_config srv' = srv_config srv \<and> srv_auth srv' = srv_auth srv"

lemma same_channels_simps [simp]:
  "same_channels srv srv" "same_channels srv (with_store s srv)"
  "same_channels srv (srv\<lparr>srv_sched := sched\<rparr>) \<longleftrightarrow> sched_shape sched = sched_shape (srv_sched srv)"
  "same_channels (with_store s srv) srv' \<longleftrightarrow> same_channels srv srv'"
  "same_channels (srv\<lparr>srv_metrics := m\<rparr>) srv' \<longleftrightarrow> same_channels srv srv'"
  by (simp_all add: same_channels_def with_store_def)

lemma same_channels_trans: "same_channels a b \<Longrightarrow> same_channels b c \<Longrightarrow> same_channels a c"
  by (simp add: same_channels_def)

lemma publish_channels: "publish_event k ev srv = Returns srv' \<Longrightarrow> same_channels srv srv'"
  by (auto simp: publish_event_def same_channels_def split: option.splits go_result.splits)

lemma Enqueue_channels: "Enqueue clk job sched = (job', e, sched') \<Longrightarrow> sched_shape sched' = sched_shape sched"
  by (auto simp: Enqueue_def sched_shape_def Let_def split: if_splits)

lemma Cancel_channels: "Cancel ops clk i reason force sched = (e, sched') \<Longrightarrow> sched_shape sched' = sched_shape sched"
  by (auto simp: Cancel_def Let_def split: sum.splits prod.splits if_splits)

lemma answer_after_Returns:
  "answer_after r resp = Returns (resp', srv') \<longleftrightarrow> r = Returns srv' \<and> resp' = resp"
  by (cases r) (auto simp: answer_after_def)

lemma submitJob_channels:
  assumes "submitJob ops env newID clk body srv = Returns (resp, srv')"
  shows "same_channels srv srv'"
proof (cases "\<exists>req s'. dec_submit env body = Some req \<and> ReqType req \<noteq> '''' \<and>
    Create ops (createJobFromRequest env newID clk req) (sch_store (srv_sched srv)) = (None, s')")
  case True
  then obtain req s' where c: "dec_submit env body = Some req" "ReqType req \<noteq> ''''"
    "Create ops (createJobFromRequest env newID clk req) (sch_store (srv_sched srv)) = (None, s')" by blast
  obtain job' e sched' where enq: "Enqueue (later 3 clk) (createJobFromRequest env newID clk req)
      (srv_sched (with_store s' srv)) = (job', e, sched')" by (metis prod_cases3)
  have one: "same_channels srv ((with_store s' srv)\<lparr>srv_sched := sched'\<rparr>)"
    using Enqueue_channels [OF enq] by (simp add: same_channels_def with_store_def)
  show ?thesis
  proof (cases e)
    case None
    with assms c enq one show ?thesis
      by (auto simp: submitJob_def Let_def answer_after_Returns
          dest!: publish_channels intro: same_channels_trans [OF one])
  next
    case (Some x)
    with assms c enq one show ?thesis by (auto simp: submitJob_def Let_def)
  qed
next
  case False
  then show ?thesis
    using assms by (auto simp: submitJob_def Let_def split: option.splits if_splits prod.splits sum.splits)
qed

lemma batch_persist_channels:
  "batch_persist ops env atomic clk i jobs resp srv = Returns (resp', srv') \<Longrightarrow> same_channels srv srv'"
proof (induction jobs arbitrary: clk i resp srv)
  case Nil
  then show ?case by simp
next
  case (Cons job jobs)
  obtain e s' where c: "Create ops job (sch_store (srv_sched srv)) = (e, s')" by fastforce
  show ?case
  proof (cases e)
    case (Some x)
    with Cons.prems Cons.IH c show ?thesis by (fastforce split: if_splits)
  next
    case None
    obtain job' err sched' where enq: "Enqueue clk job (srv_sched (with_store s' srv)) = (job', err, sched')"
      by (metis prod_cases3)
    have one: "same_channels srv ((with_store s' srv)\<lparr>srv_sched := sched'\<rparr>)"
      using Enqueue_channels [OF enq] by (simp add: same_channels_def with_store_def)
    let ?srv3 = "(with_store s' srv)\<lparr>srv_sched := sched', srv_metrics :=
      RecordJobEnqueued (JobType job') (Priority job') (srv_metrics ((with_store s' srv)\<lparr>srv_sched := sched'\<rparr>))\<rparr>"
    show ?thesis
    proof (cases "err \<noteq> None \<and> atomic")
      case True
      with Cons.prems c None enq one show ?thesis by (auto simp: Let_def)
    next
      case False
      with Cons.prems c None enq obtain srv4 where
        p: "publish_event (uuid_text env (ID job')) (job_event env ''job.created'' job') ?srv3 = Returns srv4"
        and r: "batch_persist ops env atomic (later 1 clk) (Suc i) jobs resp srv4 = Returns (resp', srv')"
        by (auto simp: Let_def split: go_result.splits)
      have "same_channels srv ?srv3" using one by (simp add: same_channels_def)
      from same_channels_trans [OF same_channels_trans [OF this publish_channels [OF p]] Cons.IH [OF r]]
      show ?thesis .
    qed
  qed
qed

lemma handleBatchSubmit_channels:
  "handleBatchSubmit ops env newIDs clk r srv = Returns (resp, srv') \<Longrightarrow> same_channels srv srv'"
  by (auto simp: handleBatchSubmit_def dest: batch_persist_channels
      split: if_splits option.splits sum.splits prod.splits)

lemma answer_job_channels:
  "answer_job ops env kind i srv = Returns (resp, srv') \<Longrightarrow> same_channels srv srv'"
  by (auto simp: answer_job_def answer_after_Returns dest: publish_channels split: sum.splits)

lemma cancelJob_channels:
  assumes "cancelJob ops env clk r i srv = Returns (resp, srv')"
  shows "same_channels srv srv'"
proof -
  obtain reason force where d: "dec_cancel env (Body r) = (reason, force)" by fastforce
  obtain e sched' where c: "Cancel ops clk i reason force (srv_sched srv) = (e, sched')" by fastforce
  have one: "same_channels srv (srv\<lparr>srv_sched := sched'\<rparr>)" using Cancel_channels [OF c] by simp
  from assms d c show ?thesis
    by (auto simp: cancelJob_def Let_def one intro: same_channels_trans [OF one] dest!: answer_job_channels
        split: if_splits option.splits)
qed

lemma deleteJob_channels:
  assumes "deleteJob ops env i srv = Returns (resp, srv')"
  shows "same_channels srv srv'"
proof -
  obtain e s' where d: "Delete ops i (sch_store (srv_sched srv)) = (e, s')" by fastforce
  with assms show ?thesis
    by (cases e) (auto simp: deleteJob_def answer_after_Returns dest!: publish_channels split: if_splits)
qed

definition request_effect :: "(uuid \<Rightarrow> Job option) \<Rightarrow> uuid set \<Rightarrow> (uuid \<Rightarrow> Job option) \<Rightarrow> bool" where
  "request_effect before new now \<longleftrightarrow>
     adds before new now \<or> (\<exists>i. cancels before i now) \<or> (\<exists>i. now = before(i := None))"

lemma request_effect_same [simp]: "request_effect before new before"
  by (simp add: request_effect_def)

lemma request_options_are_core: "list_all core_option (request_options env t req)"
  unfolding request_options_def list_all_append
  by (intro conjI) (simp_all add: core_option.intros split: option.split)

lemma created_lifecycle [simp]:
  "Attempt (createJobFromRequest env newID clk req) = 0"
  using fold_options_lifecycle [OF request_options_are_core]
  by (simp add: createJobFromRequest_def NewJob_def Let_def lifecycle_fields_def zero_Job_def)

lemma batch_create_made:
  assumes "batch_create env atomic newIDs clk i reqs = Inr (results, jobs)"
  shows "\<forall>j \<in> set jobs. \<exists>k c. \<exists>req \<in> set reqs. j = createJobFromRequest env (newIDs k) c req"
  using assms
proof (induction env atomic newIDs clk i reqs arbitrary: results jobs rule: batch_create.induct)
  case (1 env atomic newIDs clk i)
  then show ?case by simp
next
  case (2 env atomic newIDs clk i req reqs)
  show ?case
  proof (cases "ReqType req = ''''")
    case True
    with "2.prems" "2.IH"(1) [OF True] show ?thesis by (fastforce split: sum.splits if_splits)
  next
    case False
    with "2.prems" obtain results' jobs' where
      rest: "batch_create env atomic newIDs (later 3 clk) (Suc i) reqs = Inr (results', jobs')"
      and "jobs = createJobFromRequest env (newIDs i) clk req # jobs'"
      by (auto simp: Let_def split: sum.splits)
    with "2.IH"(2) [OF False refl rest] show ?thesis by fastforce
  qed
qed

lemma batch_create_jobs:
  assumes "batch_create env atomic newIDs clk i reqs = Inr (results, jobs)"
  shows "\<forall>j \<in> set jobs. State j = JobStatePending \<and> Attempt j = 0 \<and> ID j \<in> range newIDs"
  using batch_create_made [OF assms] by auto

lemma stored_on_top_adds:
  assumes "stored_on_top before js now"
    and "\<forall>j \<in> set js. State j = JobStatePending \<and> Attempt j = 0 \<and> ID j \<in> new"
  shows "adds before new now"
proof -
  have d: "distinct (map ID js)" "ID ` set js \<inter> dom before = {}"
    and now: "now = before ++ map_of (map (\<lambda>j. (ID j, j)) js)"
    using assms(1) by (simp_all add: stored_on_top_def)
  show ?thesis
    unfolding adds_def
  proof
    fix i
    show "now i = before i \<or> before i = None \<and> i \<in> new \<and>
        (\<exists>j. now i = Some j \<and> State j = JobStatePending \<and> Attempt j = 0)"
    proof (cases "map_of (map (\<lambda>j. (ID j, j)) js) i")
      case None
      then show ?thesis by (simp add: now map_add_def)
    next
      case (Some j)
      then have "j \<in> set js" "ID j = i" by (auto dest!: map_of_SomeD)
      with Some d(2) assms(2) show ?thesis by (auto simp: now)
    qed
  qed
qed

context job_store
begin

lemma submitJob_effect:
  assumes "server_ok inv srv" and "uuid_texts_ok env"
    and "submitJob ops env newID clk body srv = Returns (resp, srv')"
  shows "adds (jobs_of (sch_store (srv_sched srv))) {newID} (jobs_of (sch_store (srv_sched srv')))"
proof (cases rule: submitJob_cases [OF assms(1,2), of newID clk body])
  case (1 c m)
  with assms(3) show ?thesis by simp
next
  case (2 req e s' resp')
  with assms(3) show ?thesis by auto
next
  case (3 req job' srv1)
  have "inv (sch_store (srv_sched srv))" using assms(1) by (simp add: server_ok_def)
  from Create_ok [OF this 3(3)] 3 assms(3) show ?thesis by (auto simp: adds_def)
qed

lemma handleBatchSubmit_effect:
  assumes "server_ok inv srv" and "uuid_texts_ok env"
    and "handleBatchSubmit ops env newIDs clk r srv = Returns (resp, srv')"
  shows "adds (jobs_of (sch_store (srv_sched srv))) (range newIDs) (jobs_of (sch_store (srv_sched srv')))"
proof (cases "\<exists>(req :: BatchSubmitRequest) results jobs. batch_create env (Atomic req) newIDs clk 0 (BatchJobs req) = Inr (results, jobs) \<and>
    handleBatchSubmit ops env newIDs clk r srv = batch_persist ops env (Atomic req)
      (later (3 * length jobs) clk) 0 jobs (batch_response results) srv")
  case True
  then obtain req :: BatchSubmitRequest and results jobs where c: "batch_create env (Atomic req) newIDs clk 0 (BatchJobs req) = Inr (results, jobs)"
    and h: "handleBatchSubmit ops env newIDs clk r srv = batch_persist ops env (Atomic req)
      (later (3 * length jobs) clk) 0 jobs (batch_response results) srv" by blast
  from batch_persist_stored [OF assms(1,2), of "Atomic req" "later (3 * length jobs) clk" 0 jobs
      "batch_response results"] assms(3) h obtain js
    where "stored_on_top (jobs_of (sch_store (srv_sched srv))) js (jobs_of (sch_store (srv_sched srv')))"
      "set js \<subseteq> set jobs" by auto
  with batch_create_jobs [OF c] show ?thesis by (intro stored_on_top_adds [of _ js]) auto
next
  case False
  then have "srv' = srv"
    using assms(3)
    by (auto simp: handleBatchSubmit_def split: if_splits option.splits sum.splits prod.splits) metis
  then show ?thesis by simp
qed

lemma cancelJob_effect:
  assumes "server_ok inv srv" and "uuid_texts_ok env"
    and "cancelJob ops env clk r i srv = Returns (resp, srv')"
  shows "cancels (jobs_of (sch_store (srv_sched srv))) i (jobs_of (sch_store (srv_sched srv')))"
proof (cases "Method r = ''POST''")
  case False
  with assms(3) show ?thesis by (simp add: cancelJob_def)
next
  case True
  obtain reason force where d: "dec_cancel env (Body r) = (reason, force)" by fastforce
  obtain err sched' where c: "Cancel ops clk i reason force (srv_sched srv) = (err, sched')" by fastforce
  have ok: "inv (sch_store (srv_sched srv))" and bus: "\<exists>eb. srv_eventBus srv = Some eb \<and> bus_ok eb"
    using assms(1) by (simp_all add: server_ok_def)
  let ?srv1 = "srv\<lparr>srv_sched := sched'\<rparr>"
  have st: "cancels (jobs_of (sch_store (srv_sched srv))) i (jobs_of (sch_store sched'))"
  proof (cases "jobs_of (sch_store (srv_sched srv)) i")
    case None
    with c ok show ?thesis by (auto simp: Cancel_def Get cancels_def)
  next
    case (Some j)
    note e = Cancel_effect [OF ok Some c]
    from e(2-4) Some show ?thesis
      by (cases "IsTerminal j"; cases "State j = JobStateRunning \<and> \<not> force")
        (auto simp: cancels_def)
  qed
  have "sch_store (srv_sched srv') = sch_store sched'"
  proof (cases err)
    case None
    then have "answer_job ops env ''job.cancelled'' i ?srv1 = Returns (resp, srv')"
      using assms(3) True d c by (simp add: cancelJob_def Let_def)
    then show ?thesis
      by (auto simp: answer_job_def answer_after_Returns publish_event_def split: sum.splits option.splits go_result.splits)
  next
    case (Some e)
    with assms(3) True d c show ?thesis by (auto simp: cancelJob_def Let_def split: if_splits)
  qed
  with st show ?thesis by simp
qed

lemma deleteJob_effect:
  assumes "server_ok inv srv" and "uuid_texts_ok env"
    and "deleteJob ops env i srv = Returns (resp, srv')"
  shows "jobs_of (sch_store (srv_sched srv')) = jobs_of (sch_store (srv_sched srv)) \<or>
    jobs_of (sch_store (srv_sched srv')) = (jobs_of (sch_store (srv_sched srv)))(i := None)"
  using deleteJob_ok [OF assms(1,2), of i] assms(3) by auto

end

lemma split_slash_not_Nil: "split_slash s \<noteq> []"
  by (induction s) (auto split: list.split)

lemma handleEvents_channels:
  "handleEvents flusher r srv = EventsAnswer resp srv' \<Longrightarrow> srv_sched srv' = srv_sched srv \<and> same_channels srv srv'"
  "handleEvents flusher r srv = EventsStream ch text srv' \<Longrightarrow> srv_sched srv' = srv_sched srv \<and> same_channels srv srv'"
  by (auto simp: handleEvents_def Let_def same_channels_def split: if_splits option.splits prod.splits)

lemma retryJob_channels:
  assumes "retryJob ops env clk r i srv = Returns (resp, srv')"
  shows "same_channels srv srv'"
proof -
  obtain e sched' where c: "Retry ops clk i (dec_retry env (Body r)) (srv_sched srv) = (e, sched')" by fastforce
  then have "sched_shape sched' = sched_shape (srv_sched srv)"
    by (auto simp: Retry_def Let_def split: sum.splits prod.splits if_splits)
  then have one: "same_channels srv (srv\<lparr>srv_sched := sched'\<rparr>)" by simp
  from assms c show ?thesis
    by (auto simp: retryJob_def Let_def one intro: same_channels_trans [OF one] dest!: answer_job_channels
        split: if_splits option.splits)
qed

lemma handleJobByID_cases:
  assumes "handleJobByID ops env clk events r srv = Some (Returns (resp, srv'))"
  shows "srv' = srv \<or> (\<exists>i. cancelJob ops env clk r i srv = Returns (resp, srv')) \<or>
    (\<exists>i. deleteJob ops env i srv = Returns (resp, srv')) \<or>
    retry_request r \<and> (\<exists>i. retryJob ops env clk r i srv = Returns (resp, srv'))"
proof -
  obtain idStr rest where parts: "split_slash (trim_prefix (Path r) ''/api/v1/jobs/'') = idStr # rest"
    using split_slash_not_Nil by (metis neq_Nil_conv)
  show ?thesis
  proof (cases rest)
    case Nil
    with assms parts show ?thesis by (auto simp: handleJobByID_def split: if_splits option.splits)
  next
    case (Cons sub more')
    with assms parts show ?thesis
      by (auto simp: handleJobByID_def retry_request_def split: if_splits option.splits)
  qed
qed

lemma exchange_of_after:
  "after_exchange srv (exchange_of h served) = Some srv' \<longleftrightarrow> (\<exists>resp. served = Returns (resp, srv'))"
  by (cases served) (auto simp: exchange_of_def)

lemma route_request_channels:
  assumes "after_exchange srv (route_request ops env flusher pord newIDs clk events h r srv) = Some srv'"
  shows "same_channels srv srv'"
proof (cases "registerRoutes (Path r)")
  case None
  with assms show ?thesis by (simp add: route_request_def)
next
  case (Some rt)
  note route = assms [unfolded route_request_def Let_def Some option.case]
  show ?thesis
  proof (cases rt)
    case JobsRoute
    with route obtain resp where "handleJobs ops env (newIDs 0) clk r srv = Returns (resp, srv')"
      by (auto simp: exchange_of_after)
    then show ?thesis by (auto simp: handleJobs_def dest: submitJob_channels split: if_splits)
  next
    case JobByIDRoute
    show ?thesis
    proof (cases "handleJobByID ops env clk events r srv")
      case None
      with route JobByIDRoute show ?thesis by simp
    next
      case (Some served)
      with route JobByIDRoute obtain resp where "served = Returns (resp, srv')"
        by (auto simp: exchange_of_after)
      from handleJobByID_cases [OF Some [unfolded this]] show ?thesis
        by (auto dest: cancelJob_channels deleteJob_channels retryJob_channels)
    qed
  next
    case BatchRoute
    with route show ?thesis by (auto simp: exchange_of_after dest: handleBatchSubmit_channels)
  next
    case EventsRoute
    with route show ?thesis
      by (cases "handleEvents flusher r srv") (auto dest: handleEvents_channels)
  qed (use route in simp_all)
qed

lemma ServeHTTP_channels:
  assumes "after_exchange srv (ServeHTTP ops env flusher kord pord newIDs clk events r srv) = Some srv'"
  shows "same_channels srv srv'"
  using assms by (auto simp: ServeHTTP_def dest: route_request_channels split: sum.splits prod.splits)

context job_store
begin

lemma handleJobByID_effect:
  assumes "server_ok inv srv" and "uuid_texts_ok env" and "\<not> retry_request r"
    and "handleJobByID ops env clk events r srv = Some (Returns (resp, srv'))"
  shows "request_effect (jobs_of (sch_store (srv_sched srv))) new (jobs_of (sch_store (srv_sched srv')))"
  using handleJobByID_cases [OF assms(4)] assms(3) cancelJob_effect [OF assms(1,2)] deleteJob_effect [OF assms(1,2)]
  unfolding request_effect_def by (metis cancels_refl)

lemma route_request_effect:
  assumes "server_ok inv srv" and "uuid_texts_ok env" and "\<not> retry_request r"
    and "after_exchange srv (route_request ops env flusher pord newIDs clk events h r srv) = Some srv'"
  shows "request_effect (jobs_of (sch_store (srv_sched srv))) (range newIDs)
    (jobs_of (sch_store (srv_sched srv')))"
proof (cases "registerRoutes (Path r)")
  case None
  with assms(4) show ?thesis by (simp add: route_request_def)
next
  case (Some rt)
  note route = assms(4) [unfolded route_request_def Let_def Some option.case]
  show ?thesis
  proof (cases rt)
    case JobsRoute
    with route obtain resp where j: "handleJobs ops env (newIDs 0) clk r srv = Returns (resp, srv')"
      by (auto simp: exchange_of_after)
    show ?thesis
    proof (cases "Method r = ''POST''")
      case True
      with j have s: "submitJob ops env (newIDs 0) clk (Body r) srv = Returns (resp, srv')"
        by (simp add: handleJobs_def)
      from submitJob_effect [OF assms(1,2) s] have
        "adds (jobs_of (sch_store (srv_sched srv))) (range newIDs) (jobs_of (sch_store (srv_sched srv')))"
        by (auto simp: adds_def)
      then show ?thesis by (simp add: request_effect_def)
    next
      case False
      with j have "srv' = srv" by (auto simp: handleJobs_def split: if_splits)
      then show ?thesis by simp
    qed
  next
    case JobByIDRoute
    show ?thesis
    proof (cases "handleJobByID ops env clk events r srv")
      case None
      with route JobByIDRoute show ?thesis by simp
    next
      case (Some served)
      with route JobByIDRoute obtain resp where "served = Returns (resp, srv')"
        by (auto simp: exchange_of_after)
      with Some show ?thesis by (intro handleJobByID_effect [OF assms(1-3)]) simp
    qed
  next
    case BatchRoute
    with route obtain resp where b: "handleBatchSubmit ops env newIDs clk r srv = Returns (resp, srv')"
      by (auto simp: exchange_of_after)
    from handleBatchSubmit_effect [OF assms(1,2) b] show ?thesis
      by (simp add: request_effect_def)
  next
    case EventsRoute
    with route show ?thesis
      by (cases "handleEvents flusher r srv")
        (auto dest!: handleEvents_channels)
  qed (use route in simp_all)
qed

lemma ServeHTTP_effect:
  assumes "server_ok inv srv" and "uuid_texts_ok env" and "\<not> retry_request r"
    and "after_exchange srv (ServeHTTP ops env flusher kord pord newIDs clk events r srv) = Some srv'"
  shows "server_ok inv srv'"
    and "request_effect (jobs_of (sch_store (srv_sched srv))) (range newIDs) (jobs_of (sch_store (srv_sched srv')))"
proof -
  show "server_ok inv srv'"
    using ServeHTTP_keeps [OF assms(1,2), where flusher = flusher and kord = kord and pord = pord and
        newIDs = newIDs and clk = clk and events = events and r = r] assms(1,4)
    by (cases "ServeHTTP ops env flusher kord pord newIDs clk events r srv") (auto simp: exchange_ok_def)
  show "request_effect (jobs_of (sch_store (srv_sched srv))) (range newIDs) (jobs_of (sch_store (srv_sched srv')))"
  proof (cases "middleware env kord clk r srv")
    case (Inl resp)
    with assms(4) show ?thesis by (simp add: ServeHTTP_def)
  next
    case (Inr rh)
    obtain r' h where rh: "rh = (r', h)" by (cases rh)
    have "Path r' = Path r"
      using Inr rh by (auto simp: middleware_def Let_def split: if_splits option.splits sum.splits)
    then have "\<not> retry_request r'" using assms(3) by (simp add: retry_request_def)
    from route_request_effect [OF assms(1,2) this] assms(4) Inr rh show ?thesis
      by (simp add: ServeHTTP_def)
  qed
qed

end

section \<open>The invariant\<close>

text \<open>
  What the stored jobs, the jobs in the channels, the jobs of the running cycle and the history
  of claims have to do with each other: a job has been claimed as often as it counts attempts,
  which is at most once; a waiting job has not been claimed; a pending job is in no channel,
  since it is marked as scheduled before it is sent; the cycle's copy of a pending job is the
  only one on its way, and its copy of a scheduled job is not of a pending one; and no job is
  stored as delayed.
\<close>

definition once_job :: "uuid list \<Rightarrow> uuid set \<Rightarrow> uuid \<Rightarrow> Job \<Rightarrow> bool" where
  "once_job claims chan i j \<longleftrightarrow>
     Attempt j = (if i \<in> set claims then 1 else 0) \<and>
     State j \<in> (if i \<in> set claims
       then {JobStateRunning, JobStateCompleted, JobStateFailed, JobStateDeadLetter, JobStateRetrying,
         JobStateCancelled}
       else {JobStatePending, JobStateScheduled, JobStateCancelled}) \<and>
     (State j = JobStatePending \<longrightarrow> i \<notin> chan)"

definition once_jobs :: "(uuid \<Rightarrow> Job option) \<Rightarrow> uuid list \<Rightarrow> uuid set \<Rightarrow> bool" where
  "once_jobs jobs claims chan \<longleftrightarrow> (\<forall>i j. jobs i = Some j \<longrightarrow> once_job claims chan i j)"

definition pending_ids :: "(uuid \<Rightarrow> Job option) \<Rightarrow> uuid set" where
  "pending_ids jobs = {i. \<exists>j. jobs i = Some j \<and> State j = JobStatePending}"

definition once_cycle :: "Job list \<Rightarrow> uuid list \<Rightarrow> uuid set \<Rightarrow> uuid set \<Rightarrow> bool" where
  "once_cycle cycle claims chan pending \<longleftrightarrow> distinct (map ID cycle) \<and>
     (\<forall>j \<in> set cycle. if State j = JobStatePending then ID j \<notin> set claims \<and> ID j \<notin> chan
        else ID j \<notin> pending)"

definition once_stuck :: "Job list \<Rightarrow> uuid list \<Rightarrow> bool" where
  "once_stuck stuck claims \<longleftrightarrow> (\<forall>j \<in> set stuck. Attempt j = 1 \<and> ID j \<in> set claims)"

lemma once_cycle_mono:
  assumes "once_cycle cycle claims chan pending"
    and "\<And>i. i \<in> ID ` set cycle \<Longrightarrow> i \<in> set claims' \<Longrightarrow> i \<in> set claims \<or> i \<in> chan"
    and "\<And>i. i \<in> ID ` set cycle \<Longrightarrow> i \<in> chan' \<Longrightarrow> i \<in> chan"
    and "\<And>i. i \<in> ID ` set cycle \<Longrightarrow> i \<in> pending' \<Longrightarrow> i \<in> pending"
  shows "once_cycle cycle claims' chan' pending'"
  unfolding once_cycle_def
proof (intro conjI ballI)
  show "distinct (map ID cycle)" using assms(1) by (simp add: once_cycle_def)
  fix j assume j: "j \<in> set cycle"
  then have i: "ID j \<in> ID ` set cycle" by simp
  from assms(1) j have "if State j = JobStatePending then ID j \<notin> set claims \<and> ID j \<notin> chan
      else ID j \<notin> pending" unfolding once_cycle_def by blast
  with assms(2-4) [OF i] show "if State j = JobStatePending then ID j \<notin> set claims' \<and> ID j \<notin> chan'
      else ID j \<notin> pending'" by (cases "State j = JobStatePending") auto
qed

lemma once_jobsD: "once_jobs jobs claims chan \<Longrightarrow> jobs i = Some j \<Longrightarrow> once_job claims chan i j"
  by (simp add: once_jobs_def)

lemma once_jobs_upd:
  "once_jobs jobs claims chan \<Longrightarrow> once_job claims chan i j \<Longrightarrow> once_jobs (jobs(i \<mapsto> j)) claims chan"
  by (simp add: once_jobs_def)

lemma pending_ids_upd:
  "pending_ids (jobs(i \<mapsto> j)) =
     (if State j = JobStatePending then insert i (pending_ids jobs) else pending_ids jobs - {i})"
  by (auto simp: pending_ids_def)

lemma once_jobD:
  assumes "once_job claims chan i j"
  shows "Attempt j = (if i \<in> set claims then 1 else 0)" "is_pending j \<Longrightarrow> i \<notin> set claims"
    "State j = JobStateRunning \<Longrightarrow> i \<in> set claims" "State j = JobStatePending \<Longrightarrow> i \<notin> chan"
    "State j \<noteq> JobStateDelayed"
  using assms by (auto simp: once_job_def is_pending_def split: if_splits)

lemma once_job_settled:
  "settled j \<Longrightarrow> i \<in> set claims \<or> State j = JobStateCancelled \<Longrightarrow>
     Attempt j = (if i \<in> set claims then 1 else 0) \<Longrightarrow> once_job claims chan i j"
  by (auto simp: once_job_def settled_def)

lemma once_jobs_update:
  assumes "once_jobs jobs claims chan" and "Attempt j = (if i \<in> set claims then 1 else 0)" and "settled j"
    and "i \<in> set claims \<or> State j = JobStateCancelled"
  shows "once_jobs (jobs(i \<mapsto> j)) claims chan \<and> pending_ids (jobs(i \<mapsto> j)) \<subseteq> pending_ids jobs"
  using once_jobs_upd [OF assms(1) once_job_settled [OF assms(3,4,2)]] settledD [OF assms(3)]
  by (auto simp: pending_ids_upd)

lemma once_jobs_settles:
  assumes "once_jobs jobs claims chan" and "settles jobs i jobs'" and "i \<in> set claims"
  shows "once_jobs jobs' claims chan \<and> pending_ids jobs' \<subseteq> pending_ids jobs"
proof (cases "jobs' = jobs")
  case False
  with assms(2) obtain j j' where u: "jobs i = Some j" "jobs' = jobs(i \<mapsto> j')" "Attempt j' = Attempt j"
    "settled j'" by (auto simp: settles_def)
  have "Attempt j' = (if i \<in> set claims then 1 else 0)"
    using once_jobD(1) [OF once_jobsD [OF assms(1) u(1)]] u(3) by simp
  from once_jobs_update [OF assms(1) this u(4)] u(2) assms(3) show ?thesis by simp
qed (simp add: assms(1))

lemma once_jobs_cancels:
  assumes "once_jobs jobs claims chan" and "cancels jobs i jobs'"
  shows "once_jobs jobs' claims chan \<and> pending_ids jobs' \<subseteq> pending_ids jobs"
proof (cases "jobs' = jobs")
  case False
  with assms(2) obtain j j' where u: "jobs i = Some j" "jobs' = jobs(i \<mapsto> j')" "Attempt j' = Attempt j"
    "State j' = JobStateCancelled" by (auto simp: cancels_def)
  have "Attempt j' = (if i \<in> set claims then 1 else 0)"
    using once_jobD(1) [OF once_jobsD [OF assms(1) u(1)]] u(3) by simp
  moreover have "settled j'" using u(4) by (simp add: settled_def)
  ultimately show ?thesis using once_jobs_update [OF assms(1)] u(2,4) by simp
qed (simp add: assms(1))

lemma once_jobs_adds:
  assumes "once_jobs jobs claims chan" and "adds jobs new jobs'"
    and "\<And>i. i \<in> new \<Longrightarrow> i \<notin> set claims \<and> i \<notin> chan"
  shows "once_jobs jobs' claims chan \<and> pending_ids jobs' \<subseteq> pending_ids jobs \<union> new"
proof -
  have each: "jobs i = Some j \<or> i \<in> new \<and> State j = JobStatePending \<and> Attempt j = 0"
    if "jobs' i = Some j" for i j
    using assms(2) that unfolding adds_def by (metis option.inject)
  have "once_job claims chan i j" if "jobs' i = Some j" for i j
    using each [OF that]
  proof (elim disjE conjE)
    assume "jobs i = Some j"
    then show ?thesis by (rule once_jobsD [OF assms(1)])
  next
    assume "i \<in> new" "State j = JobStatePending" "Attempt j = 0"
    with assms(3) [of i] show ?thesis by (simp add: once_job_def)
  qed
  moreover have "pending_ids jobs' \<subseteq> pending_ids jobs \<union> new"
    using each by (auto simp: pending_ids_def)
  ultimately show ?thesis by (simp add: once_jobs_def)
qed

lemma once_jobs_request:
  assumes "once_jobs jobs claims chan" and "request_effect jobs new jobs'"
    and "\<And>i. i \<in> new \<Longrightarrow> i \<notin> set claims \<and> i \<notin> chan"
  shows "once_jobs jobs' claims chan \<and> pending_ids jobs' \<subseteq> pending_ids jobs \<union> new"
  using assms(2) unfolding request_effect_def
proof (elim disjE exE)
  assume "adds jobs new jobs'"
  from once_jobs_adds [OF assms(1) this assms(3)] show ?thesis .
next
  fix i assume "cancels jobs i jobs'"
  from once_jobs_cancels [OF assms(1) this] show ?thesis by blast
next
  fix i assume u: "jobs' = jobs(i := None)"
  then have sub: "jobs k = Some j" if "jobs' k = Some j" for k j
    using that by (simp split: if_splits)
  with assms(1) have "once_jobs jobs' claims chan" unfolding once_jobs_def by blast
  moreover have "pending_ids jobs' \<subseteq> pending_ids jobs" using sub unfolding pending_ids_def by blast
  ultimately show ?thesis by blast
qed

lemma once_jobs_insert_chan:
  "once_jobs jobs claims chan \<Longrightarrow> i \<notin> pending_ids jobs \<Longrightarrow> once_jobs jobs claims (insert i chan)"
  unfolding once_jobs_def once_job_def pending_ids_def by blast

lemma once_jobs_scheduled:
  assumes "once_jobs jobs claims chan" and "jobs i = Some j" and "i \<notin> set claims"
    and "jobs' = jobs(i \<mapsto> j\<lparr>State := JobStateScheduled, UpdatedAt := t\<rparr>)"
  shows "once_jobs jobs' claims (insert i chan) \<and> pending_ids jobs' \<subseteq> pending_ids jobs"
proof -
  have "once_job claims chan i (j\<lparr>State := JobStateScheduled, UpdatedAt := t\<rparr>)"
    using once_jobsD [OF assms(1,2)] assms(3) by (simp add: once_job_def)
  from once_jobs_upd [OF assms(1) this] have "once_jobs jobs' claims chan" by (simp add: assms(4))
  then show ?thesis
    by (auto simp: assms(4) pending_ids_upd intro!: once_jobs_insert_chan)
qed

lemma once_jobs_claimed:
  assumes "once_jobs jobs claims chan" and "jobs i = Some j" and "is_pending j"
    and "jobs' = jobs(i \<mapsto> claimed_by t w j)"
  shows "once_jobs jobs' (i # claims) chan \<and> i \<notin> set claims \<and> pending_ids jobs' \<subseteq> pending_ids jobs"
proof -
  have j: "Attempt j = 0" "i \<notin> set claims"
    using once_jobD(1,2) [OF once_jobsD [OF assms(1,2)]] assms(3) by simp_all
  have "wrap64 1 = 1" by (simp add: int64_range_def)
  then have "once_job (i # claims) chan i (claimed_by t w j)"
    using j by (simp add: once_job_def is_pending_def)
  moreover have "once_job (i # claims) chan k l" if "jobs k = Some l" "k \<noteq> i" for k l
    using once_jobsD [OF assms(1) that(1)] that(2) unfolding once_job_def by simp
  ultimately have "once_jobs jobs' (i # claims) chan" by (simp add: once_jobs_def assms(4))
  with j(2) show ?thesis by (auto simp: assms(4) pending_ids_upd)
qed

lemma once_jobs_chan:
  "once_jobs jobs claims chan \<Longrightarrow> chan' \<subseteq> chan \<Longrightarrow> once_jobs jobs claims chan'"
  unfolding once_jobs_def once_job_def by blast

text \<open>The channels as a set of identifiers, and the whole invariant.\<close>

definition chan_ids :: "'s Runtime \<Rightarrow> uuid set" where
  "chan_ids rt = ID ` set (in_channels rt)"

lemma chan_ids_pool:
  "srv_pool (rt_server rt) = Some p \<Longrightarrow>
     chan_ids rt = ID ` (set (jobCh (srv_sched (rt_server rt))) \<union> set (pool_jobCh p))"
  by (simp add: chan_ids_def in_channels_def)

definition once_inv :: "('s \<Rightarrow> bool) \<Rightarrow> ('s \<Rightarrow> uuid \<Rightarrow> Job option) \<Rightarrow> 's Runtime \<Rightarrow> bool" where
  "once_inv sinv jobs_of rt \<longleftrightarrow> server_ok sinv (rt_server rt) \<and>
     (\<exists>p. srv_pool (rt_server rt) = Some p) \<and> distinct (rt_claims rt) \<and> rt_delayed rt = [] \<and>
     once_jobs (jobs_of (sch_store (srv_sched (rt_server rt)))) (rt_claims rt) (chan_ids rt) \<and>
     once_cycle (rt_cycle rt) (rt_claims rt) (chan_ids rt)
       (pending_ids (jobs_of (sch_store (srv_sched (rt_server rt))))) \<and>
     once_stuck (rt_stuck rt) (rt_claims rt) \<and> ID ` set (rt_busy rt) \<subseteq> set (rt_claims rt)"

section \<open>Its preservation\<close>

locale running = reliable_store ops inv storable jobs_of results_of checkpoints_of idem_of +
    go_sort sort_slice
  for ops :: "'s JobStore" and inv storable jobs_of results_of checkpoints_of idem_of sort_slice
begin

lemma once_invD:
  assumes "once_inv inv jobs_of rt"
  shows "inv (sch_store (srv_sched (rt_server rt)))" "server_ok inv (rt_server rt)"
    "distinct (rt_claims rt)" "rt_delayed rt = []"
    "once_jobs (jobs_of (sch_store (srv_sched (rt_server rt)))) (rt_claims rt) (chan_ids rt)"
    "once_cycle (rt_cycle rt) (rt_claims rt) (chan_ids rt)
       (pending_ids (jobs_of (sch_store (srv_sched (rt_server rt)))))"
    "once_stuck (rt_stuck rt) (rt_claims rt)" "ID ` set (rt_busy rt) \<subseteq> set (rt_claims rt)"
  using assms unfolding once_inv_def server_ok_def by blast+

lemma send_one_effect:
  assumes "inv s" and "send_jobs ops cap clk [job] s ch = (sent, s', ch')"
  shows "inv s'" "ID ` set ch' \<subseteq> insert (ID job) (ID ` set ch)"
    "State job \<noteq> JobStatePending \<Longrightarrow> jobs_of s' = jobs_of s"
    "State job = JobStatePending \<Longrightarrow> jobs_of s' = (case jobs_of s (ID job) of None \<Rightarrow> jobs_of s
       | Some j \<Rightarrow> (jobs_of s)(ID job \<mapsto> j\<lparr>State := JobStateScheduled, UpdatedAt := clk 0\<rparr>))"
proof -
  obtain e s1 where u: "UpdateState ops (clk 0) (ID job) JobStateScheduled s = (e, s1)" by fastforce
  from UpdateState_effect [OF assms(1) u] u assms
  show "inv s'" "ID ` set ch' \<subseteq> insert (ID job) (ID ` set ch)"
    "State job \<noteq> JobStatePending \<Longrightarrow> jobs_of s' = jobs_of s"
    "State job = JobStatePending \<Longrightarrow> jobs_of s' = (case jobs_of s (ID job) of None \<Rightarrow> jobs_of s
       | Some j \<Rightarrow> (jobs_of s)(ID job \<mapsto> j\<lparr>State := JobStateScheduled, UpdatedAt := clk 0\<rparr>))"
    by (auto split: if_splits)
qed

lemma once_cycle_begin:
  assumes "once_jobs (jobs_of s) claims chan" and "inv s" and "GetPending ops n s = Inr jobs"
  shows "once_cycle (sort_slice priority_less jobs) claims chan (pending_ids (jobs_of s))"
proof -
  from GetPending [OF assms(2), of n] assms(3) have js: "distinct (map ID jobs)"
    "\<forall>j \<in> set jobs. jobs_of s (ID j) = Some j \<and> is_pending j" by auto
  have "if State j = JobStatePending then ID j \<notin> set claims \<and> ID j \<notin> chan
      else ID j \<notin> pending_ids (jobs_of s)" if "j \<in> set jobs" for j
  proof -
    from js(2) that have j: "jobs_of s (ID j) = Some j" "is_pending j" by auto
    from once_jobD(2,4) [OF once_jobsD [OF assms(1) j(1)]] j show ?thesis by (auto simp: pending_ids_def)
  qed
  with js(1) show ?thesis by (simp add: once_cycle_def sort_distinct)
qed

lemma once_send:
  assumes "once_jobs (jobs_of s) claims chan" and "inv s"
    and "once_cycle (job # rest) claims chan (pending_ids (jobs_of s))"
    and "send_jobs ops cap clk [job] s ch = (sent, s', ch')"
    and "chan' \<subseteq> insert (ID job) chan"
  shows "once_jobs (jobs_of s') claims chan'"
    and "once_cycle (if sent then rest else []) claims chan' (pending_ids (jobs_of s'))"
proof -
  note eff = send_one_effect [OF assms(2,4)]
  have head: "if State job = JobStatePending then ID job \<notin> set claims \<and> ID job \<notin> chan
      else ID job \<notin> pending_ids (jobs_of s)" using assms(3) by (simp add: once_cycle_def)
  have new: "once_jobs (jobs_of s') claims (insert (ID job) chan) \<and>
      pending_ids (jobs_of s') \<subseteq> pending_ids (jobs_of s)"
  proof (cases "State job = JobStatePending")
    case True
    show ?thesis
    proof (cases "jobs_of s (ID job)")
      case None
      then have "ID job \<notin> pending_ids (jobs_of s)" by (simp add: pending_ids_def)
      with eff(4) [OF True] None once_jobs_insert_chan [OF assms(1)] show ?thesis by simp
    next
      case (Some j)
      have upd: "jobs_of s' = (jobs_of s)(ID job \<mapsto> j\<lparr>State := JobStateScheduled, UpdatedAt := clk 0\<rparr>)"
        unfolding eff(4) [OF True] Some by simp
      from head True have "ID job \<notin> set claims" by simp
      from once_jobs_scheduled [OF assms(1) Some this upd] show ?thesis .
    qed
  next
    case False
    with eff(3) head once_jobs_insert_chan [OF assms(1)] show ?thesis by simp
  qed
  from once_jobs_chan [OF _ assms(5)] new show "once_jobs (jobs_of s') claims chan'" by blast
  have rest: "once_cycle rest claims chan (pending_ids (jobs_of s))" "ID job \<notin> ID ` set rest"
    using assms(3) by (auto simp: once_cycle_def)
  from rest(1) have "once_cycle rest claims chan' (pending_ids (jobs_of s'))"
  proof (rule once_cycle_mono)
    fix i assume i: "i \<in> ID ` set rest"
    show "i \<in> set claims \<Longrightarrow> i \<in> set claims \<or> i \<in> chan" by blast
    from i rest(2) have "i \<noteq> ID job" by metis
    then show "i \<in> chan' \<Longrightarrow> i \<in> chan" using subsetD [OF assms(5), of i] by simp
    show "i \<in> pending_ids (jobs_of s') \<Longrightarrow> i \<in> pending_ids (jobs_of s)" using new by blast
  qed
  then show "once_cycle (if sent then rest else []) claims chan' (pending_ids (jobs_of s'))"
    by (simp add: once_cycle_def)
qed

text \<open>A step that leaves the cycle, the list of stuck jobs and the claims alone.\<close>

lemma once_inv_keep:
  assumes "once_inv inv jobs_of rt" and "server_ok inv (rt_server rt')"
    and "srv_pool (rt_server rt') = Some p'"
    and "rt_cycle rt' = rt_cycle rt" "rt_delayed rt' = []" "rt_claims rt' = rt_claims rt"
    and "set (rt_stuck rt') \<subseteq> set (rt_stuck rt)"
    and "once_jobs (jobs_of (sch_store (srv_sched (rt_server rt')))) (rt_claims rt) (chan_ids rt)"
    and "pending_ids (jobs_of (sch_store (srv_sched (rt_server rt')))) \<subseteq>
      pending_ids (jobs_of (sch_store (srv_sched (rt_server rt)))) \<union> new"
    and "chan_ids rt' \<subseteq> chan_ids rt" and "\<And>i. i \<in> new \<Longrightarrow> i \<notin> ID ` set (rt_cycle rt)"
    and "set (rt_busy rt') \<subseteq> set (rt_busy rt)"
  shows "once_inv inv jobs_of rt'"
proof -
  note old = once_invD [OF assms(1)]
  have "once_cycle (rt_cycle rt) (rt_claims rt) (chan_ids rt')
      (pending_ids (jobs_of (sch_store (srv_sched (rt_server rt')))))"
    by (rule once_cycle_mono [OF old(6)]) (use assms(9-11) in blast)+
  moreover have "once_stuck (rt_stuck rt') (rt_claims rt)"
    using old(7) assms(7) unfolding once_stuck_def by blast
  moreover have "ID ` set (rt_busy rt') \<subseteq> set (rt_claims rt)" using old(8) assms(12) by blast
  ultimately show ?thesis
    using old(3) assms(2-6) once_jobs_chan [OF assms(8,10)] by (simp add: once_inv_def)
qed

lemma once_inv_claim:
  assumes "once_inv inv jobs_of rt" and "srv_pool (rt_server rt) = Some p" and "pool_jobCh p = job # rest"
    and "start_job ops t job (p\<lparr>pool_jobCh := rest\<rparr>) (srv_sched (rt_server rt)) = (granted, p', sched')"
  shows "once_inv inv jobs_of
    ((put_pool p' (put_sched sched' rt))\<lparr>rt_busy := (if granted then rt_busy rt @ [job] else rt_busy rt),
       rt_claims := (if granted then ID job # rt_claims rt else rt_claims rt)\<rparr>)"
    (is "once_inv inv jobs_of ?rt'")
proof -
  note old = once_invD [OF assms(1)]
  let ?jobs = "jobs_of (sch_store (srv_sched (rt_server rt)))" and ?jobs' = "jobs_of (sch_store sched')"
  note start = start_job_effect [OF old(1) assms(4)]
  then have eff: "inv (sch_store sched')" "jobCh sched' = jobCh (srv_sched (rt_server rt))" "pool_jobCh p' = rest"
    by simp_all
  from start have cases: "if granted then \<exists>j w. ?jobs (ID job) = Some j \<and> is_pending j \<and>
       ?jobs' = ?jobs(ID job \<mapsto> claimed_by t w j) else ?jobs' = ?jobs" by blast
  have chan: "chan_ids ?rt' \<subseteq> chan_ids rt" "ID job \<in> chan_ids rt"
    using eff(2,3) assms(2,3) by (auto simp: chan_ids_def in_channels_def)
  have srv: "server_ok inv (rt_server ?rt')" using old(2) eff(1) by (simp add: server_ok_def)
  show ?thesis
  proof (cases granted)
    case False
    with cases old(5) show ?thesis
      by (intro once_inv_keep [OF assms(1) srv _ _ _ _ _ _ _ chan(1), where p' = p' and new = "{}"])
        (simp_all add: old(4))
  next
    case True
    with cases obtain j w where j: "?jobs (ID job) = Some j" "is_pending j"
      and upd: "?jobs' = ?jobs(ID job \<mapsto> claimed_by t w j)" by auto
    note cl = once_jobs_claimed [OF old(5) j upd]
    have "once_jobs ?jobs' (ID job # rt_claims rt) (chan_ids ?rt')"
      using once_jobs_chan [OF _ chan(1)] cl by blast
    moreover have "once_cycle (rt_cycle rt) (ID job # rt_claims rt) (chan_ids ?rt') (pending_ids ?jobs')"
    proof (rule once_cycle_mono [OF old(6)])
      fix i
      show "i \<in> set (ID job # rt_claims rt) \<Longrightarrow> i \<in> set (rt_claims rt) \<or> i \<in> chan_ids rt"
        using chan(2) by auto
      show "i \<in> chan_ids ?rt' \<Longrightarrow> i \<in> chan_ids rt" using chan(1) by blast
      show "i \<in> pending_ids ?jobs' \<Longrightarrow> i \<in> pending_ids ?jobs" using cl by blast
    qed
    moreover have "once_stuck (rt_stuck rt) (ID job # rt_claims rt)"
      using old(7) by (simp add: once_stuck_def)
    ultimately show ?thesis using True srv old(3,4,8) cl by (auto simp: once_inv_def)
  qed
qed

end

context running
begin

lemma once_inv_step:
  assumes "rt_step ops env sort_slice cvt (\<lambda>r. \<not> retry_request r) rt rt'"
    and "once_inv inv jobs_of rt" and "uuid_texts_ok env"
  shows "once_inv inv jobs_of rt'"
proof -
  note old = once_invD [OF assms(2)]
  obtain p0 where p0: "srv_pool (rt_server rt) = Some p0" using assms(2) by (auto simp: once_inv_def)
  from assms(1) show ?thesis
  proof cases
    case (cycle_begin jobs)
    from once_cycle_begin [OF old(5,1) cycle_begin(4)] old assms(2) cycle_begin(1) show ?thesis
      by (simp add: once_inv_def chan_ids_def in_channels_def)
  next
    case (cycle_send job jobs clk sent s' ch')
    note one = send_one_effect [OF old(1) cycle_send(3)]
    have chan: "chan_ids rt' \<subseteq> insert (ID job) (chan_ids rt)"
      using one(2) p0 cycle_send(1) by (auto simp: chan_ids_def in_channels_def)
    from once_send [OF old(5,1) old(6) [unfolded cycle_send(2)] cycle_send(3) chan] old one(1) p0 cycle_send(1)
    show ?thesis by (simp add: once_inv_def server_ok_def)
  next
    case (delayed_begin t jobs)
    have "jobs = []"
    proof (rule ccontr)
      assume "jobs \<noteq> []"
      then obtain j where "j \<in> set jobs" by (cases jobs) auto
      with GetDelayed [OF old(1), of t "BatchSize (sch_config (srv_sched (rt_server rt)))"] delayed_begin(4)
      have j: "jobs_of (sch_store (srv_sched (rt_server rt))) (ID j) = Some j" "State j = JobStateDelayed"
        by auto
      from once_jobD(5) [OF once_jobsD [OF old(5) j(1)]] j(2) show False by simp
    qed
    with assms(2) delayed_begin(1) show ?thesis by (simp add: once_inv_def chan_ids_def in_channels_def)
  next
    case (delayed_mark job jobs clk)
    with old(4) show ?thesis by simp
  next
    case (fetch p job sched')
    from fetch(4) have sched: "sch_store sched' = sch_store (srv_sched (rt_server rt))"
      "jobCh (srv_sched (rt_server rt)) = job # jobCh sched'"
      by (auto simp: GetNextJob_def split: list.splits)
    have chan: "chan_ids rt' \<subseteq> chan_ids rt"
      using fetch(1,2) sched(2) by (auto simp: chan_ids_def in_channels_def)
    show ?thesis
      by (rule once_inv_keep [OF assms(2) _ _ _ _ _ _ _ _ chan,
            where p' = "p\<lparr>pool_jobCh := pool_jobCh p @ [job]\<rparr>" and new = "{}"])
        (use old(2,4,5) fetch(1) sched(1) in \<open>simp_all add: server_ok_def\<close>)
  next
    case (claim p job rest t granted p' sched')
    show ?thesis unfolding claim(1) by (rule once_inv_claim [OF assms(2) claim(2,4,5)])
  next
    case (report p job clk p' sched')
    from finish_job_effect [OF old(1) report(4)] have eff: "inv (sch_store sched')"
      "settles (jobs_of (sch_store (srv_sched (rt_server rt)))) (ID job) (jobs_of (sch_store sched'))"
      "jobCh sched' = jobCh (srv_sched (rt_server rt))" "pool_jobCh p' = pool_jobCh p" by simp_all
    from report(3) old(8) have "ID job \<in> set (rt_claims rt)" by blast
    from once_jobs_settles [OF old(5) eff(2) this] show ?thesis
      by (intro once_inv_keep [OF assms(2), where p' = p' and new = "{}"])
        (use old(2,4) report(1,2) eff set_remove1_subset [of job "rt_busy rt"]
          in \<open>simp_all add: server_ok_def chan_ids_def in_channels_def\<close>)
  next
    case (stuck_begin t d jobs)
    from GetStuck [OF old(1), of t d] obtain js where
      "GetStuck ops t d (sch_store (srv_sched (rt_server rt))) = Inr js"
      "\<forall>j \<in> set js. jobs_of (sch_store (srv_sched (rt_server rt))) (ID j) = Some j \<and>
         State j = JobStateRunning" by blast
    with stuck_begin(3) have js: "\<forall>j \<in> set jobs.
      jobs_of (sch_store (srv_sched (rt_server rt))) (ID j) = Some j \<and> State j = JobStateRunning" by simp
    have "Attempt j = 1 \<and> ID j \<in> set (rt_claims rt)" if "j \<in> set jobs" for j
    proof -
      from js that have j: "jobs_of (sch_store (srv_sched (rt_server rt))) (ID j) = Some j"
        "State j = JobStateRunning" by blast+
      from once_jobD(1,3) [OF once_jobsD [OF old(5) j(1)]] j(2) show ?thesis by simp
    qed
    then have "once_stuck jobs (rt_claims rt)" by (simp add: once_stuck_def)
    with assms(2) stuck_begin(1) show ?thesis by (simp add: once_inv_def chan_ids_def in_channels_def)
  next
    case (stuck_recover job jobs clk n m n' m' s')
    from old(7) stuck_recover(2) have job: "Attempt job = 1" "ID job \<in> set (rt_claims rt)"
      by (simp_all add: once_stuck_def)
    from recover_one_effect [OF old(1) stuck_recover(3)] have inv': "inv s'"
      and eff: "jobs_of s' = jobs_of (sch_store (srv_sched (rt_server rt))) \<or>
        (\<exists>j'. jobs_of s' = (jobs_of (sch_store (srv_sched (rt_server rt))))(ID job \<mapsto> j') \<and>
           Attempt j' = Attempt job \<and> settled j')" by blast+
    have "once_jobs (jobs_of s') (rt_claims rt) (chan_ids rt) \<and>
        pending_ids (jobs_of s') \<subseteq> pending_ids (jobs_of (sch_store (srv_sched (rt_server rt))))"
      using eff
    proof (elim disjE exE conjE)
      fix j' assume u: "jobs_of s' = (jobs_of (sch_store (srv_sched (rt_server rt))))(ID job \<mapsto> j')"
        "Attempt j' = Attempt job" "settled j'"
      have "Attempt j' = (if ID job \<in> set (rt_claims rt) then 1 else 0)" using u(2) job by simp
      from once_jobs_update [OF old(5) this u(3)] u(1) job(2) show ?thesis by simp
    qed (simp add: old(5))
    with inv' show ?thesis
      by (intro once_inv_keep [OF assms(2), where p' = p0 and new = "{}"])
        (use old(2,4) stuck_recover(1,2) p0 in \<open>auto simp: server_ok_def chan_ids_def in_channels_def\<close>)
  next
    case (request r newIDs flusher kord pord clk events srv')
    from request(2) have "\<not> retry_request r" .
    from ServeHTTP_effect [OF old(2) assms(3) this request(4)] ServeHTTP_channels [OF request(4)] have eff: "server_ok inv srv'"
      "jobCh (srv_sched srv') = jobCh (srv_sched (rt_server rt))" "srv_pool srv' = srv_pool (rt_server rt)"
      "request_effect (jobs_of (sch_store (srv_sched (rt_server rt)))) (range newIDs)
        (jobs_of (sch_store (srv_sched srv')))" by (simp_all add: same_channels_def sched_shape_def)
    have new: "i \<notin> set (rt_claims rt) \<and> i \<notin> chan_ids rt" "i \<notin> ID ` set (rt_cycle rt)" if "i \<in> range newIDs" for i
      using request(3) that by (auto simp: new_uuid_def chan_ids_def)
    from once_jobs_request [OF old(5) eff(4) new(1)] show ?thesis
      by (intro once_inv_keep [OF assms(2), where p' = p0 and new = "range newIDs"])
        (use old(4) request(1) p0 eff new(2) in \<open>simp_all add: chan_ids_def in_channels_def\<close>)
  qed
qed

lemma once_inv_steps:
  assumes "rt_steps ops env sort_slice cvt (\<lambda>r. \<not> retry_request r) rt rt'"
    and "once_inv inv jobs_of rt" and "uuid_texts_ok env"
  shows "once_inv inv jobs_of rt'"
  using assms by (induction rule: rt_steps.induct) (auto intro: once_inv_step)

end

section \<open>The program over the in-memory store\<close>

lemma mem_is_running:
  assumes "permutes_entries ord" and "go_sort srt"
  shows "running (memory_store ord) mem_inv (\<lambda>_ _. True) mem_jobs_of (\<lambda>m. map_of (mem_results m))
    (\<lambda>m. map_of (mem_checkpoints m)) (\<lambda>m. map_of (mem_idempotency m)) srt"
proof (rule running.intro [OF _ assms(2)])
  show "reliable_store (memory_store ord) mem_inv (\<lambda>_ _. True) mem_jobs_of (\<lambda>m. map_of (mem_results m))
    (\<lambda>m. map_of (mem_checkpoints m)) (\<lambda>m. map_of (mem_idempotency m))"
    by (rule reliable_store.intro [OF mem_job_store [OF assms(1)]])
      (rule reliable_store_axioms.intro, simp_all add: mem_SaveResult_def)
qed

interpretation mem_running: running "memory_store (\<lambda>m. m)" mem_inv "\<lambda>_ _. True" mem_jobs_of
  "\<lambda>m. map_of (mem_results m)" "\<lambda>m. map_of (mem_checkpoints m)" "\<lambda>m. map_of (mem_idempotency m)"
  insertion_sort
  by (rule mem_is_running) (rule permutes_entries_id, rule ins.go_sort_axioms)

text \<open>What the serve command has built when it is ready.\<close>

lemma runServe_ready:
  assumes "runServe parse ended newID clk flags st = Returns (Inr sys)"
  shows "\<exists>p. srv_pool (sys_server sys) = Some p \<and> pool_jobCh p = [] \<and> live_fetchers p = 1 \<and>
    live_workers p = nat (workers flags) \<and> pool_capacity p = wrap64 (workers flags * 2) \<and>
    handlers p = [(''echo'', echo_handler), (''sleep'', sleep_handler parse ended),
      (''error'', error_handler)] \<and>
    srv_eventBus (sys_server sys) = Some NewEventBus \<and>
    sch_store (srv_sched (sys_server sys)) = st \<and> jobCh (srv_sched (sys_server sys)) = [] \<and>
    schedule_loops (srv_sched (sys_server sys)) = 1 \<and>
    BatchSize (sch_config (srv_sched (sys_server sys))) = 100 \<and>
    srv_config (sys_server sys) = serve_api_config flags \<and> srv_auth (sys_server sys) = None"
  using assms
  by (auto simp: runServe_def NewPriorityScheduler_def sched_Start_def NewSimplePool_def pool_Start_def
      rec_Start_def NewSimpleRecoveryManager_def NewServer_def DefaultSchedulerConfig_def Let_def
      pool_capacity_def serve_pool_config_def registerExampleHandlers_def RegisterHandler_def
      split: if_splits)

lemma once_inv_start:
  assumes "runServe parse ended newID clk flags NewMemoryStore = Returns (Inr sys)"
  shows "once_inv mem_inv mem_jobs_of (runtime_of sys)"
proof -
  have none: "mem_jobs_of NewMemoryStore i = None" for i by (simp add: mem_jobs_of_def NewMemoryStore_def)
  from runServe_ready [OF assms] show ?thesis
    by (auto simp: once_inv_def runtime_of_def server_ok_def mem_inv_New once_jobs_def once_cycle_def
        once_stuck_def none)
qed

end
