(* ===== verification/GQ_Live.thy ===== *)
theory GQ_Live
  imports GQ_Once
begin

text \<open>
  Runs of the running program: the way of a job from its submission to its result, over a
  store whose writes do not fail, and the properties of the program that the serve command
  starts: how often a job is executed, its life, what a cancellation can meet, who is let in.
\<close>

section \<open>A pending job is served\<close>

context running
begin

lemma single_pending:
  assumes "inv s" and "jobs_of s = [i \<mapsto> j]" and "is_pending j" and "1 < n"
  shows "GetPending ops n s = Inr [j]"
proof -
  from GetPending [OF assms(1), of n] obtain js where js: "GetPending ops n s = Inr js"
    "distinct (map ID js)" "\<forall>k \<in> set js. jobs_of s (ID k) = Some k \<and> is_pending k"
    "int (length js) < effective_limit n \<Longrightarrow> \<forall>i j. jobs_of s i = Some j \<and> is_pending j \<longrightarrow> j \<in> set js"
    by blast
  have only: "k = j" if "k \<in> set js" for k
    using js(3) that assms(2) by (auto split: if_splits)
  then have "set js \<subseteq> {j}" by blast
  have "length js = card (ID ` set js)" using js(2) by (metis distinct_card length_map set_map)
  also have "\<dots> \<le> card {ID j}" using only by (intro card_mono) auto
  finally have len: "length js \<le> 1" by simp
  have "j \<in> set js"
    using js(4) len assms(2-4) by (auto simp: effective_limit_def)
  with len show ?thesis using js(1) by (cases js) auto
qed

lemma sort_single: "sort_slice lt [j] = [j]"
  using sort_mset [of lt "[j]"] by (metis mset.simps mset_single_iff_right)

lemma Complete_succeeds:
  assumes "inv (sch_store sched)" and "jobs_of (sch_store sched) i = Some j"
  shows "\<exists>sched'. Complete ops clk i r sched = (None, sched')"
proof -
  let ?j = "j\<lparr>State := JobStateCompleted, CompletedAt := clk 0, UpdatedAt := clk 0\<rparr>"
  have ID: "ID j = i" by (rule jobs_ID [OF assms])
  have "jobs_of (sch_store sched) (ID ?j) \<noteq> None" using assms(2) ID by simp
  from Update_succeeds [OF assms(1) this always_storable, of "clk 1"] obtain j' s1
    where u: "Update ops (clk 1) ?j (sch_store sched) = (j', None, s1)" by (metis fst_conv snd_conv prod.exhaust)
  from Update_ok [OF assms(1) u] have "inv s1" by blast
  from SaveResult_succeeds [OF this] obtain s2 where "SaveResult ops r s1 = (None, s2)" by blast
  moreover have "Get ops i (sch_store sched) = Inr j" using Get_Some [OF assms(1)] assms(2) by simp
  ultimately show ?thesis using u by (simp add: Complete_def Let_def)
qed

text \<open>A claimed job whose handler returns no error is completed, with the handler's output.\<close>

lemma finish_job_completes:
  assumes "inv (sch_store sched)" and "jobs_of (sch_store sched) (ID job) = Some j"
    and "map_of (handlers p) (JobType job) = Some h"
    and "\<And>d s. executeWithRecovery ops d (createJobContext job) h s = (None, jc, s)"
  obtains p' sched' j' res where "finish_job ops cvt clk job p sched = (p', sched')"
    "jobs_of (sch_store sched') (ID job) = Some j'" "State j' = JobStateCompleted"
    "results_of (sch_store sched') (ID job) = Some res" "Success res" "Output res = jc_output jc"
proof -
  define res where "res = zero_JobResult\<lparr>JobID := ID job, Success := True, Output := jc_output jc,
    ResultCompletedAt := clk 4, Duration := time_Sub (clk 3) (clk 0)\<rparr>"
  have res: "JobID res = ID job" "Success res" "Output res = jc_output jc" by (simp_all add: res_def)
  have same: "sched\<lparr>sch_store := sch_store sched\<rparr> = sched" by simp
  obtain sched' where c: "Complete ops (later 5 clk) (ID job) res sched = (None, sched')"
    using Complete_succeeds [OF assms(1,2)] by blast
  define p2 where "p2 = p\<lparr>succeeded := wrap64 (succeeded p + 1)\<rparr>"
  have "process_claimed ops cvt clk job p sched = (p2, sched')"
    unfolding process_claimed_def assms(3) option.case assms(4) Let_def prod.case same p2_def
      res_def [symmetric] CompleteJob_def res(1) c by simp
  then have f: "finish_job ops cvt clk job p sched = (p2\<lparr>activeCount := activeCount p2 - 1,
      processingIDs := AList.delete (ID job) (processingIDs p2)\<rparr>, sched')"
    by (simp add: finish_job_def)
  from Complete_ok [OF assms(1) c] obtain j0 where
    "jobs_of (sch_store sched') = (jobs_of (sch_store sched))(ID job \<mapsto>
       j0\<lparr>State := JobStateCompleted, CompletedAt := later 5 clk 0, UpdatedAt := later 5 clk 1\<rparr>)"
    "results_of (sch_store sched') = (results_of (sch_store sched))(JobID res \<mapsto> res)" by blast
  then show ?thesis using that [OF f] res by simp
qed

text \<open>
  The only job of a program that is idle: a cycle sends it, the fetcher takes it, a worker
  claims and runs it, and reports its output.
\<close>

lemma single_job_claimed:
  assumes store: "inv (sch_store (srv_sched (rt_server rt)))"
      "jobs_of (sch_store (srv_sched (rt_server rt))) = [i \<mapsto> j]" "State j = JobStatePending"
    and sched: "rt_cycle rt = []" "0 < schedule_loops (srv_sched (rt_server rt))"
      "1 < BatchSize (sch_config (srv_sched (rt_server rt)))" "jobCh (srv_sched (rt_server rt)) = []"
    and pool: "srv_pool (rt_server rt) = Some p" "pool_jobCh p = []" "0 < live_fetchers p"
      "0 < pool_capacity p" "length (rt_busy rt) < live_workers p"
  obtains rt' p' j' where "rt_steps ops env sort_slice cvt allowed rt rt'"
    "rt_claims rt' = i # rt_claims rt" "rt_busy rt' = rt_busy rt @ [j\<lparr>State := JobStateScheduled\<rparr>]"
    "srv_pool (rt_server rt') = Some p'" "handlers p' = handlers p"
    "inv (sch_store (srv_sched (rt_server rt')))"
    "jobs_of (sch_store (srv_sched (rt_server rt'))) i = Some j'" "State j' = JobStateRunning"
proof -
  let ?sched = "srv_sched (rt_server rt)"
  let ?s = "sch_store ?sched" and ?cap = "BatchSize (sch_config ?sched)" and ?sent = "j\<lparr>State := JobStateScheduled\<rparr>"
  fix clk :: clock
  have ij: "jobs_of ?s i = Some j" using store(2) by simp
  have ID: "ID j = i" by (rule jobs_ID [OF store(1) ij])
  have pend: "is_pending j" using store(3) by (simp add: is_pending_def)
  have step1: "rt_step ops env sort_slice cvt allowed rt (rt\<lparr>rt_cycle := [j]\<rparr>)"
    using cycle_begin [OF sched(2,1) single_pending [OF store(1,2) pend sched(3)], of env sort_slice cvt allowed]
    by (simp add: sort_single)
  from UpdateState_succeeds [OF store(1) ij always_storable, of "clk 0" JobStateScheduled] obtain s1
    where u: "UpdateState ops (clk 0) i JobStateScheduled ?s = (None, s1)" by (metis prod.collapse)
  from UpdateState_ok [OF store(1) u] ij have s1: "inv s1"
    "jobs_of s1 i = Some (j\<lparr>State := JobStateScheduled, UpdatedAt := clk 0\<rparr>)" by auto
  let ?rt2 = "(put_sched (?sched\<lparr>sch_store := s1, jobCh := [?sent]\<rparr>) rt)\<lparr>rt_cycle := []\<rparr>"
  have step2: "rt_step ops env sort_slice cvt allowed (rt\<lparr>rt_cycle := [j]\<rparr>) ?rt2"
  proof -
    have "send_jobs ops ?cap clk [j] ?s (jobCh ?sched) = (True, s1, [?sent])"
      using u store(3) sched(3,4) ID by simp
    then show ?thesis
      using cycle_send [of "rt\<lparr>rt_cycle := [j]\<rparr>" j "[]" ops clk True s1 "[?sent]" env sort_slice cvt allowed]
      by (simp add: put_sched_def)
  qed
  let ?p3 = "p\<lparr>pool_jobCh := [?sent]\<rparr>"
  let ?rt3 = "put_pool ?p3 (put_sched (?sched\<lparr>sch_store := s1, jobCh := []\<rparr>) ?rt2)"
  have step3: "rt_step ops env sort_slice cvt allowed ?rt2 ?rt3"
    using fetch [of ?rt2 p ?sent "?sched\<lparr>sch_store := s1, jobCh := []\<rparr>" ops env sort_slice cvt allowed] pool
    by (simp add: GetNextJob_def)
  from ClaimJob_succeeds [OF s1 _ always_storable, of "clk 1" "WorkerConfigID (pool_config p)"] obtain s2
    where c: "ClaimJob ops (clk 1) i (WorkerConfigID (pool_config p)) s1 = (True, None, s2)"
    by (auto simp: is_pending_def)
  from ClaimJob_ok [OF s1(1) c] obtain j2 where s2: "inv s2" "jobs_of s2 i = Some j2" "State j2 = JobStateRunning"
    by auto
  let ?sched4 = "?sched\<lparr>sch_store := s2, jobCh := []\<rparr>"
  obtain p4 where start: "start_job ops (clk 1) ?sent (?p3\<lparr>pool_jobCh := []\<rparr>) (srv_sched (rt_server ?rt3)) =
      (True, p4, ?sched4)" and p4: "handlers p4 = handlers p"
    using c ID by (simp add: start_job_def)
  let ?rt4 = "(put_pool p4 (put_sched ?sched4 ?rt3))\<lparr>rt_busy := rt_busy rt @ [?sent], rt_claims := i # rt_claims rt\<rparr>"
  have step4: "rt_step ops env sort_slice cvt allowed ?rt3 ?rt4"
    using claim [of ?rt3 ?p3 ?sent "[]" ops "clk 1" True p4 ?sched4 env sort_slice cvt allowed] pool start ID
    by simp
  have "rt_steps ops env sort_slice cvt allowed rt ?rt4"
    by (rule rt_more [OF rt_more [OF rt_more [OF rt_more [OF rt_refl step1] step2] step3] step4])
  from that [OF this] s2 p4 show ?thesis by simp
qed

lemma single_job_served:
  assumes store: "inv (sch_store (srv_sched (rt_server rt)))"
      "jobs_of (sch_store (srv_sched (rt_server rt))) = [i \<mapsto> j]" "State j = JobStatePending"
    and sched: "rt_cycle rt = []" "0 < schedule_loops (srv_sched (rt_server rt))"
      "1 < BatchSize (sch_config (srv_sched (rt_server rt)))" "jobCh (srv_sched (rt_server rt)) = []"
    and pool: "srv_pool (rt_server rt) = Some p" "pool_jobCh p = []" "0 < live_fetchers p"
      "0 < pool_capacity p" "length (rt_busy rt) < live_workers p"
    and run: "map_of (handlers p) (JobType j) = Some h"
      "\<And>d s. executeWithRecovery ops d (createJobContext (j\<lparr>State := JobStateScheduled\<rparr>)) h s = (None, jc, s)"
  obtains rt' j' res where "rt_steps ops env sort_slice cvt allowed rt rt'"
    "rt_claims rt' = i # rt_claims rt"
    "jobs_of (sch_store (srv_sched (rt_server rt'))) i = Some j'" "State j' = JobStateCompleted"
    "results_of (sch_store (srv_sched (rt_server rt'))) i = Some res" "Success res" "Output res = jc_output jc"
proof -
  let ?sent = "j\<lparr>State := JobStateScheduled\<rparr>"
  fix clk :: clock
  have ID: "ID j = i" using jobs_ID [OF store(1), of i j] store(2) by simp
  obtain rt4 p4 j2 where rt4: "rt_steps ops env sort_slice cvt allowed rt rt4" "rt_claims rt4 = i # rt_claims rt"
    "rt_busy rt4 = rt_busy rt @ [?sent]" "srv_pool (rt_server rt4) = Some p4" "handlers p4 = handlers p"
    "inv (sch_store (srv_sched (rt_server rt4)))" "jobs_of (sch_store (srv_sched (rt_server rt4))) i = Some j2"
    by (rule single_job_claimed [OF store sched pool])
  have "jobs_of (sch_store (srv_sched (rt_server rt4))) (ID ?sent) = Some j2"
    "map_of (handlers p4) (JobType ?sent) = Some h" using rt4(5,7) run(1) ID by simp_all
  from finish_job_completes [OF rt4(6) this run(2), of cvt clk] obtain p5 sched5 j5 res
    where fin: "finish_job ops cvt clk ?sent p4 (srv_sched (rt_server rt4)) = (p5, sched5)"
      and out: "jobs_of (sch_store sched5) (ID ?sent) = Some j5" "State j5 = JobStateCompleted"
        "results_of (sch_store sched5) (ID ?sent) = Some res" "Success res" "Output res = jc_output jc"
    by blast
  have "?sent \<in> set (rt_busy rt4)" using rt4(3) by simp
  from that [OF rt_more [OF rt4(1) report [OF rt4(4) this fin]]] rt4(2) out ID show ?thesis by simp
qed

end

section \<open>From submission to result\<close>

lemma created_Payload [simp]: "Payload (createJobFromRequest env newID clk req) = ReqPayload req"
  by (simp add: created_fold zero_Job_def case_option_same if_distrib [of Payload] option.case_distrib [of Payload]
      cong: if_cong option.case_cong)

lemma echo_runs:
  "executeWithRecovery ops d (createJobContext job) echo_handler s =
     (None, (createJobContext job)\<lparr>jc_output := Payload job\<rparr>, s)"
  by (simp add: executeWithRecovery_def echo_handler_def createJobContext_def jc_SetOutput_def)

lemma publish_keeps:
  "publish_event k ev srv = Returns srv' \<Longrightarrow> srv_sched srv' = srv_sched srv \<and> srv_pool srv' = srv_pool srv"
  by (auto simp: publish_event_def split: option.splits go_result.splits)

lemma submitJob_sched:
  assumes "submitJob ops env newID clk body srv = Returns (resp, srv')"
    and "dec_submit env body = Some req" and "ReqType req \<noteq> ''''"
    and "Create ops (createJobFromRequest env newID clk req) (sch_store (srv_sched srv)) = (None, s')"
  shows "srv_sched srv' = (srv_sched srv)\<lparr>sch_store := s', enqueued := wrap64 (enqueued (srv_sched srv) + 1)\<rparr>
    \<and> srv_pool srv' = srv_pool srv"
proof -
  let ?job = "createJobFromRequest env newID clk req"
  have "\<exists>job'. Enqueue (later 3 clk) ?job (srv_sched (with_store s' srv)) =
      (job', None, (srv_sched srv)\<lparr>sch_store := s', enqueued := wrap64 (enqueued (srv_sched srv) + 1)\<rparr>)"
    by (simp add: Enqueue_def Let_def with_store_def del: created_Delay)
  then obtain job' where enq: "Enqueue (later 3 clk) ?job (srv_sched (with_store s' srv)) =
      (job', None, (srv_sched srv)\<lparr>sch_store := s', enqueued := wrap64 (enqueued (srv_sched srv) + 1)\<rparr>)" ..
  with assms show ?thesis
    by (auto simp: submitJob_def Let_def answer_after_Returns with_store_def dest!: publish_keeps)
qed

lemma mem_Create_first:
  "ID job = i \<Longrightarrow> \<exists>s'. mem_Create job NewMemoryStore = (None, s') \<and> mem_inv s' \<and> mem_jobs_of s' = [i \<mapsto> job]"
  by (auto simp: mem_Create_def NewMemoryStore_def Let_def mem_inv_def jobs_ok_def mem_jobs_of_def)

text \<open>A submission to the server that the serve command has made, over any store that takes the job.\<close>

lemma submit_to_serve:
  assumes "runServe parse ended newID clk0 flags st = Returns (Inr sys)"
    and "uuid_texts_ok env" and "Method r = ''POST''" and "Path r = ''/api/v1/jobs''"
    and "dec_submit env (Body r) = Some req" and "ReqType req \<noteq> ''''"
    and "Create ops (createJobFromRequest env i (later 2 clk) req) st = (None, s')"
  obtains srv' where
    "after_exchange (sys_server sys) (ServeHTTP ops env flusher kord pord (\<lambda>k. i) clk events r
       (sys_server sys)) = Some srv'"
    "sch_store (srv_sched srv') = s'"
    "jobCh (srv_sched srv') = []" "schedule_loops (srv_sched srv') = 1"
    "BatchSize (sch_config (srv_sched srv')) = 100" "srv_pool srv' = srv_pool (sys_server sys)"
proof -
  let ?srv = "sys_server sys" and ?job = "createJobFromRequest env i (later 2 clk) req"
  from runServe_ready [OF assms(1)] have ready: "srv_eventBus ?srv = Some NewEventBus"
    "sch_store (srv_sched ?srv) = st" "jobCh (srv_sched ?srv) = []"
    "schedule_loops (srv_sched ?srv) = 1" "BatchSize (sch_config (srv_sched ?srv)) = 100"
    "srv_config ?srv = serve_api_config flags" by blast+
  have c: "Create ops ?job (sch_store (srv_sched ?srv)) = (None, s')" using ready(2) assms(7) by simp
  have bus: "\<exists>eb. srv_eventBus ?srv = Some eb \<and> bus_ok eb" using ready(1) by simp
  from submitJob_created [OF bus assms(2,5,6) c] obtain resp srv' where
    sub: "submitJob ops env i (later 2 clk) (Body r) ?srv = Returns (resp, srv')" by blast
  note after = submitJob_sched [OF sub assms(5,6) c]
  obtain h where "middleware env kord clk r ?srv = Inr (r, h)"
    using ready(6) by (simp add: middleware_def serve_api_config_def Let_def)
  then have "after_exchange ?srv (ServeHTTP ops env flusher kord pord (\<lambda>k. i) clk events r ?srv) = Some srv'"
    using assms(3,4) sub by (simp add: ServeHTTP_def route_request_def registerRoutes_def exact_routes_def
        handleJobs_def exchange_of_def)
  from that [OF this] after ready(3-5) show ?thesis by simp
qed

text \<open>The submission as a step of the program: the state in which the job waits for the first cycle.\<close>

context running
begin

lemma echo_submitted:
  assumes "uuid_texts_ok env" and "runServe parse ended newID clk flags st = Returns (Inr sys)"
    and "inv st" and "\<And>k. jobs_of st k = None"
    and "\<And>job. ID job = i \<Longrightarrow> IdempotencyKey job = ReqIdempotencyKey req \<Longrightarrow> \<exists>s'. Create ops job st = (None, s')"
    and "0 < workers flags" and "workers flags < 2 ^ 62"
    and "Method r = ''POST''" and "Path r = ''/api/v1/jobs''"
    and "dec_submit env (Body r) = Some req" and "ReqType req = ''echo''"
    and "allowed r"
  obtains rt p job where "rt_step ops env sort_slice cvt allowed (runtime_of sys) rt"
    "inv (sch_store (srv_sched (rt_server rt)))" "jobs_of (sch_store (srv_sched (rt_server rt))) = [i \<mapsto> job]"
    "State job = JobStatePending" "rt_cycle rt = []" "0 < schedule_loops (srv_sched (rt_server rt))"
    "1 < BatchSize (sch_config (srv_sched (rt_server rt)))" "jobCh (srv_sched (rt_server rt)) = []"
    "srv_pool (rt_server rt) = Some p" "pool_jobCh p = []" "0 < live_fetchers p" "0 < pool_capacity p"
    "length (rt_busy rt) < live_workers p" "map_of (handlers p) (JobType job) = Some echo_handler"
    "Payload job = ReqPayload req" "rt_claims rt = []" "rt_busy rt = []"
proof -
  fix flusher kord pord clk' events
  from runServe_ready [OF assms(2)] obtain p where p: "srv_pool (sys_server sys) = Some p" "pool_jobCh p = []"
    "live_fetchers p = 1" "live_workers p = nat (workers flags)" "pool_capacity p = wrap64 (workers flags * 2)"
    "handlers p = [(''echo'', echo_handler), (''sleep'', sleep_handler parse ended), (''error'', error_handler)]"
    "jobCh (srv_sched (sys_server sys)) = []"
    by blast
  have cap: "0 < pool_capacity p" using assms(6,7) p(5) wrap64_id [of "workers flags * 2"]
    by (simp add: int64_range_def)
  have type: "ReqType req \<noteq> ''''" using assms(11) by simp
  let ?job = "createJobFromRequest env i (later 2 clk') req"
  have ID: "ID ?job = i" "IdempotencyKey ?job = ReqIdempotencyKey req" by simp_all
  from assms(5) [OF ID] obtain s' where c: "Create ops ?job st = (None, s')" by blast
  have "jobs_of st = Map.empty" using assms(4) by (simp add: fun_eq_iff)
  with Create_ok [OF assms(3) c] ID have s': "inv s'" "jobs_of s' = [i \<mapsto> ?job]" by simp_all
  from submit_to_serve [OF assms(2,1,8-10) type c, of flusher kord pord events] obtain srv' where
    req: "after_exchange (sys_server sys) (ServeHTTP ops env flusher kord pord (\<lambda>k. i) clk'
       events r (sys_server sys)) = Some srv'"
    and srv': "sch_store (srv_sched srv') = s'"
    "jobCh (srv_sched srv') = []" "schedule_loops (srv_sched srv') = 1"
    "BatchSize (sch_config (srv_sched srv')) = 100" "srv_pool srv' = srv_pool (sys_server sys)" by blast
  let ?rt = "(runtime_of sys)\<lparr>rt_server := srv'\<rparr>"
  have step: "rt_step ops env sort_slice cvt allowed (runtime_of sys) ?rt"
    by (rule request [where allowed = allowed and r = r, OF assms(12), where newIDs = "\<lambda>k. i"])
      (use req p in \<open>simp_all add: runtime_of_def new_uuid_def in_channels_def\<close>)
  show ?thesis
    by (rule that [OF step, of ?job p]) (use srv' s' p cap assms(6,11) in \<open>simp_all add: runtime_of_def\<close>)
qed

text \<open>A worker has claimed the job.\<close>

lemma echo_claimed:
  assumes "uuid_texts_ok env" and "runServe parse ended newID clk flags st = Returns (Inr sys)"
    and "inv st" and "\<And>k. jobs_of st k = None"
    and "\<And>job. ID job = i \<Longrightarrow> IdempotencyKey job = ReqIdempotencyKey req \<Longrightarrow> \<exists>s'. Create ops job st = (None, s')"
    and "0 < workers flags" and "workers flags < 2 ^ 62"
    and "Method r = ''POST''" and "Path r = ''/api/v1/jobs''"
    and "dec_submit env (Body r) = Some req" and "ReqType req = ''echo''"
    and "allowed r"
  obtains rt j job where "rt_steps ops env sort_slice cvt allowed (runtime_of sys) rt"
    "rt_claims rt = [i]" "rt_busy rt = [job]"
    "jobs_of (sch_store (srv_sched (rt_server rt))) i = Some j" "State j = JobStateRunning"
proof -
  obtain rt p job where rt: "rt_step ops env sort_slice cvt allowed (runtime_of sys) rt"
    "inv (sch_store (srv_sched (rt_server rt)))" "jobs_of (sch_store (srv_sched (rt_server rt))) = [i \<mapsto> job]"
    "State job = JobStatePending" "rt_cycle rt = []" "0 < schedule_loops (srv_sched (rt_server rt))"
    "1 < BatchSize (sch_config (srv_sched (rt_server rt)))" "jobCh (srv_sched (rt_server rt)) = []"
    "srv_pool (rt_server rt) = Some p" "pool_jobCh p = []" "0 < live_fetchers p" "0 < pool_capacity p"
    "length (rt_busy rt) < live_workers p" "rt_claims rt = []" "rt_busy rt = []"
    by (rule echo_submitted [where allowed = allowed, OF assms])
  obtain rt' j where "rt_steps ops env sort_slice cvt allowed rt rt'" "rt_claims rt' = i # rt_claims rt"
    "rt_busy rt' = rt_busy rt @ [job\<lparr>State := JobStateScheduled\<rparr>]"
    "jobs_of (sch_store (srv_sched (rt_server rt'))) i = Some j" "State j = JobStateRunning"
    by (rule single_job_claimed [OF rt(2-13)])
  with rt(1,14,15) show ?thesis by (intro that [OF rt_steps_trans [OF _ rt_steps_one]]) simp_all
qed

end

text \<open>The whole run, with what it claims.\<close>

lemma echo_run:
  assumes "permutes_entries ord" and "go_sort srt" and "uuid_texts_ok env"
    and "runServe parse ended newID clk flags NewMemoryStore = Returns (Inr sys)"
    and "0 < workers flags" and "workers flags < 2 ^ 62"
    and "Method r = ''POST''" and "Path r = ''/api/v1/jobs''"
    and "dec_submit env (Body r) = Some req" and "ReqType req = ''echo''"
    and "allowed r"
  obtains rt j res where "rt_steps (memory_store ord) env srt cvt allowed (runtime_of sys) rt"
    "rt_claims rt = [i]"
    "mem_jobs_of (sch_store (srv_sched (rt_server rt))) i = Some j" "State j = JobStateCompleted"
    "map_of (mem_results (sch_store (srv_sched (rt_server rt)))) i = Some res"
    "Success res" "Output res = ReqPayload req"
proof -
  have empty: "mem_inv NewMemoryStore" "mem_jobs_of NewMemoryStore k = None" for k
    by (simp_all add: mem_inv_New) (simp add: mem_jobs_of_def NewMemoryStore_def)
  have create: "\<exists>s'. Create (memory_store ord) job NewMemoryStore = (None, s')" if "ID job = i" for job
    using mem_Create_first [OF that] by auto
  obtain rt0 p job where rt0: "rt_step (memory_store ord) env srt cvt allowed (runtime_of sys) rt0"
    "mem_inv (sch_store (srv_sched (rt_server rt0)))" "mem_jobs_of (sch_store (srv_sched (rt_server rt0))) = [i \<mapsto> job]"
    "State job = JobStatePending" "rt_cycle rt0 = []" "0 < schedule_loops (srv_sched (rt_server rt0))"
    "1 < BatchSize (sch_config (srv_sched (rt_server rt0)))" "jobCh (srv_sched (rt_server rt0)) = []"
    "srv_pool (rt_server rt0) = Some p" "pool_jobCh p = []" "0 < live_fetchers p" "0 < pool_capacity p"
    "length (rt_busy rt0) < live_workers p" "map_of (handlers p) (JobType job) = Some echo_handler"
    "Payload job = ReqPayload req" "rt_claims rt0 = []"
    by (rule running.echo_submitted [where allowed = allowed,
          OF mem_is_running [OF assms(1,2)] assms(3,4) empty create assms(5-11)])
  let ?sent = "job\<lparr>State := JobStateScheduled\<rparr>"
  have exec: "executeWithRecovery (memory_store ord) d (createJobContext ?sent) echo_handler s =
      (None, (createJobContext ?sent)\<lparr>jc_output := ReqPayload req\<rparr>, s)" for d s
    using rt0(15) by (simp add: echo_runs)
  obtain rt j res where run: "rt_steps (memory_store ord) env srt cvt allowed rt0 rt"
    "rt_claims rt = i # rt_claims rt0"
    "mem_jobs_of (sch_store (srv_sched (rt_server rt))) i = Some j" "State j = JobStateCompleted"
    "map_of (mem_results (sch_store (srv_sched (rt_server rt)))) i = Some res"
    "Success res" "Output res = jc_output ((createJobContext ?sent)\<lparr>jc_output := ReqPayload req\<rparr>)"
    by (rule running.single_job_served [OF mem_is_running [OF assms(1,2)] rt0(2-14) exec])
  from that [OF rt_steps_trans [OF run(1) rt_steps_one [OF rt0(1)]] _ run(3-6)] run(2,7) rt0(16)
  show ?thesis by simp
qed

text \<open>A program to run: the serve command's default flags, and a client that submits echo jobs.\<close>

definition echo_env :: api_env where
  "echo_env = example_env\<lparr>dec_submit :=
     (\<lambda>b. Some ((example_submit b)\<lparr>ReqType := ''echo'', ReqPayload := b\<rparr>))\<rparr>"

definition echo_request :: "bytes \<Rightarrow> api_request" where
  "echo_request b = \<lparr>Header_Get = (\<lambda>n. ''''), ctx_principal = None, Method = ''POST'',
     Path = ''/api/v1/jobs'', Query = (\<lambda>k. ''''), Body = b\<rparr>"

lemma echo_example [simp]:
  "uuid_texts_ok echo_env" "Method (echo_request b) = ''POST''" "Path (echo_request b) = ''/api/v1/jobs''"
  "dec_submit echo_env (Body (echo_request b)) =
     Some ((example_submit b)\<lparr>ReqType := ''echo'', ReqPayload := b\<rparr>)"
  "\<not> retry_request (echo_request b)" "0 < workers default_serve_flags"
  "workers default_serve_flags < 2 ^ 62"
  by (simp_all add: echo_env_def echo_request_def uuid_texts_ok_def example_env_def retry_request_def
      trim_prefix_def has_prefix_def default_serve_flags_def)

lemma echo_serves:
  obtains sys where "runServe parse ended newID clk default_serve_flags st = Returns (Inr sys)"
  by (simp add: runServe_def NewPriorityScheduler_def sched_Start_def NewSimplePool_def pool_Start_def
      rec_Start_def NewSimpleRecoveryManager_def DefaultSchedulerConfig_def registerExampleHandlers_def
      RegisterHandler_def serve_pool_config_def default_serve_flags_def int64_range_def)

section \<open>Properties of the program\<close>

text \<open>
  A program that starts over an empty in-memory store executes no job twice, however the
  scheduling cycles, the workers' claims, runs and reports, the recovery of stuck jobs and
  the requests interleave, as long as no request asks for a retry: no two claims are of the
  same job, and the attempts counted in the store are the claims granted.
\<close>

theorem at_most_once:
  assumes "permutes_entries ord" and "go_sort srt" and "uuid_texts_ok env"
    and "runServe parse ended newID clk flags NewMemoryStore = Returns (Inr sys)"
    and "rt_steps (memory_store ord) env srt cvt (\<lambda>r. \<not> retry_request r) (runtime_of sys) rt"
  shows "distinct (rt_claims rt) \<and>
    (\<forall>i j. mem_jobs_of (sch_store (srv_sched (rt_server rt))) i = Some j \<longrightarrow>
       Attempt j = (if i \<in> set (rt_claims rt) then 1 else 0))"
proof -
  from running.once_inv_steps [OF mem_is_running [OF assms(1,2)] assms(5) once_inv_start [OF assms(4)] assms(3)]
  have "distinct (rt_claims rt)"
    and "once_jobs (mem_jobs_of (sch_store (srv_sched (rt_server rt)))) (rt_claims rt) (chan_ids rt)"
    by (simp_all add: once_inv_def)
  then show ?thesis unfolding once_jobs_def once_job_def by blast
qed

theorem at_most_once_witness:
  "\<exists>sys rt. runServe (\<lambda>t. None) (\<lambda>d t n. None) '''' (\<lambda>_. 0) default_serve_flags NewMemoryStore =
       Returns (Inr sys) \<and>
     rt_steps (memory_store (\<lambda>m. m)) echo_env insertion_sort cvt_amd64 (\<lambda>r. \<not> retry_request r)
       (runtime_of sys) rt \<and>
     rt_claims rt = [1] \<and> distinct (rt_claims rt) \<and>
     (\<exists>j. mem_jobs_of (sch_store (srv_sched (rt_server rt))) 1 = Some j \<and> Attempt j = 1)"
proof -
  let ?serve = "runServe (\<lambda>t. None) (\<lambda>d t n. None) '''' (\<lambda>_. 0) default_serve_flags NewMemoryStore"
  obtain sys where sys: "?serve = Returns (Inr sys)" by (rule echo_serves)
  obtain rt j res where run: "rt_steps (memory_store (\<lambda>m. m)) echo_env insertion_sort cvt_amd64
      (\<lambda>r. \<not> retry_request r) (runtime_of sys) rt" "rt_claims rt = [1]"
    "mem_jobs_of (sch_store (srv_sched (rt_server rt))) 1 = Some j"
    by (rule echo_run [where allowed = "\<lambda>r. \<not> retry_request r", OF permutes_entries_id ins.go_sort_axioms
          echo_example(1) sys echo_example(6,7,2,3,4), of "''hi''" cvt_amd64 1]) simp_all
  from at_most_once [OF permutes_entries_id ins.go_sort_axioms echo_example(1) sys run(1)] run sys
  show ?thesis by auto
qed

text \<open>
  C4: the life of a job in the running program, as long as no request asks for a retry: a job
  that no worker has claimed is pending, scheduled or cancelled; one that has been claimed is
  running, completed, failed, dead, waiting for a retry or cancelled, and never again waits for a
  worker; none is ever stored as delayed; and whatever a worker executes it has claimed.
\<close>

theorem job_lifecycle:
  assumes "permutes_entries ord" and "go_sort srt" and "uuid_texts_ok env"
    and "runServe parse ended newID clk flags NewMemoryStore = Returns (Inr sys)"
    and "rt_steps (memory_store ord) env srt cvt (\<lambda>r. \<not> retry_request r) (runtime_of sys) rt"
  shows "(\<forall>i j. mem_jobs_of (sch_store (srv_sched (rt_server rt))) i = Some j \<longrightarrow>
      State j \<in> (if i \<in> set (rt_claims rt)
        then {JobStateRunning, JobStateCompleted, JobStateFailed, JobStateDeadLetter, JobStateRetrying,
          JobStateCancelled}
        else {JobStatePending, JobStateScheduled, JobStateCancelled})) \<and>
    ID ` set (rt_busy rt) \<subseteq> set (rt_claims rt)"
proof -
  from running.once_inv_steps [OF mem_is_running [OF assms(1,2)] assms(5) once_inv_start [OF assms(4)] assms(3)]
  have "ID ` set (rt_busy rt) \<subseteq> set (rt_claims rt)"
    and "once_jobs (mem_jobs_of (sch_store (srv_sched (rt_server rt)))) (rt_claims rt) (chan_ids rt)"
    unfolding once_inv_def by blast+
  then show ?thesis unfolding once_jobs_def once_job_def by blast
qed

theorem job_lifecycle_witness:
  "\<exists>sys rt j. rt_steps (memory_store (\<lambda>m. m)) echo_env insertion_sort cvt_amd64 (\<lambda>r. \<not> retry_request r)
       (runtime_of sys) rt \<and> rt_claims rt = [1] \<and>
     mem_jobs_of (sch_store (srv_sched (rt_server rt))) 1 = Some j \<and>
     State j \<in> {JobStateRunning, JobStateCompleted, JobStateFailed, JobStateDeadLetter, JobStateRetrying,
       JobStateCancelled}"
proof -
  let ?serve = "runServe (\<lambda>t. None) (\<lambda>d t n. None) '''' (\<lambda>_. 0) default_serve_flags NewMemoryStore"
  obtain sys where sys: "?serve = Returns (Inr sys)" by (rule echo_serves)
  obtain rt j res where run: "rt_steps (memory_store (\<lambda>m. m)) echo_env insertion_sort cvt_amd64
      (\<lambda>r. \<not> retry_request r) (runtime_of sys) rt" "rt_claims rt = [1]"
    "mem_jobs_of (sch_store (srv_sched (rt_server rt))) 1 = Some j"
    by (rule echo_run [where allowed = "\<lambda>r. \<not> retry_request r", OF permutes_entries_id ins.go_sort_axioms
          echo_example(1) sys echo_example(6,7,2,3,4), of "''hi''" cvt_amd64 1]) simp_all
  from job_lifecycle [OF permutes_entries_id ins.go_sort_axioms echo_example(1) sys run(1)] run(3)
  have "State j \<in> (if 1 \<in> set (rt_claims rt)
      then {JobStateRunning, JobStateCompleted, JobStateFailed, JobStateDeadLetter, JobStateRetrying,
        JobStateCancelled}
      else {JobStatePending, JobStateScheduled, JobStateCancelled})" by blast
  moreover have "1 \<in> set (rt_claims rt)" using run(2) by simp
  ultimately have "State j \<in> {JobStateRunning, JobStateCompleted, JobStateFailed, JobStateDeadLetter,
      JobStateRetrying, JobStateCancelled}" by (simp only: if_True)
  with run show ?thesis by blast
qed

text \<open>
  C7: the program gets its work done: over an empty in-memory store, with at least one worker,
  a submitted echo job can go all the way. The steps of the server, the scheduler, the fetcher
  and a worker lead from the start to a state in which the job is completed and its stored
  result is a success whose output is the payload of the request. A delay in the request does
  not hold it up.
\<close>

theorem submitted_job_completes:
  assumes "permutes_entries ord" and "go_sort srt" and "uuid_texts_ok env"
    and "runServe parse ended newID clk flags NewMemoryStore = Returns (Inr sys)"
    and "0 < workers flags" and "workers flags < 2 ^ 62"
    and "Method r = ''POST''" and "Path r = ''/api/v1/jobs''"
    and "dec_submit env (Body r) = Some req" and "ReqType req = ''echo''"
  shows "\<exists>rt j res. rt_steps (memory_store ord) env srt cvt (\<lambda>q. q = r) (runtime_of sys) rt \<and>
    mem_jobs_of (sch_store (srv_sched (rt_server rt))) i = Some j \<and> State j = JobStateCompleted \<and>
    map_of (mem_results (sch_store (srv_sched (rt_server rt)))) i = Some res \<and>
    Success res \<and> Output res = ReqPayload req"
  by (rule echo_run [OF assms, where allowed = "\<lambda>q. q = r" and cvt = cvt and i = i]) blast+

theorem submitted_job_completes_witness:
  "\<exists>sys rt res. runServe (\<lambda>t. None) (\<lambda>d t n. None) '''' (\<lambda>_. 0) default_serve_flags NewMemoryStore =
       Returns (Inr sys) \<and>
     rt_steps (memory_store (\<lambda>m. m)) echo_env insertion_sort cvt_amd64 (\<lambda>q. q = echo_request ''hi'')
       (runtime_of sys) rt \<and>
     map_of (mem_results (sch_store (srv_sched (rt_server rt)))) 1 = Some res \<and> Output res = ''hi''"
proof -
  let ?serve = "runServe (\<lambda>t. None) (\<lambda>d t n. None) '''' (\<lambda>_. 0) default_serve_flags NewMemoryStore"
  obtain sys where sys: "?serve = Returns (Inr sys)" by (rule echo_serves)
  from submitted_job_completes [OF permutes_entries_id ins.go_sort_axioms echo_example(1) sys
      echo_example(6,7,2,3,4), of "''hi''" cvt_amd64 1]
  obtain rt res where "rt_steps (memory_store (\<lambda>m. m)) echo_env insertion_sort cvt_amd64
      (\<lambda>q. q = echo_request ''hi'') (runtime_of sys) rt"
    "map_of (mem_results (sch_store (srv_sched (rt_server rt)))) 1 = Some res" "Output res = ''hi''"
    by auto
  with sys show ?thesis by blast
qed

section \<open>Cancelling a job the cycle has already taken\<close>

context running
begin

lemma Cancel_pending:
  assumes "inv (sch_store sched)" and "jobs_of (sch_store sched) i = Some j" and "State j = JobStatePending"
  obtains sched' j1 where "Cancel ops clk i reason force sched = (None, sched')"
    "jobs_of (sch_store sched') i = Some j1" "State j1 = JobStateCancelled" "sch_config sched' = sch_config sched"
proof -
  let ?j = "j\<lparr>State := JobStateCancelled, CompletedAt := clk 0, UpdatedAt := clk 0, LastError := reason\<rparr>"
  have "jobs_of (sch_store sched) (ID ?j) \<noteq> None" using assms jobs_ID [OF assms(1,2)] by simp
  from Update_succeeds [OF assms(1) this always_storable, of "clk 1"] obtain j' s1
    where u: "Update ops (clk 1) ?j (sch_store sched) = (j', None, s1)" by (metis fst_conv snd_conv prod.exhaust)
  have get: "Get ops i (sch_store sched) = Inr j" using Get_Some [OF assms(1)] assms(2) by simp
  have c: "Cancel ops clk i reason force sched = (None, sched\<lparr>sch_store := s1\<rparr>)"
    using get u assms(3) by (simp add: Cancel_def Let_def)
  from Cancel_effect [OF assms(1,2) c] assms(3) have
    "jobs_of s1 i = Some (j\<lparr>State := JobStateCancelled, CompletedAt := clk 0, LastError := reason,
       UpdatedAt := clk 1\<rparr>)" by (auto simp: IsTerminal_def)
  with that [OF c] show ?thesis by simp
qed

lemma cancel_then_send:
  assumes "server_ok inv (rt_server rt)" and "uuid_texts_ok env" and "Method r = ''POST''"
    and "jobs_of (sch_store (srv_sched (rt_server rt))) i = Some j" and "State j = JobStatePending"
    and "rt_cycle rt = job # rest" and "ID job = i" and "State job = JobStatePending"
  obtains resp srv' rt' j1 j2 s' where "cancelJob ops env clk r i (rt_server rt) = Returns (resp, srv')"
    "code resp = 200" "jobs_of (sch_store (srv_sched srv')) i = Some j1" "State j1 = JobStateCancelled"
    "rt_step ops env sort_slice cvt allowed (rt\<lparr>rt_server := srv'\<rparr>) rt'"
    "jobs_of (sch_store (srv_sched (rt_server rt'))) i = Some j2" "State j2 = JobStateScheduled"
    "ClaimJob ops t i w (sch_store (srv_sched (rt_server rt'))) = (True, None, s')"
proof -
  let ?srv = "rt_server rt"
  have ok: "inv (sch_store (srv_sched ?srv))" and bus: "\<exists>eb. srv_eventBus ?srv = Some eb \<and> bus_ok eb"
    using assms(1) by (simp_all add: server_ok_def)
  obtain reason force where d: "dec_cancel env (Body r) = (reason, force)" by fastforce
  obtain sched1 j1 where c: "Cancel ops clk i reason force (srv_sched ?srv) = (None, sched1)"
    "jobs_of (sch_store sched1) i = Some j1" "State j1 = JobStateCancelled"
    by (rule Cancel_pending [OF ok assms(4,5)])
  have inv1: "inv (sch_store sched1)" using Cancel_keeps [OF ok c(1)] by blast
  let ?srv1 = "?srv\<lparr>srv_sched := sched1\<rparr>"
  have "server_ok inv ?srv1" "jobs_of (sch_store (srv_sched ?srv1)) i = Some j1" using inv1 bus c(2) by simp_all
  from answer_job_ok [OF this(1) assms(2) this(2), of "''job.cancelled''"] obtain srv' where
    a: "answer_job ops env ''job.cancelled'' i ?srv1 =
      Returns (writeJSON 200 (JobAnswer (jobToResponse (uuid_text env) j1)), srv')" "only_bus ?srv1 srv'" by blast
  have same: "srv_sched srv' = sched1" using only_bus_simps(1) [OF a(2)] by simp
  have cancel: "cancelJob ops env clk r i ?srv =
      Returns (writeJSON 200 (JobAnswer (jobToResponse (uuid_text env) j1)), srv')"
    using assms(3) d c(1) a(1) by (simp add: cancelJob_def)
  obtain sent s2 ch where send: "send_jobs ops (BatchSize (sch_config sched1)) clk [job] (sch_store sched1)
      (jobCh sched1) = (sent, s2, ch)" by (metis prod_cases3)
  let ?rt = "rt\<lparr>rt_server := srv'\<rparr>"
  let ?rt' = "(put_sched (sched1\<lparr>sch_store := s2, jobCh := ch\<rparr>) ?rt)\<lparr>rt_cycle := (if sent then rest else [])\<rparr>"
  have step: "rt_step ops env sort_slice cvt allowed ?rt ?rt'"
    using cycle_send [of ?rt job rest ops clk sent s2 ch env sort_slice cvt allowed] assms(6) send same by simp
  from send_one_effect(1,4) [OF inv1 send] c(2) assms(7,8) have s2: "inv s2"
    "jobs_of s2 i = Some (j1\<lparr>State := JobStateScheduled, UpdatedAt := clk 0\<rparr>)" by simp_all
  from ClaimJob_succeeds [OF s2 _ always_storable, of t w] obtain s'
    where "ClaimJob ops t i w s2 = (True, None, s')" by (auto simp: is_pending_def)
  with that [OF cancel _ _ c(3) step] same c(2) s2(2) show ?thesis by simp
qed

end

text \<open>
  C9: a cancellation can be lost: when the scheduler's cycle has taken a pending job into its
  list and the client cancels the job before its turn, the client is answered 200 and the job
  is stored as cancelled, but the cycle's next step stores it as scheduled again, and a worker
  that asks for it is granted the claim.
\<close>

theorem cancelled_job_runs:
  assumes "permutes_entries ord" and "go_sort srt" and "server_ok mem_inv (rt_server rt)"
    and "uuid_texts_ok env" and "Method r = ''POST''"
    and "mem_jobs_of (sch_store (srv_sched (rt_server rt))) i = Some j" and "State j = JobStatePending"
    and "rt_cycle rt = job # rest" and "ID job = i" and "State job = JobStatePending"
  shows "\<exists>resp srv' rt' j1 j2 s'.
    cancelJob (memory_store ord) env clk r i (rt_server rt) = Returns (resp, srv') \<and> code resp = 200 \<and>
    mem_jobs_of (sch_store (srv_sched srv')) i = Some j1 \<and> State j1 = JobStateCancelled \<and>
    rt_step (memory_store ord) env srt cvt allowed (rt\<lparr>rt_server := srv'\<rparr>) rt' \<and>
    mem_jobs_of (sch_store (srv_sched (rt_server rt'))) i = Some j2 \<and> State j2 = JobStateScheduled \<and>
    mem_ClaimJob t i w (sch_store (srv_sched (rt_server rt'))) = (True, None, s')"
  by (rule running.cancel_then_send [OF mem_is_running [OF assms(1,2)] assms(3-),
        where clk = clk and cvt = cvt and allowed = allowed and t = t and w = w])
    (simp only: memory_store_simps, blast)

theorem cancelled_job_runs_witness:
  "let rt = (runtime_of \<lparr>sys_server = example_server [example_job 1 JobStatePending 0],
        sys_recovery = NewSimpleRecoveryManager NewMemoryStore None\<rparr>)
        \<lparr>rt_cycle := [example_job 1 JobStatePending 0]\<rparr>
   in \<exists>resp srv' rt' j2. cancelJob (memory_store (\<lambda>m. m)) example_env (\<lambda>_. 5) (echo_request ''x'') 1 (rt_server rt) =
        Returns (resp, srv') \<and> code resp = 200 \<and>
      rt_step (memory_store (\<lambda>m. m)) example_env insertion_sort cvt_amd64 (\<lambda>_. False) (rt\<lparr>rt_server := srv'\<rparr>) rt' \<and>
      mem_jobs_of (sch_store (srv_sched (rt_server rt'))) 1 = Some j2 \<and> State j2 = JobStateScheduled"
proof -
  let ?j = "example_job 1 JobStatePending 0"
  let ?rt = "(runtime_of \<lparr>sys_server = example_server [?j], sys_recovery = NewSimpleRecoveryManager NewMemoryStore None\<rparr>)
        \<lparr>rt_cycle := [?j]\<rparr>"
  have "server_ok mem_inv (rt_server ?rt)" "mem_jobs_of (sch_store (srv_sched (rt_server ?rt))) 1 = Some ?j"
    "rt_cycle ?rt = ?j # []" by (simp_all add: runtime_of_def mem_jobs_of_def)
  from cancelled_job_runs [OF permutes_entries_id ins.go_sort_axioms this(1) example_env_ok echo_example(2)
      this(2) _ this(3), of "\<lambda>_. 5" "''x''" cvt_amd64 "\<lambda>_. False"]
  show ?thesis unfolding Let_def by simp blast
qed

section \<open>Access to the running program\<close>

lemma rt_step_config:
  assumes "rt_step ops env srt cvt allowed rt rt'"
  shows "srv_config (rt_server rt') = srv_config (rt_server rt) \<and> srv_auth (rt_server rt') = srv_auth (rt_server rt)"
  using assms
  by cases (auto simp: put_sched_def put_pool_def put_store_def same_channels_def dest: ServeHTTP_channels)

lemma rt_steps_config:
  assumes "rt_steps ops env srt cvt allowed rt rt'"
  shows "srv_config (rt_server rt') = srv_config (rt_server rt) \<and> srv_auth (rt_server rt') = srv_auth (rt_server rt)"
  using assms by (induction rule: rt_steps.induct) (auto dest: rt_step_config)

text \<open>
  C20: \<open>gq serve\<close> asks nobody for a key: in every state of the program, whatever its flags, its
  store and the requests so far, the middleware hands every request on as it is, with or
  without a key, and adds only the request's identifier to the answer, no CORS headers.
\<close>

theorem serve_never_authenticates:
  assumes "runServe parse ended newID clk flags st = Returns (Inr sys)"
    and "rt_steps ops env srt cvt allowed (runtime_of sys) rt"
  shows "middleware env kord clk2 r (rt_server rt) = Inr (r, [(''X-Request-ID'',
    if Header_Get r ''X-Request-ID'' = '''' then format_stamp env (clk2 1) else Header_Get r ''X-Request-ID'')])"
proof -
  from runServe_ready [OF assms(1)] have "srv_config (sys_server sys) = serve_api_config flags" by blast
  with rt_steps_config [OF assms(2)] have "srv_config (rt_server rt) = serve_api_config flags"
    by (simp add: runtime_of_def)
  then show ?thesis by (simp add: middleware_def serve_api_config_def Let_def)
qed

theorem serve_never_authenticates_witness:
  "\<exists>sys rt. rt_steps (memory_store (\<lambda>m. m)) echo_env insertion_sort cvt_amd64 (\<lambda>q. True) (runtime_of sys) rt \<and>
     rt_claims rt = [1] \<and>
     middleware echo_env (\<lambda>m. m) (\<lambda>_. 7) (echo_request ''x'') (rt_server rt) =
       Inr (echo_request ''x'', [(''X-Request-ID'', ''now'')])"
proof -
  let ?serve = "runServe (\<lambda>t. None) (\<lambda>d t n. None) '''' (\<lambda>_. 0) default_serve_flags NewMemoryStore"
  obtain sys where sys: "?serve = Returns (Inr sys)" by (rule echo_serves)
  obtain rt j res where run: "rt_steps (memory_store (\<lambda>m. m)) echo_env insertion_sort cvt_amd64
      (\<lambda>q. True) (runtime_of sys) rt" "rt_claims rt = [1]"
    by (rule echo_run [where allowed = "\<lambda>q. True", OF permutes_entries_id ins.go_sort_axioms
          echo_example(1) sys echo_example(6,7,2,3,4), of "''hi''" cvt_amd64 1]) simp_all
  have "Header_Get (echo_request ''x'') ''X-Request-ID'' = ''''" "format_stamp echo_env 7 = ''now''"
    by (simp_all add: echo_request_def echo_env_def example_env_def)
  with serve_never_authenticates [OF sys run(1), of "\<lambda>m. m" "\<lambda>_. 7" "echo_request ''x''"] run show ?thesis
    by auto
qed

end
