(* ===== verification/GQ_Open.thy ===== *)
theory GQ_Open
  imports GQ_Bolt_Props GQ_Live
begin

text \<open>
  Opening the durable store (\<open>persistence/bolt_store.go\<close>), and what a program that is started
  again over a store with contents does with the jobs that it finds waiting.
\<close>

section \<open>Opening the database\<close>

text \<open>
  \<open>os.MkdirAll\<close>, \<open>filepath.Join\<close>, \<open>bolt.Open\<close> with a timeout for the file lock, and
  \<open>CreateBucketIfNotExists\<close> in the transaction's view of the database; and closing it.
\<close>

record 'db file_env =
  MkdirAll :: "string \<Rightarrow> gerror option"
  filepath_Join :: "string \<Rightarrow> string \<Rightarrow> string"
  bolt_Open :: "string \<Rightarrow> duration \<Rightarrow> gerror + 'db"
  CreateBucketIfNotExists :: "bucket \<Rightarrow> 'db \<Rightarrow> gerror + 'db"
  db_Close :: "'db \<Rightarrow> gerror option"

record 'db BoltStore =
  bolt_db :: 'db
  bolt_path :: string

fun create_buckets :: "'db file_env \<Rightarrow> bucket list \<Rightarrow> 'db \<Rightarrow> gerror + 'db" where
  "create_buckets files [] tx = Inr tx"
| "create_buckets files (b # bs) tx =
     (case CreateBucketIfNotExists files b tx of
        Inl e \<Rightarrow> Inl e
      | Inr tx' \<Rightarrow> create_buckets files bs tx')"

definition NewBoltStore ::
    "'db file_env \<Rightarrow> 'db bolt_env \<Rightarrow> string \<Rightarrow> gerror + 'db BoltStore" where
  "NewBoltStore files env dir =
     (case MkdirAll files dir of
        Some e \<Rightarrow> Inl (WrapError ''failed to create data directory: '' e)
      | None \<Rightarrow>
          (let dbPath = filepath_Join files dir ''gopherqueue.db''
           in case bolt_Open files dbPath (5 * Second) of
                Inl e \<Rightarrow> Inl (WrapError ''failed to open database: '' e)
              | Inr db \<Rightarrow>
                  (case db_Update_only env (create_buckets files
                          [jobsBucket, resultsBucket, checkpointBucket, idempotencyBucket, indexBucket]) db of
                     (Some e, _) \<Rightarrow> Inl (WrapError ''failed to create buckets: '' e)
                   | (None, db') \<Rightarrow> Inr \<lparr>bolt_db = db', bolt_path = dbPath\<rparr>)))"

definition bolt_Close :: "'db file_env \<Rightarrow> 'db BoltStore \<Rightarrow> gerror option" where
  "bolt_Close files b = db_Close files (bolt_db b)"

section \<open>Starting again\<close>

context scheduling
begin

text \<open>The first cycle of a scheduler whose channel is empty, over few enough waiting jobs.\<close>

lemma first_cycle_sends:
  assumes "inv (sch_store sched)" and "jobCh sched = []" and "0 < BatchSize (sch_config sched)"
    and "jobs_of (sch_store sched) i = Some j" and "is_pending j"
    and "finite {k. \<exists>l. jobs_of (sch_store sched) k = Some l \<and> is_pending l}"
    and "int (card {k. \<exists>l. jobs_of (sch_store sched) k = Some l \<and> is_pending l}) < BatchSize (sch_config sched)"
  shows "as_scheduled j \<in> set (jobCh (scheduleJobs ops sort_slice clk sched))"
proof -
  let ?s = "sch_store sched" and ?n = "BatchSize (sch_config sched)"
  let ?waiting = "{k. \<exists>l. jobs_of ?s k = Some l \<and> is_pending l}"
  from GetPending [OF assms(1), of ?n] obtain js where js: "GetPending ops ?n ?s = Inr js" "distinct (map ID js)"
    "\<forall>l \<in> set js. jobs_of ?s (ID l) = Some l \<and> is_pending l"
    "int (length js) < effective_limit ?n \<Longrightarrow> \<forall>k l. jobs_of ?s k = Some l \<and> is_pending l \<longrightarrow> l \<in> set js"
    by blast
  have n: "effective_limit ?n = ?n" using assms(3) by (simp add: effective_limit_def)
  have "length js = card (ID ` set js)" using js(2) by (metis distinct_card length_map set_map)
  also have "\<dots> \<le> card ?waiting" using js(3) by (intro card_mono [OF assms(6)]) auto
  finally have few: "int (length js) < ?n" using assms(7) by simp
  with js(4) n assms(4,5) have "j \<in> set js" by auto
  moreover have "jobCh (scheduleJobs ops sort_slice clk sched) = map as_scheduled (sort_slice priority_less js)"
    using scheduleJobs_sent [OF assms(1) _ js(1), of clk] assms(2,3) few by simp
  ultimately show ?thesis by simp
qed

end

text \<open>
  C22: no waiting job is lost by a restart: when \<open>gq serve\<close> is started over a store that already
  holds jobs, in which fewer than 100 are waiting, the scheduler's first cycle sends every one
  of them, the pending ones as well as those that the program had marked as scheduled and
  sent into the channel that is gone.
\<close>

theorem restart_sends_waiting:
  assumes "scheduling ops sinv storable jobs_of results_of checkpoints_of idem_of srt"
    and "sinv st" and "runServe parse ended newID clk flags st = Returns (Inr sys)"
    and "finite {k. \<exists>l. jobs_of st k = Some l \<and> is_pending l}"
    and "card {k. \<exists>l. jobs_of st k = Some l \<and> is_pending l} < 100"
    and "jobs_of st i = Some j" and "is_pending j"
  shows "as_scheduled j \<in> set (jobCh (scheduleJobs ops srt clk2 (srv_sched (sys_server sys))))"
proof -
  from runServe_ready [OF assms(3)] have "sch_store (srv_sched (sys_server sys)) = st"
    "jobCh (srv_sched (sys_server sys)) = []" "BatchSize (sch_config (srv_sched (sys_server sys))) = 100" by blast+
  with assms(2,4-7) show ?thesis
    by (intro scheduling.first_cycle_sends [OF assms(1)]) simp_all
qed

theorem restart_sends_waiting_witness:
  "\<exists>sys. runServe (\<lambda>t. None) (\<lambda>d t n. None) '''' (\<lambda>_. 0) default_serve_flags
       (example_store [example_job 1 JobStateScheduled 0]) = Returns (Inr sys) \<and>
     map ID (jobCh (scheduleJobs (memory_store (\<lambda>m. m)) insertion_sort (\<lambda>_. 9) (srv_sched (sys_server sys)))) \<noteq> []"
proof -
  let ?j = "example_job 1 JobStateScheduled 0"
  obtain sys where sys: "runServe (\<lambda>t. None) (\<lambda>d t n. None) '''' (\<lambda>_. 0) default_serve_flags
       (example_store [?j]) = Returns (Inr sys)"
    by (rule echo_serves)
  have j: "mem_jobs_of (example_store [?j]) 1 = Some ?j" "is_pending ?j"
    by (simp_all add: mem_jobs_of_def is_pending_def)
  have "{k. \<exists>l. mem_jobs_of (example_store [?j]) k = Some l \<and> is_pending l} \<subseteq> {1}"
    by (auto simp: mem_jobs_of_def split: if_splits)
  from finite_subset [OF this] card_mono [OF _ this]
  have "finite {k. \<exists>l. mem_jobs_of (example_store [?j]) k = Some l \<and> is_pending l}"
    "card {k. \<exists>l. mem_jobs_of (example_store [?j]) k = Some l \<and> is_pending l} < 100" by simp_all
  from restart_sends_waiting [OF mem_sched.scheduling_axioms _ sys this j, of "\<lambda>_. 9"] sys
  show ?thesis by (auto simp del: example_store_jobs)
qed

end
