(* ===== verification/GQ_Drain.thy ===== *)
theory GQ_Drain
  imports GQ_Live
begin

text \<open>
  What happens to the work that is on its way once nothing new comes in: the scheduler's loops
  have ended (\<open>Stop\<close> closes the channel on which they wait) and no request arrives. Every run
  of the remaining goroutines comes to rest, and at rest nothing is left half done. And what
  the pool tells of its workers in \<open>Stats\<close>, in every state of the running program.
\<close>

section \<open>What the steps leave alone\<close>

text \<open>The loops, switches and configuration of the scheduler, the size and the switches of the pool.\<close>

definition same_loops :: "'s PriorityScheduler \<Rightarrow> 's PriorityScheduler \<Rightarrow> bool" where
  "same_loops sched sched' \<longleftrightarrow> schedule_loops sched' = schedule_loops sched \<and>
     delayed_loops sched' = delayed_loops sched \<and> sch_config sched' = sch_config sched \<and>
     sch_running sched' = sch_running sched \<and> stopCh_closed sched' = stopCh_closed sched"

definition same_pool :: "SimplePool \<Rightarrow> SimplePool \<Rightarrow> bool" where
  "same_pool p p' \<longleftrightarrow> live_workers p' = live_workers p \<and> live_fetchers p' = live_fetchers p \<and>
     pool_config p' = pool_config p \<and> pool_running p' = pool_running p \<and>
     pool_stopCh_closed p' = pool_stopCh_closed p"

lemma same_pool_capacity: "same_pool p p' \<Longrightarrow> pool_capacity p' = pool_capacity p"
  by (simp add: same_pool_def pool_capacity_def)

lemma report_loops:
  "same_loops sched (snd (Complete ops clk i r sched))" "same_loops sched (snd (Fail ops cvt clk i r sched))"
  by (auto simp: Complete_def Fail_def same_loops_def Let_def
      split: sum.splits prod.splits option.splits if_splits)

lemma start_job_frame:
  assumes "start_job ops t job p sched = (granted, p', sched')"
  shows "same_loops sched sched' \<and> same_pool p p'"
  using assms by (auto simp: start_job_def same_loops_def same_pool_def Let_def split: prod.splits if_splits)

lemma process_claimed_frame:
  assumes "process_claimed ops cvt clk job p sched = (p', sched')"
  shows "same_loops sched sched' \<and> same_pool p p' \<and> activeCount p' = activeCount p \<and>
    processingIDs p' = processingIDs p"
proof -
  have with_store: "same_loops (sched\<lparr>sch_store := s\<rparr>) sched2 \<longleftrightarrow> same_loops sched sched2"
    for s and sched2 :: "'a PriorityScheduler"
    by (simp add: same_loops_def)
  note loops = report_loops [of "sched\<lparr>sch_store := s\<rparr>" for s, unfolded with_store]
  from assms show ?thesis
    by (auto simp: process_claimed_def CompleteJob_def FailJob_def same_pool_def Let_def report_loops loops
        split: option.splits prod.splits)
qed

lemma finish_job_frame:
  assumes "finish_job ops cvt clk job p sched = (p', sched')"
  shows "same_loops sched sched' \<and> same_pool p p' \<and> activeCount p' = activeCount p - 1 \<and>
    processingIDs p' = AList.delete (ID job) (processingIDs p)"
proof -
  obtain p2 sched2 where c: "process_claimed ops cvt clk job p sched = (p2, sched2)" by fastforce
  from process_claimed_frame [OF c] assms c show ?thesis by (auto simp: finish_job_def same_pool_def)
qed

section \<open>The work that is left\<close>

text \<open>
  The steps a job on its way still has to go, summed up over the jobs; the identifiers of the
  jobs stored as running; and the jobs on the recovery manager's list that are no longer running.
\<close>

definition work_left :: "'s Runtime \<Rightarrow> nat" where
  "work_left rt = length (rt_delayed rt) + 4 * length (rt_cycle rt) +
     3 * length (jobCh (srv_sched (rt_server rt))) +
     2 * (case srv_pool (rt_server rt) of None \<Rightarrow> 0 | Some p \<Rightarrow> length (pool_jobCh p)) +
     length (rt_busy rt)"

definition running_ids :: "(uuid \<Rightarrow> Job option) \<Rightarrow> uuid set" where
  "running_ids jobs = {i. \<exists>j. jobs i = Some j \<and> State j = JobStateRunning}"

definition stale_stuck :: "(uuid \<Rightarrow> Job option) \<Rightarrow> Job list \<Rightarrow> nat" where
  "stale_stuck jobs stuck = length (filter (\<lambda>j. ID j \<notin> running_ids jobs) stuck)"

definition scan_left :: "(uuid \<Rightarrow> Job option) \<Rightarrow> Job list \<Rightarrow> nat" where
  "scan_left jobs stuck = (if stuck = [] then Suc (card (running_ids jobs)) else length stuck)"

definition drain_order :: "('s \<Rightarrow> uuid \<Rightarrow> Job option) \<Rightarrow> ('s Runtime \<times> 's Runtime) set" where
  "drain_order jobs_of = measures
     [work_left, \<lambda>rt. card (running_ids (jobs_of (sch_store (srv_sched (rt_server rt))))),
      \<lambda>rt. stale_stuck (jobs_of (sch_store (srv_sched (rt_server rt)))) (rt_stuck rt),
      \<lambda>rt. scan_left (jobs_of (sch_store (srv_sched (rt_server rt)))) (rt_stuck rt)]"

lemma wf_drain_order: "wf (drain_order jobs_of)"
  by (simp add: drain_order_def)

lemma work_drain: "work_left rt' < work_left rt \<Longrightarrow> (rt', rt) \<in> drain_order jobs_of"
  by (simp add: drain_order_def)

lemma running_ids_upd:
  "State j \<noteq> JobStateRunning \<Longrightarrow> running_ids (jobs(i \<mapsto> j)) = running_ids jobs - {i}"
  by (auto simp: running_ids_def)

lemma fresh_stuck:
  assumes "distinct (map ID js)" and "\<forall>j \<in> set js. jobs (ID j) = Some j \<and> State j = JobStateRunning"
  shows "stale_stuck jobs js = 0" "length js \<le> card (running_ids jobs)"
proof -
  from assms(2) have run: "ID ` set js \<subseteq> running_ids jobs" by (auto simp: running_ids_def)
  then show "stale_stuck jobs js = 0" by (auto simp: stale_stuck_def filter_empty_conv)
  have "length js = card (ID ` set js)" using assms(1) by (metis distinct_card length_map set_map)
  with card_mono [OF _ run] show "length js \<le> card (running_ids jobs)" by simp
qed

text \<open>Handling one job of the list leaves fewer running jobs or, when it was not running, a shorter list.\<close>

lemma recover_drains:
  assumes "jobs' = jobs \<and> ID job \<notin> running_ids jobs \<or>
      (\<exists>j'. jobs' = jobs(ID job \<mapsto> j') \<and> State j' \<noteq> JobStateRunning)"
  shows "card (running_ids jobs') < card (running_ids jobs) \<or>
    card (running_ids jobs') = card (running_ids jobs) \<and> stale_stuck jobs' rest < stale_stuck jobs (job # rest)"
proof (cases "ID job \<in> running_ids jobs")
  case True
  with assms running_ids_upd have "running_ids jobs' = running_ids jobs - {ID job}" by metis
  with card_Diff1_less [OF finite True] show ?thesis by metis
next
  case False
  with assms running_ids_upd have "running_ids jobs' = running_ids jobs" by (metis Diff_empty Diff_insert0)
  with False show ?thesis by (simp add: stale_stuck_def)
qed

section \<open>Every step leaves less\<close>

definition loops_ended :: "'s Runtime \<Rightarrow> bool" where
  "loops_ended rt \<longleftrightarrow> schedule_loops (srv_sched (rt_server rt)) = 0 \<and>
     delayed_loops (srv_sched (rt_server rt)) = 0"

lemma loops_ended_same: "same_loops sched sched' \<Longrightarrow>
  loops_ended rt \<Longrightarrow> sched = srv_sched (rt_server rt) \<Longrightarrow> srv_sched (rt_server rt') = sched' \<Longrightarrow> loops_ended rt'"
  by (simp add: loops_ended_def same_loops_def)

context reliable_store
begin

lemma send_one_inv:
  assumes "inv s" and "send_jobs ops cap clk [job] s ch = (sent, s', ch')"
  shows "inv s'" "length ch' = (if sent then Suc (length ch) else length ch)"
proof -
  obtain e s1 where u: "UpdateState ops (clk 0) (ID job) JobStateScheduled s = (e, s1)" by fastforce
  from UpdateState_inv [OF assms(1) u] u assms
  show "inv s'" "length ch' = (if sent then Suc (length ch) else length ch)" by (auto split: if_splits)
qed

lemma recover_one_reliable:
  assumes "inv s" and "recover_jobs ops clk [job] n m s = (n', m', s')"
  shows "inv s' \<and> (jobs_of s' = jobs_of s \<and> jobs_of s (ID job) = None \<or>
    (\<exists>j'. jobs_of s' = (jobs_of s)(ID job \<mapsto> j') \<and> State j' \<noteq> JobStateRunning))"
proof (cases "jobs_of s (ID job)")
  case None
  with recover_one_effect [OF assms] show ?thesis by blast
next
  case (Some j)
  let ?r = "recovered_job (clk 0) (clk 1) job"
  have stored: "jobs_of s (ID ?r) \<noteq> None" using Some by simp
  obtain j' e s1 where upd: "Update ops (clk 2) ?r s = (j', e, s1)" by (metis prod_cases3)
  with Update_succeeds [OF assms(1) stored always_storable, of "clk 2"] have "e = None" by simp
  with Update_ok [OF assms(1)] upd have eff: "inv s1"
    "jobs_of s1 = (jobs_of s)(ID job \<mapsto> ?r\<lparr>UpdatedAt := clk 2\<rparr>)" by fastforce+
  have "s' = s1" using assms(2) upd by (auto split: if_splits)
  moreover have "State (?r\<lparr>UpdatedAt := clk 2\<rparr>) \<noteq> JobStateRunning" by simp
  ultimately show ?thesis using eff by blast
qed

lemma drain_step:
  assumes "rt_step ops env srt cvt (\<lambda>r. False) rt rt'" and "rt' \<noteq> rt"
    and "inv (sch_store (srv_sched (rt_server rt)))" and "loops_ended rt"
  shows "(rt', rt) \<in> drain_order jobs_of \<and> inv (sch_store (srv_sched (rt_server rt'))) \<and> loops_ended rt'"
  using assms(1)
proof cases
  case (cycle_begin jobs)
  with assms(4) show ?thesis by (simp add: loops_ended_def)
next
  case (cycle_send job jobs clk sent s' ch')
  note one = send_one_inv [OF assms(3) cycle_send(3)]
  have "work_left rt' < work_left rt"
    using one(2) cycle_send(1,2) by (auto simp: work_left_def split: option.splits)
  with one(1) assms(4) cycle_send(1) show ?thesis by (simp add: work_drain loops_ended_def)
next
  case (delayed_begin t jobs)
  with assms(4) show ?thesis by (simp add: loops_ended_def)
next
  case (delayed_mark job jobs clk)
  have "work_left rt' < work_left rt"
    using delayed_mark by (auto simp: work_left_def split: option.splits)
  moreover have "inv (snd (UpdateState ops (clk 0) (ID job) JobStateScheduled (sch_store (srv_sched (rt_server rt)))))"
    using UpdateState_inv [OF assms(3)] by (metis prod.collapse)
  ultimately show ?thesis using delayed_mark(1) assms(4) by (simp add: work_drain loops_ended_def)
next
  case (fetch p job sched')
  from fetch(4) have sched: "sch_store sched' = sch_store (srv_sched (rt_server rt))"
    "jobCh (srv_sched (rt_server rt)) = job # jobCh sched'" "same_loops (srv_sched (rt_server rt)) sched'"
    by (auto simp: GetNextJob_def same_loops_def split: list.splits)
  have "work_left rt' < work_left rt" using fetch(1,2) sched(2) by (simp add: work_left_def)
  with sched assms(3,4) fetch(1) show ?thesis by (simp add: work_drain loops_ended_def same_loops_def)
next
  case (claim p job rest t granted p' sched')
  from start_job_effect [OF assms(3) claim(5)] have eff: "inv (sch_store sched')"
    "jobCh sched' = jobCh (srv_sched (rt_server rt))" "pool_jobCh p' = rest" by simp_all
  have "work_left rt' < work_left rt" using claim(1,2,4) eff(2,3) by (simp add: work_left_def)
  with eff(1) assms(4) claim(1) start_job_frame [OF claim(5)] show ?thesis
    by (simp add: work_drain loops_ended_def same_loops_def)
next
  case (report p job clk p' sched')
  from finish_job_effect [OF assms(3) report(4)] have eff: "inv (sch_store sched')"
    "jobCh sched' = jobCh (srv_sched (rt_server rt))" "pool_jobCh p' = pool_jobCh p" by simp_all
  have "length (remove1 job (rt_busy rt)) < length (rt_busy rt)"
    using length_pos_if_in_set [OF report(3)] report(3) by (simp add: length_remove1)
  then have "work_left rt' < work_left rt" using report(1,2) eff(2,3) by (simp add: work_left_def)
  with eff(1) assms(4) report(1) finish_job_frame [OF report(4)] show ?thesis
    by (simp add: work_drain loops_ended_def same_loops_def)
next
  case (stuck_begin t d jobs)
  obtain js where "GetStuck ops t d (sch_store (srv_sched (rt_server rt))) = Inr js" "distinct (map ID js)"
    "\<forall>j \<in> set js. jobs_of (sch_store (srv_sched (rt_server rt))) (ID j) = Some j \<and> State j = JobStateRunning"
    using GetStuck [OF assms(3), of t d] by blast
  with stuck_begin(3) fresh_stuck have js: "stale_stuck (jobs_of (sch_store (srv_sched (rt_server rt)))) jobs = 0"
    "length jobs \<le> card (running_ids (jobs_of (sch_store (srv_sched (rt_server rt)))))" by force+
  have "jobs \<noteq> []" using assms(2) stuck_begin(1,2) by auto
  with js stuck_begin(1,2) have "(rt', rt) \<in> drain_order jobs_of"
    by (simp add: drain_order_def work_left_def scan_left_def stale_stuck_def)
  with assms(3,4) stuck_begin(1) show ?thesis by (simp add: loops_ended_def)
next
  case (stuck_recover job jobs clk n m n' m' s')
  let ?jobs = "jobs_of (sch_store (srv_sched (rt_server rt)))"
  from recover_one_reliable [OF assms(3) stuck_recover(3)] have inv': "inv s'"
    and eff: "jobs_of s' = ?jobs \<and> ?jobs (ID job) = None \<or>
      (\<exists>j'. jobs_of s' = ?jobs(ID job \<mapsto> j') \<and> State j' \<noteq> JobStateRunning)" by blast+
  have "jobs_of s' = ?jobs \<and> ID job \<notin> running_ids ?jobs \<or>
      (\<exists>j'. jobs_of s' = ?jobs(ID job \<mapsto> j') \<and> State j' \<noteq> JobStateRunning)"
    using eff by (auto simp: running_ids_def)
  from recover_drains [OF this, of jobs] stuck_recover(1,2) have "(rt', rt) \<in> drain_order jobs_of"
    by (auto simp: drain_order_def work_left_def)
  with inv' assms(4) stuck_recover(1) show ?thesis by (simp add: loops_ended_def)
next
  case (request r newIDs flusher kord pord clk events srv')
  then show ?thesis by simp
qed

end

section \<open>At rest\<close>

text \<open>A state that no step changes.\<close>

definition at_rest ::
    "'s JobStore \<Rightarrow> api_env \<Rightarrow> sorter \<Rightarrow> (float64 \<Rightarrow> int) \<Rightarrow> 's Runtime \<Rightarrow> bool" where
  "at_rest ops env srt cvt rt \<longleftrightarrow> (\<forall>rt'. rt_step ops env srt cvt (\<lambda>r. False) rt rt' \<longrightarrow> rt' = rt)"

lemma at_restD: "at_rest ops env srt cvt rt \<Longrightarrow> rt_step ops env srt cvt (\<lambda>r. False) rt rt' \<Longrightarrow> rt' = rt"
  by (simp add: at_rest_def)

lemma remove1_shorter: "x \<in> set xs \<Longrightarrow> remove1 x xs \<noteq> xs"
  by (induction xs) auto

context reliable_store
begin

lemma rest_is_idle:
  assumes "at_rest ops env srt cvt rt" and "srv_pool (rt_server rt) = Some p"
    and "0 < live_fetchers p" and "0 < live_workers p" and "0 < pool_capacity p"
  shows "rt_cycle rt = [] \<and> rt_delayed rt = [] \<and> in_channels rt = [] \<and> rt_busy rt = [] \<and> rt_stuck rt = []"
proof -
  note still = at_restD [OF assms(1)]
  have cycle: "rt_cycle rt = []"
  proof (cases "rt_cycle rt")
    case (Cons job jobs)
    obtain sent s' ch' where "send_jobs ops (BatchSize (sch_config (srv_sched (rt_server rt)))) (\<lambda>_. 0) [job]
        (sch_store (srv_sched (rt_server rt))) (jobCh (srv_sched (rt_server rt))) = (sent, s', ch')"
      by (metis prod_cases3)
    from arg_cong [OF still [OF rt_step.cycle_send [OF Cons this]], of rt_cycle] Cons show ?thesis
      by (auto split: if_splits)
  qed simp
  have delayed: "rt_delayed rt = []"
  proof (cases "rt_delayed rt")
    case (Cons job jobs)
    from arg_cong [OF still [OF rt_step.delayed_mark [OF Cons]], of rt_delayed] Cons show ?thesis by simp
  qed simp
  have stuck: "rt_stuck rt = []"
  proof (cases "rt_stuck rt")
    case (Cons job jobs)
    obtain n' m' s' where "recover_jobs ops (\<lambda>_. 0) [job] 0 0 (sch_store (srv_sched (rt_server rt))) = (n', m', s')"
      by (metis prod_cases3)
    from arg_cong [OF still [OF rt_step.stuck_recover [OF Cons this]], of rt_stuck] Cons show ?thesis by simp
  qed simp
  have busy: "rt_busy rt = []"
  proof (cases "rt_busy rt")
    case (Cons job jobs)
    then have job: "job \<in> set (rt_busy rt)" by simp
    obtain p' sched' where "finish_job ops cvt (\<lambda>_. 0) job p (srv_sched (rt_server rt)) = (p', sched')" by fastforce
    from arg_cong [OF still [OF rt_step.report [OF assms(2) job this]], of rt_busy] remove1_shorter [OF job]
    show ?thesis by simp
  qed simp
  have pool: "pool_jobCh p = []"
  proof (cases "pool_jobCh p")
    case (Cons job rest)
    obtain granted p' sched' where start: "start_job ops 0 job (p\<lparr>pool_jobCh := rest\<rparr>) (srv_sched (rt_server rt)) =
        (granted, p', sched')" by (metis prod_cases3)
    have "length (rt_busy rt) < live_workers p" using busy assms(4) by simp
    from arg_cong [OF still [OF rt_step.claim [OF assms(2) this Cons start]], of "\<lambda>r. srv_pool (rt_server r)"]
    have "p' = p" using assms(2) by simp
    moreover have "pool_jobCh p' = rest"
      using start by (auto simp: start_job_def Let_def split: prod.splits if_splits)
    ultimately show ?thesis using Cons by simp
  qed simp
  have "jobCh (srv_sched (rt_server rt)) = []"
  proof (cases "jobCh (srv_sched (rt_server rt))")
    case (Cons job rest)
    then have next': "GetNextJob None False (srv_sched (rt_server rt)) =
        (Some (Inr job), (srv_sched (rt_server rt))\<lparr>jobCh := rest\<rparr>)" by (simp add: GetNextJob_def)
    have "int (length (pool_jobCh p)) < pool_capacity p" using pool assms(5) by simp
    from arg_cong [OF still [OF rt_step.fetch [OF assms(2,3) next' this]], of "\<lambda>r. srv_pool (rt_server r)"] assms(2)
    have "p\<lparr>pool_jobCh := pool_jobCh p @ [job]\<rparr> = p" by simp
    from arg_cong [OF this, of pool_jobCh] show ?thesis by simp
  qed simp
  with cycle delayed stuck busy pool assms(2) show ?thesis by (simp add: in_channels_def)
qed

text \<open>At rest the recovery manager has nothing left to find, whatever its clock says.\<close>

lemma rest_none_running:
  assumes "at_rest ops env srt cvt rt" and "inv (sch_store (srv_sched (rt_server rt)))" and "rt_stuck rt = []"
    and "jobs_of (sch_store (srv_sched (rt_server rt))) i = Some j" and "State j = JobStateRunning"
  shows "StartedAt j = 0"
proof (rule ccontr)
  assume started: "StartedAt j \<noteq> 0"
  have "StartedAt j < ago (StartedAt j + 1) 0" by (simp add: ago_def int64_range_def)
  with GetStuck [OF assms(2), of "StartedAt j + 1" 0] started assms(4,5) obtain js
    where js: "GetStuck ops (StartedAt j + 1) 0 (sch_store (srv_sched (rt_server rt))) = Inr js" "j \<in> set js"
    by blast
  from arg_cong [OF at_restD [OF assms(1) rt_step.stuck_begin [OF assms(3) js(1)]], of rt_stuck] assms(3) js(2)
  show False by simp
qed

lemma drain_invariant:
  assumes "rt_steps ops env srt cvt (\<lambda>r. False) rt rt'"
    and "inv (sch_store (srv_sched (rt_server rt)))" and "loops_ended rt"
  shows "inv (sch_store (srv_sched (rt_server rt'))) \<and> loops_ended rt'"
  using assms
proof (induction rule: rt_steps.induct)
  case (rt_more rt rt1 rt2)
  then show ?case using drain_step [OF rt_more.hyps(2)] by (cases "rt2 = rt1") auto
qed simp

lemma no_endless_run:
  assumes "inv (sch_store (srv_sched (rt_server (f 0))))" and "loops_ended (f 0)"
    and "\<And>n. rt_step ops env srt cvt (\<lambda>r. False) (f n) (f (Suc n)) \<and> f (Suc n) \<noteq> f n"
  shows False
proof -
  have ok: "inv (sch_store (srv_sched (rt_server (f n)))) \<and> loops_ended (f n)" for n
    by (induction n) (use assms drain_step in blast)+
  have "(f (Suc n), f n) \<in> drain_order jobs_of" for n
    using drain_step assms(3) ok by blast
  with wf_no_infinite_down_chainE [OF wf_drain_order] show False by metis
qed

lemma comes_to_rest:
  assumes "inv (sch_store (srv_sched (rt_server rt)))" and "loops_ended rt"
  shows "\<exists>rt'. rt_steps ops env srt cvt (\<lambda>r. False) rt rt' \<and> at_rest ops env srt cvt rt'"
  using assms
proof (induction rt rule: wf_induct_rule [OF wf_drain_order, of jobs_of])
  case (1 rt)
  show ?case
  proof (cases "at_rest ops env srt cvt rt")
    case True
    then show ?thesis using rt_steps.rt_refl by blast
  next
    case False
    then obtain rt1 where step: "rt_step ops env srt cvt (\<lambda>r. False) rt rt1" "rt1 \<noteq> rt"
      by (auto simp: at_rest_def)
    from drain_step [OF step 1(2,3)] 1(1) obtain rt' where
      "rt_steps ops env srt cvt (\<lambda>r. False) rt1 rt'" "at_rest ops env srt cvt rt'" by blast
    with rt_steps_trans [OF _ rt_steps_one [OF step(1)]] show ?thesis by blast
  qed
qed

end

lemma rt_step_pool:
  assumes "rt_step ops env srt cvt (\<lambda>r. False) rt rt'" and "srv_pool (rt_server rt) = Some p"
  shows "\<exists>p'. srv_pool (rt_server rt') = Some p' \<and> same_pool p p'"
  using assms
proof cases
  case (claim p0 job rest t granted p' sched')
  with start_job_frame [OF claim(5)] assms(2) show ?thesis by (simp add: same_pool_def)
next
  case (report p0 job clk p' sched')
  with finish_job_frame [OF report(4)] assms(2) show ?thesis by simp
qed (auto simp: same_pool_def put_sched_def put_pool_def put_store_def)

lemma rt_steps_pool:
  assumes "rt_steps ops env srt cvt (\<lambda>r. False) rt rt'" and "srv_pool (rt_server rt) = Some p"
  shows "\<exists>p'. srv_pool (rt_server rt') = Some p' \<and> same_pool p p'"
  using assms
proof (induction rule: rt_steps.induct)
  case (rt_more rt rt1 rt2)
  then obtain p1 where p1: "srv_pool (rt_server rt1) = Some p1" "same_pool p p1" by blast
  from rt_step_pool [OF rt_more.hyps(2) p1(1)] p1(2) show ?case by (auto simp: same_pool_def)
qed (simp add: same_pool_def)

section \<open>The program comes to rest\<close>



section \<open>What the pool tells of itself\<close>

text \<open>
  The counters of the pool against the jobs that its workers execute and the claims granted.
  A job that is executed can be missing from \<open>processingIDs\<close>: a second copy of it, whose claim
  is refused, takes the entry away.
\<close>

definition pool_accounts :: "SimplePool \<Rightarrow> Job list \<Rightarrow> uuid list \<Rightarrow> bool" where
  "pool_accounts p busy claims \<longleftrightarrow> activeCount p = int (length busy) \<and> length busy \<le> live_workers p \<and>
     fst ` set (processingIDs p) \<subseteq> ID ` set busy \<and> int (length (pool_jobCh p)) \<le> pool_capacity p \<and>
     wrap64 (succeeded p + pool_failed p + int (length busy)) = wrap64 (int (length claims))"

lemma wrap64_add [simp]: "wrap64 (wrap64 a + b) = wrap64 (a + b)" "wrap64 (a + wrap64 b) = wrap64 (a + b)"
  by (simp_all add: wrap64_word)

lemma AList_update_keys: "fst ` set (AList.update k v al) = insert k (fst ` set al)"
  by (simp add: dom_update)

lemma AList_delete_keys: "fst ` set (AList.delete k al) = fst ` set al - {k}"
  by (auto simp: AList.delete_eq)

lemma start_job_accounts:
  assumes "start_job ops t job p sched = (granted, p', sched')"
  shows "activeCount p' = activeCount p + (if granted then 1 else 0) \<and>
    fst ` set (processingIDs p') \<subseteq> fst ` set (processingIDs p) \<union> (if granted then {ID job} else {}) \<and>
    succeeded p' = succeeded p \<and> pool_failed p' = pool_failed p \<and> pool_jobCh p' = pool_jobCh p"
proof -
  have "processingIDs p' = (if granted then AList.update (ID job) True (processingIDs p)
      else AList.delete (ID job) (AList.update (ID job) True (processingIDs p)))"
    using assms by (auto simp: start_job_def Let_def split: prod.splits if_splits)
  then have "fst ` set (processingIDs p') \<subseteq> fst ` set (processingIDs p) \<union> (if granted then {ID job} else {})"
    by (cases granted) (simp_all add: AList_update_keys AList_delete_keys)
  with assms show ?thesis by (auto simp: start_job_def Let_def split: prod.splits if_splits)
qed

lemma process_claimed_counts:
  assumes "process_claimed ops cvt clk job p sched = (p', sched')"
  shows "pool_jobCh p' = pool_jobCh p \<and>
    (succeeded p' = wrap64 (succeeded p + 1) \<and> pool_failed p' = pool_failed p \<or>
     succeeded p' = succeeded p \<and> pool_failed p' = wrap64 (pool_failed p + 1))"
  using assms by (auto simp: process_claimed_def Let_def split: option.splits prod.splits)

lemma finish_job_accounts:
  assumes "finish_job ops cvt clk job p sched = (p', sched')"
  shows "pool_jobCh p' = pool_jobCh p \<and>
    wrap64 (succeeded p' + pool_failed p') = wrap64 (succeeded p + pool_failed p + 1)"
proof -
  obtain p2 sched2 where c: "process_claimed ops cvt clk job p sched = (p2, sched2)" by fastforce
  from process_claimed_counts [OF c] assms c show ?thesis
    by (auto simp: finish_job_def algebra_simps)
qed

lemma GetNextJob_pops:
  "GetNextJob None b sched = (Some (Inr job), sched') \<Longrightarrow> same_loops sched sched'"
  by (auto simp: GetNextJob_def same_loops_def split: list.splits)

lemma rt_step_accounts:
  assumes "rt_step ops env srt cvt allowed rt rt'"
    and "srv_pool (rt_server rt) = Some p" and "pool_accounts p (rt_busy rt) (rt_claims rt)"
  shows "\<exists>p'. srv_pool (rt_server rt') = Some p' \<and> same_pool p p' \<and>
    pool_accounts p' (rt_busy rt') (rt_claims rt')"
proof -
  note acc = assms(3) [unfolded pool_accounts_def]
  from assms(1) show ?thesis
  proof cases
    case (fetch p0 job sched')
    with assms(2,3) show ?thesis by (simp add: pool_accounts_def same_pool_def pool_capacity_def)
  next
    case (claim p0 job rest t granted p' sched')
    from claim(2) assms(2) have p0: "p0 = p" by simp
    have eff: "activeCount p' = activeCount p + (if granted then 1 else 0)"
      "fst ` set (processingIDs p') \<subseteq> fst ` set (processingIDs p) \<union> (if granted then {ID job} else {})"
      "succeeded p' = succeeded p" "pool_failed p' = pool_failed p" "pool_jobCh p' = rest"
      using start_job_accounts [OF claim(5)] p0 by simp_all
    have frame: "same_pool p p'" using start_job_frame [OF claim(5)] p0 by (simp add: same_pool_def)
    have "wrap64 (succeeded p + pool_failed p + (1 + int (length (rt_busy rt)))) = wrap64 (1 + int (length (rt_claims rt)))"
      using acc wrap64_add(2) [of 1] by (metis add.left_commute)
    moreover have "fst ` set (processingIDs p') \<subseteq> ID ` set (if granted then rt_busy rt @ [job] else rt_busy rt)"
      using acc eff(2) by (cases granted) auto
    ultimately show ?thesis
      using claim(1,3,4) p0 acc eff(1,3-5) frame same_pool_capacity [OF frame]
      by (auto simp: pool_accounts_def same_pool_def)
  next
    case (report p0 job clk p' sched')
    from report(2) assms(2) have p0: "p0 = p" by simp
    note frame = finish_job_frame [OF report(4) [unfolded p0]]
    note counts = finish_job_accounts [OF report(4) [unfolded p0]]
    have len: "length (rt_busy rt) = Suc (length (remove1 job (rt_busy rt)))"
      using report(3) by (simp add: length_remove1) (metis Suc_pred length_pos_if_in_set)
    have keys: "fst ` set (processingIDs p') \<subseteq> ID ` set (remove1 job (rt_busy rt))"
    proof
      fix i assume "i \<in> fst ` set (processingIDs p')"
      with frame have i: "i \<in> fst ` set (processingIDs p)" "i \<noteq> ID job" by (auto simp: AList_delete_keys)
      with acc obtain j where "j \<in> set (rt_busy rt)" "i = ID j" by auto
      with i(2) have "j \<in> set (remove1 job (rt_busy rt))" by (metis in_set_remove1)
      with \<open>i = ID j\<close> show "i \<in> ID ` set (remove1 job (rt_busy rt))" by simp
    qed
    have "wrap64 (succeeded p' + pool_failed p' + int (length (remove1 job (rt_busy rt)))) =
        wrap64 (int (length (rt_claims rt)))"
      using acc counts len wrap64_add(1) by (metis add.assoc add.commute of_nat_Suc)
    then show ?thesis
      using report(1) p0 acc counts frame same_pool_capacity [of p p'] keys len
      by (auto simp: pool_accounts_def same_pool_def)
  next
    case (request r newIDs flusher kord pord clk events srv')
    from ServeHTTP_channels [OF request(4)] request(1) assms(2,3) show ?thesis
      by (simp add: same_channels_def same_pool_def)
  qed (use assms(2,3) in \<open>simp_all add: same_pool_def\<close>)
qed

lemma rt_steps_accounts:
  assumes "rt_steps ops env srt cvt allowed rt rt'"
    and "srv_pool (rt_server rt) = Some p" and "pool_accounts p (rt_busy rt) (rt_claims rt)"
  shows "\<exists>p'. srv_pool (rt_server rt') = Some p' \<and> same_pool p p' \<and>
    pool_accounts p' (rt_busy rt') (rt_claims rt')"
  using assms
proof (induction rule: rt_steps.induct)
  case (rt_more rt rt1 rt2)
  then obtain p1 where p1: "srv_pool (rt_server rt1) = Some p1" "same_pool p p1"
    "pool_accounts p1 (rt_busy rt1) (rt_claims rt1)" by blast
  from rt_step_accounts [OF rt_more.hyps(2) p1(1,3)] p1(2) show ?case by (auto simp: same_pool_def)
qed (simp add: same_pool_def)

lemma runServe_pool_idle:
  assumes "runServe parse ended newID clk flags st = Returns (Inr sys)"
  shows "\<exists>p. srv_pool (sys_server sys) = Some p \<and> Concurrency (pool_config p) = workers flags \<and>
    pool_accounts p [] []"
  using assms
  by (auto simp: runServe_def NewPriorityScheduler_def sched_Start_def NewSimplePool_def pool_Start_def
      rec_Start_def NewSimpleRecoveryManager_def NewServer_def DefaultSchedulerConfig_def Let_def
      pool_capacity_def serve_pool_config_def registerExampleHandlers_def RegisterHandler_def
      pool_accounts_def split: if_splits)



end
