(* ===== verification/GQ_Crash.thy ===== *)
theory GQ_Crash
  imports GQ_Open GQ_Drain
begin

text \<open>
  The program over several lives: it can crash between any two steps and be started again over
  the store that the crash left. What was in memory is gone, the rounds of the loops, the two
  channels and the jobs being executed; the stored jobs are as they were. (A crash inside a
  step, between the update of a finished job and the writing of its result, is not covered.)
\<close>

section \<open>Lives\<close>

text \<open>The history of claims goes on over a restart; \<open>cmd/gq serve\<close> may have other flags each time.\<close>

inductive rt_lives ::
    "'s JobStore \<Rightarrow> api_env \<Rightarrow> sorter \<Rightarrow> (float64 \<Rightarrow> int) \<Rightarrow> (api_request \<Rightarrow> bool) \<Rightarrow>
       's Runtime \<Rightarrow> 's Runtime \<Rightarrow> bool"
  for ops env sort_slice cvt allowed where
  life_refl: "rt_lives ops env sort_slice cvt allowed rt rt"
| life_step: "rt_lives ops env sort_slice cvt allowed rt rt1 \<Longrightarrow>
     rt_step ops env sort_slice cvt allowed rt1 rt2 \<Longrightarrow> rt_lives ops env sort_slice cvt allowed rt rt2"
| life_restart: "rt_lives ops env sort_slice cvt allowed rt rt1 \<Longrightarrow>
     runServe parse ended newID clk flags (sch_store (srv_sched (rt_server rt1))) = Returns (Inr sys) \<Longrightarrow>
     rt_lives ops env sort_slice cvt allowed rt ((runtime_of sys)\<lparr>rt_claims := rt_claims rt1\<rparr>)"

lemma life_steps:
  "rt_steps ops env srt cvt allowed rt1 rt2 \<Longrightarrow> rt_lives ops env srt cvt allowed rt rt1 \<Longrightarrow>
     rt_lives ops env srt cvt allowed rt rt2"
  by (induction rule: rt_steps.induct) (auto intro: life_step)

section \<open>The invariant over a restart\<close>

context running
begin

lemma once_inv_begin:
  assumes "runServe parse ended newID clk flags st = Returns (Inr sys)"
    and "inv st" and "\<And>i. jobs_of st i = None"
  shows "once_inv inv jobs_of (runtime_of sys)"
  using runServe_ready [OF assms(1)] assms(2,3)
  by (auto simp: once_inv_def runtime_of_def server_ok_def once_jobs_def once_cycle_def once_stuck_def)

lemma once_inv_restart:
  assumes "once_inv inv jobs_of rt"
    and "runServe parse ended newID clk flags (sch_store (srv_sched (rt_server rt))) = Returns (Inr sys)"
  shows "once_inv inv jobs_of ((runtime_of sys)\<lparr>rt_claims := rt_claims rt\<rparr>)"
proof -
  note old = once_invD [OF assms(1)]
  note jobs = once_jobs_chan [OF old(5), of "{}"]
  from runServe_ready [OF assms(2)] old(1,3) jobs show ?thesis
    by (auto simp: once_inv_def runtime_of_def server_ok_def once_cycle_def once_stuck_def
        chan_ids_def in_channels_def)
qed

lemma once_inv_lives:
  assumes "rt_lives ops env sort_slice cvt (\<lambda>r. \<not> retry_request r) rt rt'"
    and "once_inv inv jobs_of rt" and "uuid_texts_ok env"
  shows "once_inv inv jobs_of rt'"
  using assms
  by (induction rule: rt_lives.induct) (auto intro: once_inv_step once_inv_restart)

end

section \<open>The durable store over the reference database\<close>

lemma ref_writable: "bolt_writable ref_env db j"
  using ref.uuid_nonempty [of "ID j"] by (simp add: bolt_writable_def encodeJob_def ref_put_def ref_encode_job_def)

interpretation ref_running: running "bolt_store ref_env" "bolt_inv ref_env ref_ok" "bolt_writable ref_env"
  "bolt_jobs_of ref_env" "bolt_results_of ref_env" "bolt_checkpoints_of ref_env" "bolt_idem_of ref_env"
  insertion_sort
proof (rule running.intro [OF _ ins.go_sort_axioms], rule reliable_store.intro [OF ref.store.job_store_axioms],
    rule reliable_store_axioms.intro)
  show "bolt_writable ref_env s j" for s j by (rule ref_writable)
  show "\<exists>s'. SaveResult (bolt_store ref_env) r s = (None, s')" if "bolt_inv ref_env ref_ok s" for s r
    using ref.uuid_nonempty [of "JobID r"]
    by (simp add: bolt_SaveResult_def encodeResult_def ref_encode_result_def ref_put_def
        db_Update_only_def db_Update_def)
qed

section \<open>A job that was running at the crash\<close>

text \<open>Nobody executes the job, and it is stored, if at all, as it was or as the recovery left it.\<close>

definition abandoned :: "('s \<Rightarrow> uuid \<Rightarrow> Job option) \<Rightarrow> uuid \<Rightarrow> 's Runtime \<Rightarrow> bool" where
  "abandoned jobs_of i rt \<longleftrightarrow> i \<in> set (rt_claims rt) \<and> i \<notin> ID ` set (rt_busy rt) \<and>
     (\<forall>j. jobs_of (sch_store (srv_sched (rt_server rt))) i = Some j \<longrightarrow>
        State j \<in> {JobStateRunning, JobStateRetrying, JobStateDeadLetter, JobStateCancelled})"

lemma abandoned_keep:
  assumes "abandoned jobs_of i rt"
    and "jobs_of (sch_store (srv_sched (rt_server rt'))) i = jobs_of (sch_store (srv_sched (rt_server rt))) i"
    and "rt_claims rt' = rt_claims rt" and "set (rt_busy rt') \<subseteq> set (rt_busy rt)"
  shows "abandoned jobs_of i rt'"
  using assms unfolding abandoned_def by auto

context running
begin

lemma recover_one_state:
  assumes "inv s" and "recover_jobs ops clk [job] n m s = (n', m', s')"
  shows "jobs_of s' = jobs_of s \<or> (\<exists>j'. jobs_of s' = (jobs_of s)(ID job \<mapsto> j') \<and>
    State j' \<in> {JobStateRetrying, JobStateDeadLetter})"
proof -
  let ?r = "recovered_job (clk 0) (clk 1) job"
  obtain j' e s1 where upd: "Update ops (clk 2) ?r s = (j', e, s1)" by (metis prod_cases3)
  then have s': "s' = s1" using assms(2) by (auto split: if_splits)
  have "State (?r\<lparr>UpdatedAt := clk 2\<rparr>) \<in> {JobStateRetrying, JobStateDeadLetter}" by simp
  moreover from assms(1) upd have "jobs_of s1 = jobs_of s \<or> jobs_of s1 = (jobs_of s)(ID job \<mapsto> ?r\<lparr>UpdatedAt := clk 2\<rparr>)"
    by (cases rule: Update_cases) simp_all
  ultimately show ?thesis unfolding s' by blast
qed

lemma abandoned_step:
  assumes "rt_step ops env sort_slice cvt (\<lambda>r. \<not> retry_request r) rt rt'"
    and "once_inv inv jobs_of rt" and "once_inv inv jobs_of rt'" and "abandoned jobs_of i rt"
    and "uuid_texts_ok env"
  shows "abandoned jobs_of i rt'"
proof -
  note old = once_invD [OF assms(2)] and new = once_invD [OF assms(3)]
  note gone = assms(4) [unfolded abandoned_def]
  let ?jobs = "jobs_of (sch_store (srv_sched (rt_server rt)))"
  have not_scheduled: False
    if "jobs_of (sch_store (srv_sched (rt_server rt'))) i = Some j" "State j = JobStateScheduled"
      "rt_claims rt' = rt_claims rt" for j
    using once_jobsD [OF new(5) that(1)] that(2,3) gone by (simp add: once_job_def)
  from assms(1) show ?thesis
  proof cases
    case (cycle_begin jobs)
    then show ?thesis by (intro abandoned_keep [OF assms(4)]) simp_all
  next
    case (cycle_send job jobs clk sent s' ch')
    note one = send_one_effect [OF old(1) cycle_send(3)]
    have "jobs_of s' i = ?jobs i"
    proof (rule ccontr)
      assume ne: "jobs_of s' i \<noteq> ?jobs i"
      then have "State job = JobStatePending" using one(3) by metis
      from one(4) [OF this] ne obtain j where "jobs_of s' i = Some j" "State j = JobStateScheduled"
        by (auto split: option.splits if_splits)
      with not_scheduled cycle_send(1) show False by simp
    qed
    with cycle_send(1) show ?thesis by (intro abandoned_keep [OF assms(4)]) simp_all
  next
    case (delayed_begin t jobs)
    then show ?thesis by (intro abandoned_keep [OF assms(4)]) simp_all
  next
    case (delayed_mark job jobs clk)
    with old(4) show ?thesis by simp
  next
    case (fetch p job sched')
    from fetch(4) have "sch_store sched' = sch_store (srv_sched (rt_server rt))"
      by (auto simp: GetNextJob_def split: list.splits)
    with fetch(1) show ?thesis by (intro abandoned_keep [OF assms(4)]) simp_all
  next
    case (claim p job rest t granted p' sched')
    from start_job_effect [OF old(1) claim(5)] have eff: "if granted
      then \<exists>j w. ?jobs (ID job) = Some j \<and> is_pending j \<and> jobs_of (sch_store sched') = ?jobs(ID job \<mapsto> claimed_by t w j)
      else jobs_of (sch_store sched') = ?jobs" by blast
    show ?thesis
    proof (cases granted)
      case True
      with new(3) claim(1) gone have "ID job \<noteq> i" by auto
      with True eff gone claim(1) show ?thesis unfolding abandoned_def by auto
    next
      case False
      with eff claim(1) show ?thesis by (intro abandoned_keep [OF assms(4)]) simp_all
    qed
  next
    case (report p job clk p' sched')
    from finish_job_effect [OF old(1) report(4)] have eff: "settles ?jobs (ID job) (jobs_of (sch_store sched'))" by blast
    have "ID job \<noteq> i" using report(3) gone by auto
    then have "jobs_of (sch_store sched') i = ?jobs i" using eff by (auto simp: settles_def)
    with report(1) set_remove1_subset [of job "rt_busy rt"] show ?thesis
      by (intro abandoned_keep [OF assms(4)]) simp_all
  next
    case (stuck_begin t d jobs)
    then show ?thesis by (intro abandoned_keep [OF assms(4)]) simp_all
  next
    case (stuck_recover job jobs clk n m n' m' s')
    from recover_one_state [OF old(1) stuck_recover(3)] gone stuck_recover(1) show ?thesis
      unfolding abandoned_def by (auto split: if_splits)
  next
    case (request r newIDs flusher kord pord clk events srv')
    from ServeHTTP_effect [OF old(2) assms(5) request(2,4)] have eff:
      "request_effect ?jobs (range newIDs) (jobs_of (sch_store (srv_sched srv')))" by blast
    have fresh: "i \<notin> range newIDs" using request(3) gone by (auto simp: new_uuid_def)
    have "State j \<in> {JobStateRunning, JobStateRetrying, JobStateDeadLetter, JobStateCancelled}"
      if "jobs_of (sch_store (srv_sched srv')) i = Some j" for j
    proof (cases "?jobs i = Some j")
      case False
      from eff show ?thesis unfolding request_effect_def
      proof (elim disjE exE)
        assume "adds ?jobs (range newIDs) (jobs_of (sch_store (srv_sched srv')))"
        with that fresh False show ?thesis unfolding adds_def by metis
      next
        fix k assume "cancels ?jobs k (jobs_of (sch_store (srv_sched srv')))"
        with that False show ?thesis by (auto simp: cancels_def split: if_splits)
      next
        fix k assume "jobs_of (sch_store (srv_sched srv')) = ?jobs(k := None)"
        with that False show ?thesis by (simp split: if_splits)
      qed
    qed (use gone in simp)
    with gone request(1) show ?thesis unfolding abandoned_def by simp
  qed
qed

lemma abandoned_restart:
  assumes "abandoned jobs_of i rt"
    and "runServe parse ended newID clk flags (sch_store (srv_sched (rt_server rt))) = Returns (Inr sys)"
  shows "abandoned jobs_of i ((runtime_of sys)\<lparr>rt_claims := rt_claims rt\<rparr>)"
  using assms(1) runServe_ready [OF assms(2)] by (auto simp: abandoned_def runtime_of_def)

lemma abandoned_lives:
  assumes "rt_lives ops env sort_slice cvt (\<lambda>r. \<not> retry_request r) rt rt'"
    and "once_inv inv jobs_of rt" and "abandoned jobs_of i rt" and "uuid_texts_ok env"
  shows "abandoned jobs_of i rt'"
  using assms
proof (induction rule: rt_lives.induct)
  case (life_step rt rt1 rt2)
  have "once_inv inv jobs_of rt1" by (rule once_inv_lives [OF life_step.hyps(1) life_step.prems(1,3)])
  moreover from this have "once_inv inv jobs_of rt2" by (rule once_inv_step [OF life_step.hyps(2) _ life_step.prems(3)])
  ultimately show ?case using abandoned_step [OF life_step.hyps(2)] life_step by blast
qed (auto intro: abandoned_restart)

end

section \<open>Properties of the program over its lives\<close>

lemma count_list_once: "distinct xs \<Longrightarrow> x \<in> set xs \<Longrightarrow> count_list xs x = 1"
  by (induction xs) (auto simp: count_list_0_iff)


text \<open>A run that crashes while a worker executes a job, over the durable store.\<close>

lemma crash_while_running:
  obtains sys rt sys2 j where
    "runServe (\<lambda>t. None) (\<lambda>d t n. None) '''' (\<lambda>_. 0) default_serve_flags ref_empty = Returns (Inr sys)"
    "rt_lives (bolt_store ref_env) echo_env insertion_sort cvt_amd64 (\<lambda>r. \<not> retry_request r) (runtime_of sys) rt"
    "rt_claims rt = [1]" "rt_busy rt \<noteq> []"
    "bolt_jobs_of ref_env (sch_store (srv_sched (rt_server rt))) 1 = Some j" "State j = JobStateRunning"
    "runServe (\<lambda>t. None) (\<lambda>d t n. None) '''' (\<lambda>_. 0) default_serve_flags (sch_store (srv_sched (rt_server rt))) =
       Returns (Inr sys2)"
proof -
  obtain sys where sys: "runServe (\<lambda>t. None) (\<lambda>d t n. None) '''' (\<lambda>_. 0) default_serve_flags ref_empty =
      Returns (Inr sys)" by (rule echo_serves)
  have create: "\<exists>s'. Create (bolt_store ref_env) job ref_empty = (None, s')"
    if "IdempotencyKey job = ReqIdempotencyKey ((example_submit '''')\<lparr>ReqType := ''echo'', ReqPayload := ''''\<rparr>)" for job
    using that ref_Create [of ref_empty job] by (simp add: example_submit_def) blast
  obtain rt j job where rt: "rt_steps (bolt_store ref_env) echo_env insertion_sort cvt_amd64
      (\<lambda>r. \<not> retry_request r) (runtime_of sys) rt" "rt_claims rt = [1]" "rt_busy rt = [job]"
    "bolt_jobs_of ref_env (sch_store (srv_sched (rt_server rt))) 1 = Some j" "State j = JobStateRunning"
    by (rule ref_running.echo_claimed [where allowed = "\<lambda>r. \<not> retry_request r", OF echo_example(1) sys ref_inv_empty _ create
          echo_example(6,7,2,3,4)]) simp_all
  obtain sys2 where "runServe (\<lambda>t. None) (\<lambda>d t n. None) '''' (\<lambda>_. 0) default_serve_flags
      (sch_store (srv_sched (rt_server rt))) = Returns (Inr sys2)" by (rule echo_serves)
  with that [OF sys life_steps [OF rt(1) life_refl]] rt show ?thesis by simp
qed


text \<open>
  C6: a job that a worker was executing when the program crashed is lost: after the restart it is
  never claimed again and never completes, however long the program runs and however often it is
  started again, unless a client asks for a retry. It stays stored as running, or the recovery
  manager marks it as retrying, a state that no loop takes up, or as a dead letter.
\<close>

theorem crashed_job_lost:
  assumes "running ops sinv storable jobs_of results_of checkpoints_of idem_of srt" and "uuid_texts_ok env"
    and "runServe parse ended newID clk flags st = Returns (Inr sys)"
    and "sinv st" and "\<And>i. jobs_of st i = None"
    and "rt_lives ops env srt cvt (\<lambda>r. \<not> retry_request r) (runtime_of sys) rt"
    and "jobs_of (sch_store (srv_sched (rt_server rt))) i = Some j" and "State j = JobStateRunning"
    and "runServe parse2 ended2 newID2 clk2 flags2 (sch_store (srv_sched (rt_server rt))) = Returns (Inr sys2)"
    and "rt_lives ops env srt cvt (\<lambda>r. \<not> retry_request r) ((runtime_of sys2)\<lparr>rt_claims := rt_claims rt\<rparr>) rt2"
  shows "count_list (rt_claims rt2) i = 1 \<and> i \<notin> ID ` set (rt_busy rt2) \<and>
    (\<forall>j2. jobs_of (sch_store (srv_sched (rt_server rt2))) i = Some j2 \<longrightarrow>
       State j2 \<in> {JobStateRunning, JobStateRetrying, JobStateDeadLetter, JobStateCancelled})"
proof -
  let ?start = "(runtime_of sys2)\<lparr>rt_claims := rt_claims rt\<rparr>"
  have inv: "once_inv sinv jobs_of rt"
    by (rule running.once_inv_lives [OF assms(1,6) running.once_inv_begin [OF assms(1,3-5)] assms(2)])
  note inv2 = running.once_inv_restart [OF assms(1) inv assms(9)]
  have "i \<in> set (rt_claims rt)"
    using once_jobD(3) [OF once_jobsD [OF running.once_invD(5) [OF assms(1) inv] assms(7)] assms(8)] .
  then have "abandoned jobs_of i ?start"
    using runServe_ready [OF assms(9)] assms(7,8) by (auto simp: abandoned_def runtime_of_def)
  from running.abandoned_lives [OF assms(1,10) inv2 this assms(2)] have gone: "abandoned jobs_of i rt2" .
  have "distinct (rt_claims rt2)"
    using running.once_invD(3) [OF assms(1) running.once_inv_lives [OF assms(1,10) inv2 assms(2)]] .
  moreover have "i \<in> set (rt_claims rt2)" using gone by (simp add: abandoned_def)
  ultimately have "count_list (rt_claims rt2) i = 1" by (rule count_list_once)
  with gone show ?thesis by (simp add: abandoned_def)
qed

theorem crashed_job_lost_witness:
  "\<exists>sys rt sys2. rt_lives (bolt_store ref_env) echo_env insertion_sort cvt_amd64 (\<lambda>r. \<not> retry_request r)
       (runtime_of sys) rt \<and> ID ` set (rt_busy rt) = {1} \<and>
     runServe (\<lambda>t. None) (\<lambda>d t n. None) '''' (\<lambda>_. 0) default_serve_flags (sch_store (srv_sched (rt_server rt))) =
       Returns (Inr sys2) \<and>
     count_list (rt_claims ((runtime_of sys2)\<lparr>rt_claims := rt_claims rt\<rparr>)) 1 = 1 \<and>
     (\<exists>j. bolt_jobs_of ref_env (sch_store (srv_sched (sys_server sys2))) 1 = Some j \<and>
        State j \<in> {JobStateRunning, JobStateRetrying, JobStateDeadLetter, JobStateCancelled})"
proof -
  obtain sys rt sys2 j where run: "runServe (\<lambda>t. None) (\<lambda>d t n. None) '''' (\<lambda>_. 0) default_serve_flags ref_empty =
      Returns (Inr sys)"
    "rt_lives (bolt_store ref_env) echo_env insertion_sort cvt_amd64 (\<lambda>r. \<not> retry_request r) (runtime_of sys) rt"
    "rt_claims rt = [1]" "rt_busy rt \<noteq> []"
    "bolt_jobs_of ref_env (sch_store (srv_sched (rt_server rt))) 1 = Some j" "State j = JobStateRunning"
    "runServe (\<lambda>t. None) (\<lambda>d t n. None) '''' (\<lambda>_. 0) default_serve_flags (sch_store (srv_sched (rt_server rt))) =
       Returns (Inr sys2)"
    by (rule crash_while_running)
  have busy: "ID ` set (rt_busy rt) = {1}"
    using ref_running.once_invD(8) [OF ref_running.once_inv_lives [OF run(2) ref_running.once_inv_begin
          [OF run(1) ref_inv_empty] echo_example(1)]] run(3,4) by (cases "rt_busy rt") auto
  have now: "bolt_jobs_of ref_env (sch_store (srv_sched (sys_server sys2))) 1 = Some j"
    using run(5) runServe_ready [OF run(7)] by auto
  from crashed_job_lost [OF ref_running.running_axioms echo_example(1) run(1) ref_inv_empty _ run(2,5,6,7) life_refl]
  have "count_list (rt_claims ((runtime_of sys2)\<lparr>rt_claims := rt_claims rt\<rparr>)) 1 = 1"
    "\<forall>j2. bolt_jobs_of ref_env (sch_store (srv_sched (sys_server sys2))) 1 = Some j2 \<longrightarrow>
       State j2 \<in> {JobStateRunning, JobStateRetrying, JobStateDeadLetter, JobStateCancelled}"
    by (simp_all add: runtime_of_def)
  with run(2,7) busy now show ?thesis by blast
qed

end
