(* ===== verification/GQ_Lifecycle.thy ===== *)
theory GQ_Lifecycle
  imports GQ_Crash
begin

text \<open>
  The life of a job as an abstract machine, and that the running program implements it. The
  machine has the transitions that the code can make when no client asks for a retry. Set
  beside the table in \<open>docs/JOB_MODEL.md\<close> it lacks the way back from RETRYING to SCHEDULED, and
  DELAYED altogether, and it has more: a job that a cycle took up is scheduled although it has
  been cancelled since, a report reaches a job that was recovered or cancelled meanwhile, and a
  recovery reaches a job that has finished meanwhile.
\<close>

section \<open>The machine\<close>

inductive moves :: "JobState \<Rightarrow> JobState \<Rightarrow> bool" where
  schedule: "moves JobStatePending JobStateScheduled"
| schedule_cancelled: "moves JobStateCancelled JobStateScheduled"
| claim_job: "st \<in> {JobStatePending, JobStateScheduled} \<Longrightarrow> moves st JobStateRunning"
| report_job: "st \<in> {JobStateRunning, JobStateRetrying, JobStateDeadLetter, JobStateCancelled} \<Longrightarrow>
     st' \<in> {JobStateCompleted, JobStateFailed, JobStateRetrying, JobStateDeadLetter} \<Longrightarrow> moves st st'"
| recover: "st \<in> {JobStateCompleted, JobStateFailed} \<Longrightarrow>
     st' \<in> {JobStateRetrying, JobStateDeadLetter} \<Longrightarrow> moves st st'"
| cancel: "st \<in> {JobStatePending, JobStateScheduled, JobStateRunning, JobStateRetrying} \<Longrightarrow>
     moves st JobStateCancelled"

text \<open>A step of the queue: each job stays, moves, is submitted or is deleted.\<close>

definition queue_step :: "(uuid \<Rightarrow> JobState option) \<Rightarrow> (uuid \<Rightarrow> JobState option) \<Rightarrow> bool" where
  "queue_step m m' \<longleftrightarrow> (\<forall>i. m' i = m i \<or> m i = None \<and> m' i = Some JobStatePending \<or> m' i = None \<or>
     (\<exists>st st'. m i = Some st \<and> m' i = Some st' \<and> moves st st'))"

definition states_of :: "('s \<Rightarrow> uuid \<Rightarrow> Job option) \<Rightarrow> 's Runtime \<Rightarrow> uuid \<Rightarrow> JobState option" where
  "states_of jobs_of rt i = map_option State (jobs_of (sch_store (srv_sched (rt_server rt))) i)"

lemma queue_step_refl: "queue_step m m"
  by (simp add: queue_step_def)

lemma queue_step_one:
  assumes "jobs i = Some j" and "jobs' = jobs(i \<mapsto> j')" and "State j' = State j \<or> moves (State j) (State j')"
  shows "queue_step (\<lambda>k. map_option State (jobs k)) (\<lambda>k. map_option State (jobs' k))"
  using assms by (auto simp: queue_step_def)

section \<open>Which states the operations meet and leave\<close>

text \<open>
  Jobs that are executed are executed once, and neither completed nor failed before their report.
\<close>

definition busy_states :: "(uuid \<Rightarrow> Job option) \<Rightarrow> Job list \<Rightarrow> bool" where
  "busy_states jobs busy \<longleftrightarrow> distinct (map ID busy) \<and>
     (\<forall>b \<in> set busy. \<forall>j. jobs (ID b) = Some j \<longrightarrow>
        State j \<in> {JobStateRunning, JobStateRetrying, JobStateDeadLetter, JobStateCancelled})"

lemma busy_states_upd:
  assumes "busy_states jobs busy" and "\<And>b. b \<in> set busy' \<Longrightarrow> b \<in> set busy" and "distinct (map ID busy')"
    and "\<And>b j. b \<in> set busy' \<Longrightarrow> jobs' (ID b) = Some j \<Longrightarrow> jobs' (ID b) \<noteq> jobs (ID b) \<Longrightarrow>
      State j \<in> {JobStateRunning, JobStateRetrying, JobStateDeadLetter, JobStateCancelled}"
  shows "busy_states jobs' busy'"
  unfolding busy_states_def
proof (intro conjI ballI allI impI)
  show "distinct (map ID busy')" by (rule assms(3))
  fix b j assume b: "b \<in> set busy'" "jobs' (ID b) = Some j"
  show "State j \<in> {JobStateRunning, JobStateRetrying, JobStateDeadLetter, JobStateCancelled}"
  proof (cases "jobs' (ID b) = jobs (ID b)")
    case True
    with b assms(1) assms(2) [OF b(1)] show ?thesis by (simp add: busy_states_def)
  next
    case False
    from assms(4) [OF b False] show ?thesis .
  qed
qed

lemma busy_states_one:
  assumes "busy_states jobs busy" and "jobs' = jobs(k \<mapsto> j')"
    and "State j' \<in> {JobStateRunning, JobStateRetrying, JobStateDeadLetter, JobStateCancelled}"
  shows "busy_states jobs' busy"
  using assms(1) by (rule busy_states_upd) (use assms in \<open>simp_all add: busy_states_def split: if_splits\<close>)

lemma busy_states_same:
  assumes "busy_states jobs busy" and "\<And>b. b \<in> set busy \<Longrightarrow> jobs' (ID b) = jobs (ID b)"
  shows "busy_states jobs' busy"
  using assms by (auto simp: busy_states_def)

lemma remove1_by_id:
  assumes "distinct (map f xs)" and "x \<in> set xs"
  shows "distinct (map f (remove1 x xs)) \<and> (\<forall>y \<in> set (remove1 x xs). y \<in> set xs \<and> f y \<noteq> f x)"
  using assms
proof (induction xs)
  case (Cons a xs)
  show ?case
  proof (cases "a = x")
    case True
    with Cons show ?thesis by (auto simp: image_iff)
  next
    case False
    with Cons show ?thesis by (auto simp: image_iff dest: notin_set_remove1)
  qed
qed simp

context job_store
begin

lemma finish_job_state:
  assumes "inv (sch_store sched)" and "finish_job ops cvt clk job p sched = (p', sched')"
  shows "jobs_of (sch_store sched') = jobs_of (sch_store sched) \<or>
    (\<exists>j j'. jobs_of (sch_store sched) (ID job) = Some j \<and>
       jobs_of (sch_store sched') = (jobs_of (sch_store sched))(ID job \<mapsto> j') \<and>
       State j' \<in> {JobStateCompleted, JobStateFailed, JobStateRetrying, JobStateDeadLetter})"
  using assms
proof (cases rule: finish_job_cases)
  case (completed s1 res e clk')
  then have inv1: "inv (sch_store (sched\<lparr>sch_store := s1\<rparr>))" by simp
  have "jobs_of (sch_store sched') = jobs_of s1 \<or> (\<exists>j. jobs_of s1 (ID job) = Some j \<and> jobs_of (sch_store sched') =
      (jobs_of s1)(ID job \<mapsto> j\<lparr>State := JobStateCompleted, CompletedAt := clk' 0, UpdatedAt := clk' 1\<rparr>))"
  proof (cases e)
    case None
    from Complete_ok [OF inv1 completed(5) [unfolded None]] show ?thesis by auto
  next
    case (Some x)
    from Complete_failed [OF inv1 completed(5) [unfolded Some]] show ?thesis by auto
  qed
  then show ?thesis
  proof (elim disjE exE conjE)
    assume "jobs_of (sch_store sched') = jobs_of s1"
    with completed(2) show ?thesis by simp
  next
    fix j assume j: "jobs_of s1 (ID job) = Some j" "jobs_of (sch_store sched') =
      (jobs_of s1)(ID job \<mapsto> j\<lparr>State := JobStateCompleted, CompletedAt := clk' 0, UpdatedAt := clk' 1\<rparr>)"
    show ?thesis
      by (rule disjI2, rule exI [of _ j], rule exI) (use j completed(2) in \<open>auto intro!: conjI\<close>)
  qed
next
  case (failed s1 res e clk')
  then have inv1: "inv (sch_store (sched\<lparr>sch_store := s1\<rparr>))" by simp
  show ?thesis
  proof (cases "jobs_of (sch_store sched) (ID job)")
    case None
    with failed inv1 show ?thesis by (auto simp: Fail_def Get)
  next
    case (Some j)
    then have j: "jobs_of (sch_store (sched\<lparr>sch_store := s1\<rparr>)) (ID job) = Some j" using failed(2) by simp
    have st: "State (failed_job cvt clk' res j) \<in> {JobStateFailed, JobStateRetrying, JobStateDeadLetter}"
      by (simp add: failed_job_def)
    from inv1 j failed(5) show ?thesis
      by (cases rule: Fail_cases) (use failed(2) Some st in auto)
  qed
qed

end

context running
begin

lemma lifecycle_step:
  assumes "rt_step ops env sort_slice cvt (\<lambda>r. \<not> retry_request r) rt rt'"
    and "once_inv inv jobs_of rt" and "once_inv inv jobs_of rt'" and "uuid_texts_ok env"
    and "busy_states (jobs_of (sch_store (srv_sched (rt_server rt)))) (rt_busy rt)"
  shows "busy_states (jobs_of (sch_store (srv_sched (rt_server rt')))) (rt_busy rt') \<and>
    queue_step (states_of jobs_of rt) (states_of jobs_of rt')"
proof -
  note old = once_invD [OF assms(2)] and new = once_invD [OF assms(3)]
  let ?jobs = "jobs_of (sch_store (srv_sched (rt_server rt)))"
  have same: "busy_states (jobs_of (sch_store (srv_sched (rt_server rt')))) (rt_busy rt') \<and>
      queue_step (states_of jobs_of rt) (states_of jobs_of rt')"
    if "jobs_of (sch_store (srv_sched (rt_server rt'))) = ?jobs" "rt_busy rt' = rt_busy rt"
    using assms(5) that by (simp add: states_of_def queue_step_def)
  have claimed: "State j \<in> {JobStateRunning, JobStateCompleted, JobStateFailed, JobStateDeadLetter,
      JobStateRetrying, JobStateCancelled}" if "?jobs k = Some j" "k \<in> set (rt_claims rt)" for j k
    using once_jobsD [OF old(5) that(1)] that(2) by (simp add: once_job_def)
  have waiting: "State j \<in> {JobStatePending, JobStateScheduled, JobStateCancelled}"
    if "?jobs k = Some j" "k \<notin> set (rt_claims rt)" for j k
    using once_jobsD [OF old(5) that(1)] that(2) by (simp add: once_job_def)
  have busy: "b \<in> set (rt_busy rt) \<Longrightarrow> ID b \<in> set (rt_claims rt)" for b using old(8) by blast
  from assms(1) show ?thesis
  proof cases
    case (cycle_begin jobs)
    then show ?thesis by (intro same) simp_all
  next
    case (cycle_send job jobs clk sent s' ch')
    note one = send_one_effect [OF old(1) cycle_send(3)]
    show ?thesis
    proof (cases "State job = JobStatePending \<and> ?jobs (ID job) \<noteq> None")
      case False
      with one(3,4) have "jobs_of s' = ?jobs" by (cases "State job = JobStatePending") auto
      with cycle_send(1) show ?thesis by (intro same) simp_all
    next
      case True
      then obtain j where j: "?jobs (ID job) = Some j" by blast
      let ?j' = "j\<lparr>State := JobStateScheduled, UpdatedAt := clk 0\<rparr>"
      have upd: "jobs_of s' = ?jobs(ID job \<mapsto> ?j')" using one(4) True j by simp
      have fresh: "ID job \<notin> set (rt_claims rt)"
        using old(6) cycle_send(2) True by (simp add: once_cycle_def)
      have "State ?j' = State j \<or> moves (State j) (State ?j')"
        using waiting [OF j fresh] by (auto intro: schedule schedule_cancelled)
      from queue_step_one [OF j upd this] have "queue_step (states_of jobs_of rt) (states_of jobs_of rt')"
        using cycle_send(1) by (simp add: states_of_def [abs_def])
      moreover have "ID b \<noteq> ID job" if "b \<in> set (rt_busy rt)" for b using busy [OF that] fresh by auto
      then have "busy_states (jobs_of s') (rt_busy rt)"
        using assms(5) by (intro busy_states_upd [OF assms(5)]) (auto simp: upd busy_states_def)
      ultimately show ?thesis using cycle_send(1) by simp
    qed
  next
    case (delayed_begin t jobs)
    then show ?thesis by (intro same) simp_all
  next
    case (delayed_mark job jobs clk)
    with old(4) show ?thesis by simp
  next
    case (fetch p job sched')
    from fetch(4) have "sch_store sched' = sch_store (srv_sched (rt_server rt))"
      by (auto simp: GetNextJob_def split: list.splits)
    with fetch(1) show ?thesis by (intro same) simp_all
  next
    case (claim p job rest t granted p' sched')
    from start_job_effect [OF old(1) claim(5)] have eff: "if granted
      then \<exists>j w. ?jobs (ID job) = Some j \<and> is_pending j \<and> jobs_of (sch_store sched') = ?jobs(ID job \<mapsto> claimed_by t w j)
      else jobs_of (sch_store sched') = ?jobs" by blast
    show ?thesis
    proof (cases granted)
      case False
      with eff claim(1) show ?thesis by (intro same) simp_all
    next
      case True
      with eff obtain j w where j: "?jobs (ID job) = Some j" "is_pending j"
        and upd: "jobs_of (sch_store sched') = ?jobs(ID job \<mapsto> claimed_by t w j)" by auto
      have fresh: "ID job \<notin> set (rt_claims rt)" using True new(3) claim(1) by simp
      have "moves (State j) (State (claimed_by t w j))" using j(2) by (auto simp: is_pending_def intro: claim_job)
      from queue_step_one [OF j(1) upd disjI2 [OF this]] have
        "queue_step (states_of jobs_of rt) (states_of jobs_of rt')"
        using claim(1) by (simp add: states_of_def [abs_def])
      moreover have "ID job \<notin> ID ` set (rt_busy rt)" using busy fresh by auto
      then have "busy_states (jobs_of (sch_store sched')) (rt_busy rt @ [job])"
        using assms(5) by (auto simp: busy_states_def upd)
      ultimately show ?thesis using claim(1) True by simp
    qed
  next
    case (report p job clk p' sched')
    have "distinct (map ID (rt_busy rt))" using assms(5) unfolding busy_states_def by (rule conjunct1)
    from remove1_by_id [OF this report(3)]
    have d': "distinct (map ID (remove1 job (rt_busy rt)))"
      and rest: "\<And>b. b \<in> set (remove1 job (rt_busy rt)) \<Longrightarrow> b \<in> set (rt_busy rt)"
        "\<And>b. b \<in> set (remove1 job (rt_busy rt)) \<Longrightarrow> ID b \<noteq> ID job" by blast+
    from finish_job_state [OF old(1) report(4)] show ?thesis
    proof (elim disjE exE conjE)
      assume same': "jobs_of (sch_store sched') = ?jobs"
      have "busy_states ?jobs (remove1 job (rt_busy rt))"
        by (rule busy_states_upd [OF assms(5) rest(1) d']) simp_all
      with report(1) same' show ?thesis by (simp add: states_of_def queue_step_def)
    next
      fix j j' assume j: "?jobs (ID job) = Some j" and upd: "jobs_of (sch_store sched') = ?jobs(ID job \<mapsto> j')"
        and st: "State j' \<in> {JobStateCompleted, JobStateFailed, JobStateRetrying, JobStateDeadLetter}"
      have "State j \<in> {JobStateRunning, JobStateRetrying, JobStateDeadLetter, JobStateCancelled}"
        using assms(5) report(3) j by (simp add: busy_states_def)
      from queue_step_one [OF j upd disjI2 [OF report_job [OF this st]]] have
        "queue_step (states_of jobs_of rt) (states_of jobs_of rt')"
        using report(1) by (simp add: states_of_def [abs_def])
      moreover have "busy_states (jobs_of (sch_store sched')) (remove1 job (rt_busy rt))"
        by (rule busy_states_upd [OF assms(5) rest(1) d']) (simp_all add: upd rest(2))
      ultimately show ?thesis using report(1) by simp
    qed
  next
    case (stuck_begin t d jobs)
    then show ?thesis by (intro same) simp_all
  next
    case (stuck_recover job jobs clk n m n' m' s')
    have cl: "ID job \<in> set (rt_claims rt)" using old(7) stuck_recover(2) by (simp add: once_stuck_def)
    show ?thesis
    proof (cases "jobs_of s' = ?jobs")
      case True
      with stuck_recover(1) show ?thesis by (intro same) simp_all
    next
      case False
      with recover_one_effect [OF old(1) stuck_recover(3)] obtain j where j: "?jobs (ID job) = Some j" by auto
      from False recover_one_state [OF old(1) stuck_recover(3)] obtain j' where
        upd: "jobs_of s' = ?jobs(ID job \<mapsto> j')" and st: "State j' \<in> {JobStateRetrying, JobStateDeadLetter}" by blast
      have "State j' = State j \<or> moves (State j) (State j')"
        using claimed [OF j cl] st by (auto intro: recover report_job)
      from queue_step_one [OF j upd this] have "queue_step (states_of jobs_of rt) (states_of jobs_of rt')"
        using stuck_recover(1) by (simp add: states_of_def [abs_def])
      moreover have "busy_states (jobs_of s') (rt_busy rt)"
        by (rule busy_states_one [OF assms(5) upd]) (use st in auto)
      ultimately show ?thesis using stuck_recover(1) by simp
    qed
  next
    case (request r newIDs flusher kord pord clk events srv')
    let ?jobs' = "jobs_of (sch_store (srv_sched srv'))"
    from ServeHTTP_effect [OF old(2) assms(4) request(2,4)] have eff: "request_effect ?jobs (range newIDs) ?jobs'" by blast
    have fresh: "b \<in> set (rt_busy rt) \<Longrightarrow> ID b \<notin> range newIDs" for b
      using request(3) busy [of b] by (force simp: new_uuid_def)
    have "queue_step (\<lambda>k. map_option State (?jobs k)) (\<lambda>k. map_option State (?jobs' k)) \<and>
        busy_states ?jobs' (rt_busy rt)"
      using eff unfolding request_effect_def
    proof (elim disjE exE)
      assume a: "adds ?jobs (range newIDs) ?jobs'"
      have "queue_step (\<lambda>k. map_option State (?jobs k)) (\<lambda>k. map_option State (?jobs' k))"
        unfolding queue_step_def
      proof
        fix i
        from a [unfolded adds_def, rule_format, of i] show "map_option State (?jobs' i) = map_option State (?jobs i) \<or>
            map_option State (?jobs i) = None \<and> map_option State (?jobs' i) = Some JobStatePending \<or>
            map_option State (?jobs' i) = None \<or> (\<exists>st st'. map_option State (?jobs i) = Some st \<and>
              map_option State (?jobs' i) = Some st' \<and> moves st st')" by auto
      qed
      moreover have "busy_states ?jobs' (rt_busy rt)"
      proof (rule busy_states_same [OF assms(5)])
        fix b assume "b \<in> set (rt_busy rt)"
        from a [unfolded adds_def, rule_format, of "ID b"] fresh [OF this]
        show "?jobs' (ID b) = ?jobs (ID b)" by blast
      qed
      ultimately show ?thesis ..
    next
      fix k assume "cancels ?jobs k ?jobs'"
      then consider "?jobs' = ?jobs" | j j' where "?jobs k = Some j" "\<not> IsTerminal j"
        "?jobs' = ?jobs(k \<mapsto> j')" "State j' = JobStateCancelled"
        by (auto simp: cancels_def)
      then show ?thesis
      proof cases
        case 1
        with assms(5) show ?thesis by (simp add: queue_step_refl)
      next
        case (2 j j')
        have "State j \<in> {JobStatePending, JobStateScheduled, JobStateRunning, JobStateRetrying}"
          using 2(1,2) claimed [of k j] waiting [of k j] by (cases "k \<in> set (rt_claims rt)") (auto simp: IsTerminal_def)
        then have "moves (State j) (State j')" using 2(4) by (simp add: moves.cancel)
        then have "queue_step (\<lambda>k. map_option State (?jobs k)) (\<lambda>k. map_option State (?jobs' k))"
          by (intro queue_step_one [OF 2(1,3)] disjI2)
        moreover have "busy_states ?jobs' (rt_busy rt)"
          by (rule busy_states_one [OF assms(5) 2(3)]) (simp add: 2(4))
        ultimately show ?thesis ..
      qed
    next
      fix k assume k: "?jobs' = ?jobs(k := None)"
      then show ?thesis using assms(5) by (auto simp: queue_step_def busy_states_def)
    qed
    with request(1) show ?thesis by (simp add: states_of_def [abs_def])
  qed
qed

end

section \<open>The program implements the machine\<close>

context running
begin

lemma lifecycle_lives:
  assumes "rt_lives ops env sort_slice cvt (\<lambda>r. \<not> retry_request r) rt rt'"
    and "once_inv inv jobs_of rt" and "uuid_texts_ok env"
    and "busy_states (jobs_of (sch_store (srv_sched (rt_server rt)))) (rt_busy rt)"
  shows "busy_states (jobs_of (sch_store (srv_sched (rt_server rt')))) (rt_busy rt')"
  using assms
proof (induction rule: rt_lives.induct)
  case (life_step rt rt1 rt2)
  have "once_inv inv jobs_of rt1" by (rule once_inv_lives [OF life_step.hyps(1) life_step.prems(1,2)])
  moreover from this have "once_inv inv jobs_of rt2" by (rule once_inv_step [OF life_step.hyps(2) _ life_step.prems(2)])
  ultimately show ?case using lifecycle_step [OF life_step.hyps(2)] life_step by blast
qed (simp_all add: runtime_of_def busy_states_def)

end



section \<open>A completed job is taken back\<close>

context running
begin

lemma recover_one_result:
  assumes "inv s" and "jobs_of s (ID job) = Some j"
  obtains s' where "recover_jobs ops clk [job] n m s = (n + 1, wrap64 (m + 1), s')"
    "jobs_of s' = (jobs_of s)(ID job \<mapsto> (recovered_job (clk 0) (clk 1) job)\<lparr>UpdatedAt := clk 2\<rparr>)"
    "results_of s' = results_of s"
proof -
  let ?r = "recovered_job (clk 0) (clk 1) job"
  have stored: "jobs_of s (ID ?r) \<noteq> None" using assms(2) by simp
  obtain j' e s1 where upd: "Update ops (clk 2) ?r s = (j', e, s1)" by (metis prod_cases3)
  with Update_succeeds [OF assms(1) stored always_storable, of "clk 2"] have e: "e = None" by simp
  from Update_ok [OF assms(1) upd [unfolded e]] have
    "jobs_of s1 = (jobs_of s)(ID job \<mapsto> ?r\<lparr>UpdatedAt := clk 2\<rparr>)" "results_of s1 = results_of s" by simp_all
  with upd e that [of s1] show ?thesis by simp
qed

lemma finish_then_recover:
  assumes "inv (sch_store (srv_sched (rt_server rt)))"
    and "jobs_of (sch_store (srv_sched (rt_server rt))) (ID job) = Some j"
    and "srv_pool (rt_server rt) = Some p" and "job \<in> set (rt_busy rt)"
    and "rt_stuck rt = stale # rest" and "ID stale = ID job"
    and "map_of (handlers p) (JobType job) = Some h"
    and "\<And>d s. executeWithRecovery ops d (createJobContext job) h s = (None, jc, s)"
  obtains rt1 rt2 j1 j2 res where "rt_step ops env sort_slice cvt allowed rt rt1"
    "jobs_of (sch_store (srv_sched (rt_server rt1))) (ID job) = Some j1" "State j1 = JobStateCompleted"
    "rt_step ops env sort_slice cvt allowed rt1 rt2"
    "jobs_of (sch_store (srv_sched (rt_server rt2))) (ID job) = Some j2"
    "State j2 = (if Attempt stale < MaxAttempts stale then JobStateRetrying else JobStateDeadLetter)"
    "results_of (sch_store (srv_sched (rt_server rt2))) (ID job) = Some res" "Success res" "Output res = jc_output jc"
proof -
  obtain clk :: clock where True by blast
  obtain p' sched' j1 res where f: "finish_job ops cvt clk job p (srv_sched (rt_server rt)) = (p', sched')"
    "jobs_of (sch_store sched') (ID job) = Some j1" "State j1 = JobStateCompleted"
    "results_of (sch_store sched') (ID job) = Some res" "Success res" "Output res = jc_output jc"
    by (rule finish_job_completes [OF assms(1,2,7,8)])
  let ?rt1 = "(put_pool p' (put_sched sched' rt))\<lparr>rt_busy := remove1 job (rt_busy rt)\<rparr>"
  have inv1: "inv (sch_store (srv_sched (rt_server ?rt1)))"
    using finish_job_effect [OF assms(1) f(1)] by simp
  have now: "jobs_of (sch_store (srv_sched (rt_server ?rt1))) (ID stale) = Some j1" using f(2) assms(6) by simp
  obtain s' where r: "recover_jobs ops clk [stale] 0 0 (sch_store (srv_sched (rt_server ?rt1))) = (0 + 1, wrap64 (0 + 1), s')"
    "jobs_of s' = (jobs_of (sch_store (srv_sched (rt_server ?rt1))))
       (ID stale \<mapsto> (recovered_job (clk 0) (clk 1) stale)\<lparr>UpdatedAt := clk 2\<rparr>)"
    "results_of s' = results_of (sch_store (srv_sched (rt_server ?rt1)))"
    by (rule recover_one_result [OF inv1 now])
  have stuck: "rt_stuck ?rt1 = stale # rest" using assms(5) by simp
  note steps = report [OF assms(3,4) f(1)] stuck_recover [OF stuck r(1)]
  let ?j2 = "(recovered_job (clk 0) (clk 1) stale)\<lparr>UpdatedAt := clk 2\<rparr>"
  have st: "State ?j2 = (if Attempt stale < MaxAttempts stale then JobStateRetrying else JobStateDeadLetter)" by simp
  show ?thesis
    by (rule that [OF steps(1) _ f(3) steps(2) _ st]) (use f r(2,3) assms(6) in simp_all)
qed

end

text \<open>
  C10: a scan for stuck jobs can take back a job that has completed: when the scan has taken a
  running job into its list, and the worker reports success before the scan comes to it, the job
  is stored as completed and then again as retrying, or dead when no attempts are left, while its
  successful result stays in the store.
\<close>

theorem completed_job_taken_back:
  assumes "running ops sinv storable jobs_of results_of checkpoints_of idem_of srt"
    and "sinv (sch_store (srv_sched (rt_server rt)))"
    and "jobs_of (sch_store (srv_sched (rt_server rt))) (ID job) = Some j"
    and "srv_pool (rt_server rt) = Some p" and "job \<in> set (rt_busy rt)"
    and "rt_stuck rt = stale # rest" and "ID stale = ID job"
    and "map_of (handlers p) (JobType job) = Some h"
    and "\<And>d s. executeWithRecovery ops d (createJobContext job) h s = (None, jc, s)"
  shows "\<exists>rt1 rt2 j1 j2 res. rt_step ops env srt cvt allowed rt rt1 \<and>
    jobs_of (sch_store (srv_sched (rt_server rt1))) (ID job) = Some j1 \<and> State j1 = JobStateCompleted \<and>
    rt_step ops env srt cvt allowed rt1 rt2 \<and>
    jobs_of (sch_store (srv_sched (rt_server rt2))) (ID job) = Some j2 \<and>
    State j2 = (if Attempt stale < MaxAttempts stale then JobStateRetrying else JobStateDeadLetter) \<and>
    results_of (sch_store (srv_sched (rt_server rt2))) (ID job) = Some res \<and> Success res \<and>
    Output res = jc_output jc"
  by (rule running.finish_then_recover [OF assms, where env = env and cvt = cvt and allowed = allowed]) blast

theorem completed_job_taken_back_witness:
  "let job = example_job 1 JobStateRunning 0;
     rt = (runtime_of \<lparr>sys_server = (example_server [job])\<lparr>srv_pool := Some (example_pool echo_handler)\<rparr>,
        sys_recovery = NewSimpleRecoveryManager NewMemoryStore None\<rparr>)\<lparr>rt_busy := [job], rt_stuck := [job]\<rparr>
   in \<exists>rt1 rt2 j1 j2. rt_step (memory_store (\<lambda>m. m)) echo_env insertion_sort cvt_amd64 (\<lambda>_. False) rt rt1 \<and>
     mem_jobs_of (sch_store (srv_sched (rt_server rt1))) 1 = Some j1 \<and> State j1 = JobStateCompleted \<and>
     rt_step (memory_store (\<lambda>m. m)) echo_env insertion_sort cvt_amd64 (\<lambda>_. False) rt1 rt2 \<and>
     mem_jobs_of (sch_store (srv_sched (rt_server rt2))) 1 = Some j2 \<and> State j2 = JobStateRetrying"
proof -
  let ?job = "example_job 1 JobStateRunning 0"
  let ?rt = "(runtime_of \<lparr>sys_server = (example_server [?job])\<lparr>srv_pool := Some (example_pool echo_handler)\<rparr>,
        sys_recovery = NewSimpleRecoveryManager NewMemoryStore None\<rparr>)\<lparr>rt_busy := [?job], rt_stuck := [?job]\<rparr>"
  have rt: "mem_inv (sch_store (srv_sched (rt_server ?rt)))"
    "mem_jobs_of (sch_store (srv_sched (rt_server ?rt))) (ID ?job) = Some ?job"
    "srv_pool (rt_server ?rt) = Some (example_pool echo_handler)" "?job \<in> set (rt_busy ?rt)" "rt_stuck ?rt = ?job # []"
    by (simp_all add: runtime_of_def mem_jobs_of_def)
  have h: "map_of (handlers (example_pool echo_handler)) (JobType ?job) = Some echo_handler" by simp
  from completed_job_taken_back [OF mem_is_running [OF permutes_entries_id ins.go_sort_axioms] rt refl h echo_runs,
      of echo_env cvt_amd64 "\<lambda>_. False"]
  show ?thesis unfolding Let_def by simp blast
qed

end
