(* ===== verification/GQ_Content.thy ===== *)
theory GQ_Content
  imports GQ_Drain
begin

text \<open>
  What the running program does to the contents of a job. A job is submitted with an identifier,
  a type, a payload, a key, tags, limits and a backoff strategy; afterwards only the fields that
  record its progress change. From this follow the integrity of the stored jobs (each is what a
  client submitted) and their typing (each integer field fits the machine's 64 bits), over any
  store that keeps the contract, writes that fail included.
\<close>

section \<open>Contents and progress\<close>

definition content where
  "content (j :: Job) = ((ID j, IdempotencyKey j, CorrelationID j, JobType j, Payload j, Tags j),
     (Priority j, Delay j, Timeout j, MaxAttempts j),
     (BackoffStrategy j, BackoffInitial j, BackoffMax j, BackoffMultiplier j),
     (DependsOn j, BlockedBy j, CreatedAt j, Metadata j))"

lemma content_keeps [simp]:
  "content (j\<lparr>State := st\<rparr>) = content j" "content (j\<lparr>UpdatedAt := t\<rparr>) = content j"
  "content (j\<lparr>ScheduledAt := t\<rparr>) = content j" "content (j\<lparr>StartedAt := t\<rparr>) = content j"
  "content (j\<lparr>CompletedAt := t\<rparr>) = content j" "content (j\<lparr>LastError := m\<rparr>) = content j"
  "content (j\<lparr>ErrorCategory := m\<rparr>) = content j" "content (j\<lparr>WorkerID := m\<rparr>) = content j"
  "content (j\<lparr>Attempt := n\<rparr>) = content j"
  by (simp_all add: content_def)

text \<open>A step of a job's progress: the contents stay, the attempts stay, start again or go up by one.\<close>

definition evolves :: "Job \<Rightarrow> Job \<Rightarrow> bool" where
  "evolves j j' \<longleftrightarrow> content j' = content j \<and>
     Attempt j' \<in> {Attempt j, 0, wrap64 (Attempt j + 1)}"

text \<open>A property of jobs that progress does not take away.\<close>

definition lasting :: "(Job \<Rightarrow> bool) \<Rightarrow> bool" where
  "lasting P \<longleftrightarrow> (\<forall>j j'. P j \<longrightarrow> evolves j j' \<longrightarrow> P j')"

lemma lastingD: "lasting P \<Longrightarrow> P j \<Longrightarrow> evolves j j' \<Longrightarrow> P j'"
  by (auto simp: lasting_def)

lemma evolves_claimed: "evolves j (claimed_by t w j)"
  by (simp add: evolves_def claimed_by_def)

lemma evolves_failed: "evolves j (failed_job cvt clk r j)"
  by (simp add: evolves_def failed_job_def)

lemma evolves_recovered: "evolves j ((recovered_job t u j)\<lparr>UpdatedAt := v\<rparr>)"
  by (simp add: evolves_def recovered_job_def)

definition all_jobs :: "(Job \<Rightarrow> bool) \<Rightarrow> (uuid \<Rightarrow> Job option) \<Rightarrow> bool" where
  "all_jobs P jobs \<longleftrightarrow> (\<forall>i j. jobs i = Some j \<longrightarrow> P j)"

lemma all_jobsD: "all_jobs P jobs \<Longrightarrow> jobs i = Some j \<Longrightarrow> P j"
  by (auto simp: all_jobs_def)

lemma all_jobs_upd: "all_jobs P jobs \<Longrightarrow> P j \<Longrightarrow> all_jobs P (jobs(i \<mapsto> j))"
  by (simp add: all_jobs_def)

lemma all_jobs_evolve:
  "all_jobs P jobs \<Longrightarrow> lasting P \<Longrightarrow> jobs i = Some j \<Longrightarrow> evolves j j' \<Longrightarrow> all_jobs P (jobs(i \<mapsto> j'))"
  by (meson all_jobsD all_jobs_upd lastingD)

section \<open>What each operation does to the stored jobs\<close>

context job_store
begin

lemma UpdateState_all:
  assumes "inv s" and "UpdateState ops t i st s = (e, s')" and "lasting P" and "all_jobs P (jobs_of s)"
  shows "inv s' \<and> all_jobs P (jobs_of s')"
proof (cases e)
  case None
  with UpdateState_ok [OF assms(1)] assms(2) obtain j where "jobs_of s i = Some j" "inv s'"
    "jobs_of s' = (jobs_of s)(i \<mapsto> j\<lparr>State := st, UpdatedAt := t\<rparr>)" by blast
  with all_jobs_evolve [OF assms(4,3)] show ?thesis by (simp add: evolves_def)
next
  case (Some x)
  with UpdateState_err [OF assms(1)] assms show ?thesis by blast
qed

lemma mark_all:
  assumes "inv s" and "lasting P" and "all_jobs P (jobs_of s)"
  shows "inv (mark_scheduled ops clk [job] s) \<and> all_jobs P (jobs_of (mark_scheduled ops clk [job] s))"
  using UpdateState_all [OF assms(1) _ assms(2,3)] by (simp add: prod_eq_iff)

lemma send_one_all:
  assumes "inv s" and "send_jobs ops cap clk [job] s ch = (sent, s', ch')" and "lasting P"
    and "all_jobs P (jobs_of s)" and "P job" and "\<forall>j \<in> set ch. P j"
  shows "inv s'" "all_jobs P (jobs_of s')" "\<forall>j \<in> set ch'. P j"
proof -
  obtain e s1 where u: "UpdateState ops (clk 0) (ID job) JobStateScheduled s = (e, s1)" by fastforce
  note eff = UpdateState_all [OF assms(1) u assms(3,4)]
  have "P (job\<lparr>State := JobStateScheduled\<rparr>)"
    by (rule lastingD [OF assms(3,5)]) (simp add: evolves_def)
  with eff u assms(1,2,4-6) show "inv s'" "all_jobs P (jobs_of s')" "\<forall>j \<in> set ch'. P j"
    by (auto split: if_splits)
qed

lemma start_job_all:
  assumes "inv (sch_store sched)" and "start_job ops t job p sched = (granted, p', sched')" and "lasting P"
    and "all_jobs P (jobs_of (sch_store sched))"
  shows "all_jobs P (jobs_of (sch_store sched'))"
  using start_job_effect [OF assms(1,2)] all_jobs_evolve [OF assms(4,3) _ evolves_claimed] assms(4)
  by (auto split: if_splits)

lemma Complete_all:
  assumes "inv (sch_store sched)" and "Complete ops clk i r sched = (e, sched')" and "lasting P"
    and "all_jobs P (jobs_of (sch_store sched))"
  shows "all_jobs P (jobs_of (sch_store sched'))"
proof -
  have "evolves j (j\<lparr>State := st, CompletedAt := t, UpdatedAt := u\<rparr>)" for j st t u by (simp add: evolves_def)
  note done' = all_jobs_evolve [OF assms(4,3) _ this]
  show ?thesis
    using Complete_ok [OF assms(1)] Complete_failed [OF assms(1)] assms(2,4) done'
    by (cases e) metis+
qed

lemma Fail_all:
  assumes "inv (sch_store sched)" and "Fail ops cvt clk i r sched = (e, sched')" and "lasting P"
    and "all_jobs P (jobs_of (sch_store sched))"
  shows "all_jobs P (jobs_of (sch_store sched'))"
proof (cases "jobs_of (sch_store sched) i")
  case None
  with assms show ?thesis by (auto simp: Fail_def Get)
next
  case (Some j)
  from assms(1) Some assms(2) show ?thesis
    by (cases rule: Fail_cases) (simp_all add: assms(4) all_jobs_evolve [OF assms(4,3) Some evolves_failed])
qed

lemma finish_job_all:
  assumes "inv (sch_store sched)" and "finish_job ops cvt clk job p sched = (p', sched')" and "lasting P"
    and "all_jobs P (jobs_of (sch_store sched))"
  shows "all_jobs P (jobs_of (sch_store sched'))"
  using assms(1,2)
proof (cases rule: finish_job_cases)
  case (completed s1 res e clk')
  with Complete_all [OF _ completed(5) assms(3)] assms(4) show ?thesis by simp
next
  case (failed s1 res e clk')
  with Fail_all [OF _ failed(5) assms(3)] assms(4) show ?thesis by simp
qed

lemma recover_one_all:
  assumes "inv s" and "recover_jobs ops clk [job] n m s = (n', m', s')" and "lasting P"
    and "all_jobs P (jobs_of s)" and "P job"
  shows "inv s' \<and> all_jobs P (jobs_of s')"
proof -
  let ?r = "recovered_job (clk 0) (clk 1) job"
  obtain j' e s1 where upd: "Update ops (clk 2) ?r s = (j', e, s1)" by (metis prod_cases3)
  then have s': "s' = s1" using assms(2) by (auto split: if_splits)
  note good = lastingD [OF assms(3,5) evolves_recovered]
  from assms(1) upd show ?thesis
    by (cases rule: Update_cases) (simp_all add: s' assms(1,4) all_jobs_upd [OF assms(4) good])
qed

end

section \<open>What a request does to the stored jobs\<close>

text \<open>The jobs that a request asks for, alone or in a batch.\<close>

definition request_asks :: "api_env \<Rightarrow> api_request \<Rightarrow> JobSubmitRequest \<Rightarrow> bool" where
  "request_asks env r req \<longleftrightarrow> dec_submit env (Body r) = Some req \<or>
     (\<exists>b. dec_batch env (Body r) = Some b \<and> req \<in> set (BatchJobs b))"

context job_store
begin

lemma submitJob_all:
  assumes "server_ok inv srv" and "uuid_texts_ok env"
    and "submitJob ops env newID clk body srv = Returns (resp, srv')"
    and "all_jobs P (jobs_of (sch_store (srv_sched srv)))"
    and "\<And>req. dec_submit env body = Some req \<Longrightarrow> P (createJobFromRequest env newID clk req)"
  shows "all_jobs P (jobs_of (sch_store (srv_sched srv')))"
proof (cases rule: submitJob_cases [OF assms(1,2), of newID clk body])
  case (1 c m)
  with assms(3,4) show ?thesis by simp
next
  case (2 req e s' resp')
  with assms(3,4) show ?thesis by auto
next
  case (3 req job' srv1)
  have "inv (sch_store (srv_sched srv))" using assms(1) by (simp add: server_ok_def)
  from Create_ok [OF this 3(3)] 3(4) assms(3,4) assms(5) [OF 3(1)] show ?thesis
    by (auto intro: all_jobs_upd)
qed

lemma handleBatchSubmit_all:
  assumes "server_ok inv srv" and "uuid_texts_ok env"
    and "handleBatchSubmit ops env newIDs clk r srv = Returns (resp, srv')"
    and "all_jobs P (jobs_of (sch_store (srv_sched srv)))"
    and "\<And>req k c. request_asks env r req \<Longrightarrow> P (createJobFromRequest env (newIDs k) c req)"
  shows "all_jobs P (jobs_of (sch_store (srv_sched srv')))"
proof (cases "\<exists>req results jobs. dec_batch env (Body r) = Some req \<and>
    batch_create env (Atomic req) newIDs clk 0 (BatchJobs req) = Inr (results, jobs) \<and>
    handleBatchSubmit ops env newIDs clk r srv = batch_persist ops env (Atomic req)
      (later (3 * length jobs) clk) 0 jobs (batch_response results) srv")
  case True
  then obtain req results jobs where req: "dec_batch env (Body r) = Some req"
    and c: "batch_create env (Atomic req) newIDs clk 0 (BatchJobs req) = Inr (results, jobs)"
    and h: "handleBatchSubmit ops env newIDs clk r srv = batch_persist ops env (Atomic req)
      (later (3 * length jobs) clk) 0 jobs (batch_response results) srv" by blast
  from batch_persist_stored [OF assms(1,2), of "Atomic req" "later (3 * length jobs) clk" 0 jobs
      "batch_response results"] assms(3) h obtain js
    where js: "stored_on_top (jobs_of (sch_store (srv_sched srv))) js (jobs_of (sch_store (srv_sched srv')))"
      "set js \<subseteq> set jobs" by auto
  have made: "P j" if "j \<in> set js" for j
  proof -
    from batch_create_made [OF c] js(2) that obtain k c' q where
      q: "q \<in> set (BatchJobs req)" "j = createJobFromRequest env (newIDs k) c' q" by blast
    with req have "request_asks env r q" by (auto simp: request_asks_def)
    from assms(5) [OF this] q(2) show ?thesis by simp
  qed
  have "P j" if "jobs_of (sch_store (srv_sched srv')) i = Some j" for i j
  proof (cases "map_of (map (\<lambda>j. (ID j, j)) js) i")
    case None
    with js(1) that assms(4) show ?thesis by (simp add: stored_on_top_def map_add_def all_jobs_def)
  next
    case (Some k)
    then have "k \<in> set js" by (auto dest!: map_of_SomeD)
    with Some js(1) that made show ?thesis by (simp add: stored_on_top_def)
  qed
  then show ?thesis by (simp add: all_jobs_def)
next
  case False
  then have "srv' = srv"
    using assms(3)
    by (auto simp: handleBatchSubmit_def split: if_splits option.splits sum.splits prod.splits)
  with assms(4) show ?thesis by simp
qed

lemma answer_job_store:
  "answer_job ops env kind i srv = Returns (resp, srv') \<Longrightarrow> sch_store (srv_sched srv') = sch_store (srv_sched srv)"
  by (auto simp: answer_job_def answer_after_Returns publish_event_def split: sum.splits option.splits go_result.splits)

lemma Cancel_all:
  assumes "inv (sch_store sched)" and "Cancel ops clk i reason force sched = (e, sched')" and "lasting P"
    and "all_jobs P (jobs_of (sch_store sched))"
  shows "all_jobs P (jobs_of (sch_store sched'))"
proof (cases "jobs_of (sch_store sched) i")
  case None
  with assms show ?thesis by (auto simp: Cancel_def Get)
next
  case (Some j)
  note eff = Cancel_effect [OF assms(1) Some assms(2)]
  have "evolves j (j\<lparr>State := st, CompletedAt := t, LastError := m, UpdatedAt := u\<rparr>)" for st t u m
    by (simp add: evolves_def)
  note cancelled = all_jobs_evolve [OF assms(4,3) Some this]
  show ?thesis
    using eff(2-4) cancelled assms(4)
    by (cases "IsTerminal j"; cases "State j = JobStateRunning \<and> \<not> force") auto
qed

lemma Retry_all:
  assumes "inv (sch_store sched)" and "Retry ops clk i reset sched = (e, sched')" and "lasting P"
    and "all_jobs P (jobs_of (sch_store sched))"
  shows "all_jobs P (jobs_of (sch_store sched'))"
proof (cases e)
  case None
  have "evolves j (j\<lparr>State := st, CompletedAt := t, LastError := m, ErrorCategory := c,
      Attempt := (if reset then 0 else Attempt j), UpdatedAt := u\<rparr>)" for j st t m c u
    by (simp add: evolves_def)
  note retried = all_jobs_evolve [OF assms(4,3) _ this]
  from Retry_ok [OF assms(1)] assms(2) None retried show ?thesis by metis
next
  case (Some x)
  with Retry_keeps [OF assms(1,2)] assms(4) show ?thesis by simp
qed

lemma cancelJob_all:
  assumes "server_ok inv srv" and "cancelJob ops env clk r i srv = Returns (resp, srv')" and "lasting P"
    and "all_jobs P (jobs_of (sch_store (srv_sched srv)))"
  shows "all_jobs P (jobs_of (sch_store (srv_sched srv')))"
proof -
  obtain reason force where d: "dec_cancel env (Body r) = (reason, force)" by fastforce
  obtain err sched' where c: "Cancel ops clk i reason force (srv_sched srv) = (err, sched')" by fastforce
  have "inv (sch_store (srv_sched srv))" using assms(1) by (simp add: server_ok_def)
  from Cancel_all [OF this c assms(3,4)] assms(2,4) c d show ?thesis
    by (auto simp: cancelJob_def Let_def dest!: answer_job_store split: if_splits option.splits)
qed

lemma retryJob_all:
  assumes "server_ok inv srv" and "retryJob ops env clk r i srv = Returns (resp, srv')" and "lasting P"
    and "all_jobs P (jobs_of (sch_store (srv_sched srv)))"
  shows "all_jobs P (jobs_of (sch_store (srv_sched srv')))"
proof -
  obtain err sched' where c: "Retry ops clk i (dec_retry env (Body r)) (srv_sched srv) = (err, sched')" by fastforce
  have "inv (sch_store (srv_sched srv))" using assms(1) by (simp add: server_ok_def)
  from Retry_all [OF this c assms(3,4)] assms(2,4) c show ?thesis
    by (auto simp: retryJob_def Let_def dest!: answer_job_store split: if_splits option.splits)
qed

lemma deleteJob_all:
  assumes "server_ok inv srv" and "uuid_texts_ok env" and "deleteJob ops env i srv = Returns (resp, srv')"
    and "all_jobs P (jobs_of (sch_store (srv_sched srv)))"
  shows "all_jobs P (jobs_of (sch_store (srv_sched srv')))"
  using deleteJob_effect [OF assms(1-3)] assms(4) by (auto simp: all_jobs_def split: if_splits)

end

lemma middleware_body:
  "middleware env kord clk r srv = Inr (r', h) \<Longrightarrow> Body r' = Body r"
  by (auto simp: middleware_def Let_def split: if_splits option.splits sum.splits)

context job_store
begin

lemma route_request_all:
  assumes "server_ok inv srv" and "uuid_texts_ok env"
    and "after_exchange srv (route_request ops env flusher pord newIDs clk events h r srv) = Some srv'"
    and "lasting P" and "all_jobs P (jobs_of (sch_store (srv_sched srv)))"
    and "\<And>req k c. request_asks env r req \<Longrightarrow> P (createJobFromRequest env (newIDs k) c req)"
  shows "all_jobs P (jobs_of (sch_store (srv_sched srv')))"
proof (cases "registerRoutes (Path r)")
  case None
  with assms(3,5) show ?thesis by (simp add: route_request_def)
next
  case (Some rt)
  note route = assms(3) [unfolded route_request_def Let_def Some option.case]
  show ?thesis
  proof (cases rt)
    case JobsRoute
    with route obtain resp where j: "handleJobs ops env (newIDs 0) clk r srv = Returns (resp, srv')"
      by (auto simp: exchange_of_after)
    show ?thesis
    proof (cases "Method r = ''POST''")
      case True
      with j have "submitJob ops env (newIDs 0) clk (Body r) srv = Returns (resp, srv')"
        by (simp add: handleJobs_def)
      from submitJob_all [OF assms(1,2) this assms(5) assms(6)] show ?thesis by (simp add: request_asks_def)
    next
      case False
      with j have "srv' = srv" by (auto simp: handleJobs_def split: if_splits)
      with assms(5) show ?thesis by simp
    qed
  next
    case JobByIDRoute
    show ?thesis
    proof (cases "handleJobByID ops env clk events r srv")
      case None
      with route JobByIDRoute assms(5) show ?thesis by simp
    next
      case (Some served)
      with route JobByIDRoute obtain resp where "served = Returns (resp, srv')"
        by (auto simp: exchange_of_after)
      from handleJobByID_cases [OF Some [unfolded this]] show ?thesis
        using assms(5) cancelJob_all [OF assms(1) _ assms(4,5)] deleteJob_all [OF assms(1,2) _ assms(5)]
          retryJob_all [OF assms(1) _ assms(4,5)] by metis
    qed
  next
    case BatchRoute
    with route obtain resp where b: "handleBatchSubmit ops env newIDs clk r srv = Returns (resp, srv')"
      by (auto simp: exchange_of_after)
    from handleBatchSubmit_all [OF assms(1,2) b assms(5,6)] show ?thesis .
  next
    case EventsRoute
    with route assms(5) show ?thesis
      by (cases "handleEvents flusher r srv") (auto dest!: handleEvents_channels)
  qed (use route assms(5) in simp_all)
qed

lemma ServeHTTP_all:
  assumes "server_ok inv srv" and "uuid_texts_ok env"
    and "after_exchange srv (ServeHTTP ops env flusher kord pord newIDs clk events r srv) = Some srv'"
    and "lasting P" and "all_jobs P (jobs_of (sch_store (srv_sched srv)))"
    and "\<And>req k c. request_asks env r req \<Longrightarrow> P (createJobFromRequest env (newIDs k) c req)"
  shows "server_ok inv srv' \<and> all_jobs P (jobs_of (sch_store (srv_sched srv')))"
proof
  show "server_ok inv srv'"
    using ServeHTTP_keeps [OF assms(1,2), where flusher = flusher and kord = kord and pord = pord and
        newIDs = newIDs and clk = clk and events = events and r = r] assms(1,3)
    by (cases "ServeHTTP ops env flusher kord pord newIDs clk events r srv") (auto simp: exchange_ok_def)
  show "all_jobs P (jobs_of (sch_store (srv_sched srv')))"
  proof (cases "middleware env kord clk r srv")
    case (Inl resp)
    with assms(3,5) show ?thesis by (simp add: ServeHTTP_def)
  next
    case (Inr rh)
    obtain r' h where rh: "rh = (r', h)" by (cases rh)
    have body: "Body r' = Body r" using middleware_body Inr rh by blast
    have "P (createJobFromRequest env (newIDs k) c req)" if "request_asks env r' req" for req k c
      by (rule assms(6)) (use that body in \<open>simp add: request_asks_def\<close>)
    from route_request_all [OF assms(1,2) _ assms(4,5) this] assms(3) Inr rh show ?thesis
      by (simp add: ServeHTTP_def)
  qed
qed

end

section \<open>The jobs of the running program\<close>

text \<open>The jobs that are stored, and the copies on their way: lists of the loops, channels, jobs executed.\<close>

definition rt_copies :: "'s Runtime \<Rightarrow> Job list" where
  "rt_copies rt = rt_cycle rt @ rt_delayed rt @ rt_stuck rt @ in_channels rt @ rt_busy rt"

definition rt_all :: "(Job \<Rightarrow> bool) \<Rightarrow> ('s \<Rightarrow> bool) \<Rightarrow> ('s \<Rightarrow> uuid \<Rightarrow> Job option) \<Rightarrow> 's Runtime \<Rightarrow> bool" where
  "rt_all P sinv jobs_of rt \<longleftrightarrow> server_ok sinv (rt_server rt) \<and>
     all_jobs P (jobs_of (sch_store (srv_sched (rt_server rt)))) \<and> (\<forall>j \<in> set (rt_copies rt). P j)"

lemma rt_allD:
  assumes "rt_all P sinv jobs_of rt"
  shows "server_ok sinv (rt_server rt)" "sinv (sch_store (srv_sched (rt_server rt)))"
    "all_jobs P (jobs_of (sch_store (srv_sched (rt_server rt))))" "\<forall>j \<in> set (rt_copies rt). P j"
  using assms by (simp_all add: rt_all_def server_ok_def)

lemma rt_all_keep:
  assumes "rt_all P sinv jobs_of rt" and "server_ok sinv (rt_server rt')"
    and "all_jobs P (jobs_of (sch_store (srv_sched (rt_server rt'))))"
    and "set (rt_copies rt') \<subseteq> set (rt_copies rt)"
  shows "rt_all P sinv jobs_of rt'"
  using assms unfolding rt_all_def by blast

lemma set_copies:
  "set (rt_copies rt) = set (rt_cycle rt) \<union> set (rt_delayed rt) \<union> set (rt_stuck rt) \<union>
     set (jobCh (srv_sched (rt_server rt))) \<union>
     (case srv_pool (rt_server rt) of None \<Rightarrow> {} | Some p \<Rightarrow> set (pool_jobCh p)) \<union> set (rt_busy rt)"
  by (auto simp: rt_copies_def in_channels_def split: option.splits)

lemma server_ok_put [simp]:
  "server_ok sinv (rt_server (put_sched sched rt)) \<longleftrightarrow>
     sinv (sch_store sched) \<and> (\<exists>eb. srv_eventBus (rt_server rt) = Some eb \<and> bus_ok eb)"
  "server_ok sinv (rt_server (put_store s rt)) \<longleftrightarrow>
     sinv s \<and> (\<exists>eb. srv_eventBus (rt_server rt) = Some eb \<and> bus_ok eb)"
  "server_ok sinv (rt_server (put_pool p rt)) \<longleftrightarrow> server_ok sinv (rt_server rt)"
  by (simp_all add: server_ok_def)

context scheduling
begin

lemma rt_step_all:
  assumes "rt_step ops env sort_slice cvt allowed rt rt'" and "rt_all P inv jobs_of rt"
    and "uuid_texts_ok env" and "lasting P"
    and "\<And>r req i c. allowed r \<Longrightarrow> request_asks env r req \<Longrightarrow> P (createJobFromRequest env i c req)"
  shows "rt_all P inv jobs_of rt'"
proof -
  note old = rt_allD [OF assms(2)]
  have bus: "\<exists>eb. srv_eventBus (rt_server rt) = Some eb \<and> bus_ok eb" using old(1) by (simp add: server_ok_def)
  from assms(1) show ?thesis
  proof cases
    case (cycle_begin jobs)
    obtain js where "GetPending ops (BatchSize (sch_config (srv_sched (rt_server rt))))
        (sch_store (srv_sched (rt_server rt))) = Inr js"
      "\<forall>j \<in> set js. jobs_of (sch_store (srv_sched (rt_server rt))) (ID j) = Some j"
      using GetPending [OF old(2), of "BatchSize (sch_config (srv_sched (rt_server rt)))"] by blast
    with cycle_begin(4) all_jobsD [OF old(3)] have "\<forall>j \<in> set jobs. P j" by auto
    with old cycle_begin(1) show ?thesis by (auto simp: rt_all_def set_copies)
  next
    case (cycle_send job jobs clk sent s' ch')
    have "P job" "\<forall>j \<in> set (jobCh (srv_sched (rt_server rt))). P j"
      using old(4) cycle_send(2) by (auto simp: set_copies)
    note one = send_one_all [OF old(2) cycle_send(3) assms(4) old(3) this]
    with old(4) cycle_send(1,2) bus show ?thesis by (auto simp: rt_all_def set_copies split: if_splits)
  next
    case (delayed_begin t jobs)
    obtain js where "GetDelayed ops t (BatchSize (sch_config (srv_sched (rt_server rt))))
        (sch_store (srv_sched (rt_server rt))) = Inr js"
      "\<forall>j \<in> set js. jobs_of (sch_store (srv_sched (rt_server rt))) (ID j) = Some j"
      using GetDelayed [OF old(2), of t "BatchSize (sch_config (srv_sched (rt_server rt)))"] by blast
    with delayed_begin(4) all_jobsD [OF old(3)] have "\<forall>j \<in> set jobs. P j" by auto
    with old delayed_begin(1) show ?thesis by (auto simp: rt_all_def set_copies)
  next
    case (delayed_mark job jobs clk)
    from mark_all [OF old(2) assms(4) old(3)] old(4) delayed_mark(1,2) bus show ?thesis
      by (auto simp: rt_all_def set_copies simp del: mark_scheduled.simps)
  next
    case (fetch p job sched')
    from fetch(4) have sched: "sch_store sched' = sch_store (srv_sched (rt_server rt))"
      "jobCh (srv_sched (rt_server rt)) = job # jobCh sched'"
      by (auto simp: GetNextJob_def split: list.splits)
    with fetch(1,2) old bus show ?thesis by (intro rt_all_keep [OF assms(2)]) (auto simp: set_copies)
  next
    case (claim p job rest t granted p' sched')
    from start_job_effect [OF old(2) claim(5)] have eff: "inv (sch_store sched')"
      "jobCh sched' = jobCh (srv_sched (rt_server rt))" "pool_jobCh p' = rest" by simp_all
    have "all_jobs P (jobs_of (sch_store sched'))" by (rule start_job_all [OF old(2) claim(5) assms(4) old(3)])
    with claim(1,2,4) eff bus show ?thesis by (intro rt_all_keep [OF assms(2)]) (auto simp: set_copies)
  next
    case (report p job clk p' sched')
    from finish_job_effect [OF old(2) report(4)] have eff: "inv (sch_store sched')"
      "jobCh sched' = jobCh (srv_sched (rt_server rt))" "pool_jobCh p' = pool_jobCh p" by simp_all
    have "all_jobs P (jobs_of (sch_store sched'))" by (rule finish_job_all [OF old(2) report(4) assms(4) old(3)])
    with report(1,2) eff bus set_remove1_subset [of job "rt_busy rt"] show ?thesis
      by (intro rt_all_keep [OF assms(2)]) (auto simp: set_copies)
  next
    case (stuck_begin t d jobs)
    obtain js where "GetStuck ops t d (sch_store (srv_sched (rt_server rt))) = Inr js"
      "\<forall>j \<in> set js. jobs_of (sch_store (srv_sched (rt_server rt))) (ID j) = Some j"
      using GetStuck [OF old(2), of t d] by blast
    with stuck_begin(3) all_jobsD [OF old(3)] have "\<forall>j \<in> set jobs. P j" by auto
    with old stuck_begin(1) show ?thesis by (auto simp: rt_all_def set_copies)
  next
    case (stuck_recover job jobs clk n m n' m' s')
    have "P job" using old(4) stuck_recover(2) by (auto simp: set_copies)
    from recover_one_all [OF old(2) stuck_recover(3) assms(4) old(3) this] stuck_recover(1,2) bus show ?thesis
      by (intro rt_all_keep [OF assms(2)]) (auto simp: set_copies)
  next
    case (request r newIDs flusher kord pord clk events srv')
    note eff = ServeHTTP_all [OF old(1) assms(3) request(4) assms(4) old(3) assms(5) [OF request(2)]]
    have "jobCh (srv_sched srv') = jobCh (srv_sched (rt_server rt))" "srv_pool srv' = srv_pool (rt_server rt)"
      using ServeHTTP_channels [OF request(4)] by (simp_all add: same_channels_def sched_shape_def)
    with eff request(1) show ?thesis by (intro rt_all_keep [OF assms(2)]) (auto simp: set_copies)
  qed
qed

lemma rt_steps_all:
  assumes "rt_steps ops env sort_slice cvt allowed rt rt'" and "rt_all P inv jobs_of rt"
    and "uuid_texts_ok env" and "lasting P"
    and "\<And>r req i c. allowed r \<Longrightarrow> request_asks env r req \<Longrightarrow> P (createJobFromRequest env i c req)"
  shows "rt_all P inv jobs_of rt'"
  using assms by (induction rule: rt_steps.induct) (auto intro: rt_step_all)

end

lemma rt_all_start:
  assumes "runServe parse ended newID clk flags st = Returns (Inr sys)" and "sinv st"
    and "all_jobs P (jobs_of st)"
  shows "rt_all P sinv jobs_of (runtime_of sys)"
  using runServe_ready [OF assms(1)] assms(2,3)
  by (auto simp: rt_all_def server_ok_def set_copies runtime_of_def)

section \<open>Integrity\<close>

text \<open>
  C11: nothing is made up: in every state of the program, over any store and with any requests,
  each stored job and each job that a worker executes has the identifier, type, payload, key,
  tags, priority, limits and backoff of a job that was in the store at the start, or of one that a
  request asked for. Only its progress differs, and its number of attempts.
\<close>

theorem stored_jobs_were_submitted:
  assumes "scheduling ops sinv storable jobs_of results_of checkpoints_of idem_of srt" and "uuid_texts_ok env"
    and "runServe parse ended newID clk flags st = Returns (Inr sys)" and "sinv st"
    and "rt_steps ops env srt cvt came_in (runtime_of sys) rt"
    and "jobs_of (sch_store (srv_sched (rt_server rt))) i = Some j \<or> j \<in> set (rt_busy rt)"
  shows "(\<exists>k j0. jobs_of st k = Some j0 \<and> content j = content j0) \<or>
    (\<exists>r req k c. came_in r \<and> request_asks env r req \<and>
       content j = content (createJobFromRequest env k c req))"
proof -
  define P where "P = (\<lambda>j. (\<exists>k j0. jobs_of st k = Some j0 \<and> content j = content j0) \<or>
    (\<exists>r req k c. came_in r \<and> request_asks env r req \<and> content j = content (createJobFromRequest env k c req)))"
  have last: "lasting P" unfolding lasting_def P_def evolves_def by metis
  have start: "all_jobs P (jobs_of st)" unfolding all_jobs_def P_def by blast
  have made: "P (createJobFromRequest env k c req)" if "came_in r" "request_asks env r req" for r req k c
    using that unfolding P_def by blast
  have "rt_all P sinv jobs_of rt"
    by (rule scheduling.rt_steps_all [OF assms(1,5) rt_all_start [where jobs_of = jobs_of and sinv = sinv,
            OF assms(3,4) start] assms(2) last made])
  then have "P j" using assms(6) by (auto simp: rt_all_def all_jobs_def set_copies)
  then show ?thesis by (simp add: P_def)
qed

theorem stored_jobs_were_submitted_witness:
  "\<exists>(rt :: MemoryStore Runtime) j. rt_claims rt = [1] \<and>
     mem_jobs_of (sch_store (srv_sched (rt_server rt))) 1 = Some j \<and>
     (\<exists>k c req. request_asks echo_env (echo_request ''hi'') req \<and>
        content j = content (createJobFromRequest echo_env k c req))"
proof -
  let ?serve = "runServe (\<lambda>t. None) (\<lambda>d t n. None) '''' (\<lambda>_. 0) default_serve_flags NewMemoryStore"
  obtain sys where sys: "?serve = Returns (Inr sys)" by (rule echo_serves)
  obtain rt j res where run: "rt_steps (memory_store (\<lambda>m. m)) echo_env insertion_sort cvt_amd64
      (\<lambda>q. q = echo_request ''hi'') (runtime_of sys) rt" "rt_claims rt = [1]"
      "mem_jobs_of (sch_store (srv_sched (rt_server rt))) 1 = Some j"
    by (rule echo_run [where allowed = "\<lambda>q. q = echo_request ''hi''", OF permutes_entries_id ins.go_sort_axioms
          echo_example(1) sys echo_example(6,7,2,3,4), of "''hi''" cvt_amd64 1]) simp_all
  have none: "mem_jobs_of NewMemoryStore k = None" for k by (simp add: mem_jobs_of_def NewMemoryStore_def)
  from stored_jobs_were_submitted [OF mem_sched.scheduling_axioms echo_example(1) sys mem_inv_New run(1) disjI1 [OF run(3)]]
    none run(2,3) show ?thesis by (intro exI [of _ rt] exI [of _ j]) auto
qed

section \<open>Typing\<close>

text \<open>The integer fields of a job are \<open>int\<close> or \<open>time.Duration\<close> in Go, 64 bits wide.\<close>

definition job_typed :: "Job \<Rightarrow> bool" where
  "job_typed j \<longleftrightarrow> int64_range (Priority j) \<and> int64_range (Delay j) \<and> int64_range (Timeout j) \<and>
     int64_range (MaxAttempts j) \<and> int64_range (Attempt j) \<and> int64_range (BackoffInitial j) \<and>
     int64_range (BackoffMax j)"

text \<open>What the JSON decoder and \<open>time.ParseDuration\<close> return has its type.\<close>

definition env_typed :: "api_env \<Rightarrow> bool" where
  "env_typed env \<longleftrightarrow> (\<forall>t d. ParseDuration env t = Some d \<longrightarrow> int64_range d) \<and>
     (\<forall>r req. request_asks env r req \<longrightarrow> pred_option int64_range (ReqPriority req) \<and>
        pred_option int64_range (ReqMaxAttempts req))"

lemma lasting_typed: "lasting job_typed"
proof -
  have "int64_range 0" by (simp add: int64_range_def)
  then show ?thesis by (auto simp: lasting_def evolves_def content_def job_typed_def)
qed

lemma fold_typed:
  assumes "list_all (\<lambda>opt. \<forall>j. job_typed j \<longrightarrow> job_typed (opt j)) opts" and "job_typed j"
  shows "job_typed (fold (\<lambda>opt j. opt j) opts j)"
  using assms by (induction opts arbitrary: j) auto

lemma request_options_typed:
  assumes "env_typed env" and "request_asks env r req"
  shows "list_all (\<lambda>opt. \<forall>j. job_typed j \<longrightarrow> job_typed (opt j)) (request_options env t req)"
proof -
  have d: "int64_range d" if "ParseDuration env t = Some d" for t d
    using assms(1) that unfolding env_typed_def by blast
  have n: "pred_option int64_range (ReqPriority req)" "pred_option int64_range (ReqMaxAttempts req)"
    using assms unfolding env_typed_def by blast+
  show ?thesis
    unfolding request_options_def list_all_append
    using d [of "ReqDelay req"] d [of "ReqTimeout req"] n
    by (intro conjI) (auto simp: option_defs job_typed_def split: option.split)
qed

lemma created_typed:
  assumes "env_typed env" and "request_asks env r req"
  shows "job_typed (createJobFromRequest env k c req)"
  unfolding createJobFromRequest_def NewJob_def Let_def
  by (rule fold_typed [OF request_options_typed [OF assms]])
    (simp add: job_typed_def zero_Job_def int64_range_def)

text \<open>The counters of the pool wrap around.\<close>

definition pool_typed :: "SimplePool \<Rightarrow> bool" where
  "pool_typed p \<longleftrightarrow> int64_range (processed p) \<and> int64_range (succeeded p) \<and> int64_range (pool_failed p)"

lemma start_job_typed:
  "start_job ops t job p sched = (granted, p', sched') \<Longrightarrow> pool_typed p \<Longrightarrow> pool_typed p'"
  by (auto simp: start_job_def pool_typed_def Let_def split: prod.splits if_splits)

lemma finish_job_typed:
  "finish_job ops cvt clk job p sched = (p', sched') \<Longrightarrow> pool_typed p \<Longrightarrow> pool_typed p'"
  by (auto simp: finish_job_def process_claimed_def pool_typed_def Let_def split: prod.splits option.splits)

lemma rt_step_typed:
  assumes "rt_step ops env srt cvt allowed rt rt'" and "pred_option pool_typed (srv_pool (rt_server rt))"
  shows "pred_option pool_typed (srv_pool (rt_server rt'))"
  using assms(1)
proof cases
  case (claim p job rest t granted p' sched')
  with start_job_typed [OF claim(5)] assms(2) show ?thesis by (simp add: pool_typed_def)
next
  case (report p job clk p' sched')
  with finish_job_typed [OF report(4)] assms(2) show ?thesis by simp
next
  case (request r newIDs flusher kord pord clk events srv')
  with ServeHTTP_channels [OF request(4)] assms(2) show ?thesis by (simp add: same_channels_def)
qed (use assms(2) in \<open>simp_all add: pool_typed_def\<close>)

lemma rt_steps_typed:
  assumes "rt_steps ops env srt cvt allowed rt rt'" and "pred_option pool_typed (srv_pool (rt_server rt))"
  shows "pred_option pool_typed (srv_pool (rt_server rt'))"
  using assms by (induction rule: rt_steps.induct) (auto dest: rt_step_typed)

lemma runServe_pool_typed:
  assumes "runServe parse ended newID clk flags st = Returns (Inr sys)"
  shows "pred_option pool_typed (srv_pool (sys_server sys))"
  using assms
  by (auto simp: runServe_def NewPriorityScheduler_def sched_Start_def NewSimplePool_def pool_Start_def
      rec_Start_def NewSimpleRecoveryManager_def NewServer_def Let_def registerExampleHandlers_def
      RegisterHandler_def pool_typed_def int64_range_def split: if_splits)



end
