(* ===== verification/GQ_Shutdown.thy ===== *)
theory GQ_Shutdown
  imports GQ_Drain
begin

text \<open>
  The end of the program: the start and stop of the HTTP listener (\<open>api/server.go\<close>), the
  shutdown that \<open>gq serve\<close> runs after a signal, and what the signal does to the jobs that
  are being executed.
\<close>

section \<open>The listener\<close>

text \<open>
  \<open>net/http\<close>: \<open>ListenAndServe\<close> serves until it ends with an error, \<open>ErrServerClosed\<close> after a
  \<open>Shutdown\<close>; \<open>None\<close> while it still serves. \<open>Start\<close> runs it in a goroutine and returns no
  error; the lines are those that it and the goroutine log.
\<close>

record http_server =
  ListenAndServe :: "string \<Rightarrow> gerror option"
  Shutdown :: "gerror option"

definition ErrServerClosed :: gerror where
  "ErrServerClosed = ErrorString ''http: Server closed''"

definition api_Start :: "http_server \<Rightarrow> 's Server \<Rightarrow> gerror option \<times> string list" where
  "api_Start http srv =
     (None, (''[API] Starting server on '' @ Addr (srv_config srv)) #
        (case ListenAndServe http (Addr (srv_config srv)) of
           None \<Rightarrow> []
         | Some err \<Rightarrow> if err \<noteq> ErrServerClosed then [''[API] Server error: '' @ Error err] else []))"

definition api_Stop :: "http_server \<Rightarrow> gerror option \<times> string list" where
  "api_Stop http = (Shutdown http, [''[API] Shutting down server...''])"

definition GetEventBus :: "'s Server \<Rightarrow> EventBus option" where
  "GetEventBus srv = srv_eventBus srv"

text \<open>An address that is taken is only logged: the program goes on without an API.\<close>

lemma listen_error_hidden:
  assumes "ListenAndServe http (Addr (srv_config srv)) = Some err" and "err \<noteq> ErrServerClosed"
  shows "fst (api_Start http srv) = None \<and>
    last (snd (api_Start http srv)) = ''[API] Server error: '' @ Error err"
  using assms by (simp add: api_Start_def)

section \<open>The switches of the running program\<close>

definition switched_on :: "'s Runtime \<Rightarrow> bool" where
  "switched_on rt \<longleftrightarrow> sch_running (srv_sched (rt_server rt)) = 1 \<and> \<not> stopCh_closed (srv_sched (rt_server rt)) \<and>
     (\<exists>p. srv_pool (rt_server rt) = Some p \<and> pool_running p = 1 \<and> \<not> pool_stopCh_closed p)"

lemma rt_step_switches:
  assumes "rt_step ops env srt cvt allowed rt rt'" and "switched_on rt"
  shows "switched_on rt'"
  using assms(1)
proof cases
  case (fetch p job sched')
  with GetNextJob_pops [OF fetch(4)] assms(2) show ?thesis by (simp add: switched_on_def same_loops_def)
next
  case (claim p job rest t granted p' sched')
  with start_job_frame [OF claim(5)] assms(2) show ?thesis
    by (simp add: switched_on_def same_loops_def same_pool_def)
next
  case (report p job clk p' sched')
  with finish_job_frame [OF report(4)] assms(2) show ?thesis
    by (simp add: switched_on_def same_loops_def same_pool_def)
next
  case (request r newIDs flusher kord pord clk events srv')
  with ServeHTTP_channels [OF request(4)] assms(2) show ?thesis
    by (simp add: switched_on_def same_channels_def sched_shape_def)
qed (use assms(2) in \<open>simp_all add: switched_on_def\<close>)

lemma rt_steps_switches:
  assumes "rt_steps ops env srt cvt allowed rt rt'" and "switched_on rt"
  shows "switched_on rt'"
  using assms by (induction rule: rt_steps.induct) (auto intro: rt_step_switches)

lemma runServe_switches:
  assumes "runServe parse ended newID clk flags st = Returns (Inr sys)"
  shows "switched_on (runtime_of sys) \<and> rec_running (sys_recovery sys) = 1 \<and>
    \<not> rec_stopCh_closed (sys_recovery sys)"
  using assms
  by (auto simp: runServe_def NewPriorityScheduler_def sched_Start_def NewSimplePool_def pool_Start_def
      rec_Start_def NewSimpleRecoveryManager_def NewServer_def Let_def registerExampleHandlers_def
      RegisterHandler_def switched_on_def runtime_of_def split: if_splits)



section \<open>A job that the signal interrupts\<close>

context reliable_store
begin

lemma Fail_reliable:
  assumes "inv (sch_store sched)" and "jobs_of (sch_store sched) i = Some j"
    and "Fail ops cvt clk i r sched = (err, sched')"
  shows "jobs_of (sch_store sched') = (jobs_of (sch_store sched))(i \<mapsto> failed_job cvt clk r j)"
proof -
  have get: "Get ops i (sch_store sched) = Inr j" using Get_Some [OF assms(1)] assms(2) by simp
  obtain s1 where save: "SaveResult ops r (sch_store sched) = (None, s1)"
    using SaveResult_succeeds [OF assms(1)] by blast
  note saved = SaveResult_ok [OF assms(1) save]
  define j1 where "j1 = (failed_job cvt clk r j)\<lparr>UpdatedAt := clk 1\<rparr>"
  obtain j2 e2 s2 where upd: "Update ops (clk 2) j1 s1 = (j2, e2, s2)" by (metis prod_cases3)
  have "ID j1 = i" using jobs_ID [OF assms(1,2)] by (simp add: j1_def failed_job_def)
  with Update_succeeds [of s1 j1 "clk 2"] saved assms(2) always_storable upd have "e2 = None" by simp
  moreover have "Fail ops cvt clk i r sched =
      (e2, sched\<lparr>failed := wrap64 (failed sched + 1), sch_store := s2\<rparr>)"
    using get save upd by (auto simp: Fail_def Let_def j1_def failed_job_def)
  ultimately have "err = None" using assms(3) by simp
  from assms show ?thesis by (cases rule: Fail_cases) (simp_all add: \<open>err = None\<close>)
qed

lemma finish_job_error:
  assumes "inv (sch_store sched)" and "jobs_of (sch_store sched) (ID job) = Some j"
    and "map_of (handlers p) (JobType job) = Some h"
    and "executeWithRecovery ops (clk 2 + (if Timeout job = 0 then JobTimeout (pool_config p) else Timeout job))
      (createJobContext job) h (sch_store sched) = (Some e, jc, s1)"
    and "finish_job ops cvt clk job p sched = (p', sched')"
  shows "\<exists>r. JobID r = ID job \<and> ResultError r = Error e \<and> ResultCategory r = ClassifyError (Some e) \<and>
    jobs_of (sch_store sched') = (jobs_of (sch_store sched))(ID job \<mapsto> failed_job cvt (later 5 clk) r j)"
proof -
  define r where "r = zero_JobResult\<lparr>JobID := ID job, ResultError := Error e,
    ResultCategory := ClassifyError (Some e), ResultCompletedAt := clk 4, Duration := time_Sub (clk 3) (clk 0)\<rparr>"
  have r: "JobID r = ID job" "ResultError r = Error e" "ResultCategory r = ClassifyError (Some e)"
    by (simp_all add: r_def)
  obtain x sched2 where f: "Fail ops cvt (later 5 clk) (ID job) r (sched\<lparr>sch_store := s1\<rparr>) = (x, sched2)"
    by fastforce
  have "process_claimed ops cvt clk job p sched = (p\<lparr>pool_failed := wrap64 (pool_failed p + 1)\<rparr>, sched2)"
    using assms(3,4) f r(1) by (simp add: process_claimed_def FailJob_def Let_def r_def)
  then have "sched' = sched2" using assms(5) by (simp add: finish_job_def)
  moreover have "inv s1" "jobs_of s1 = jobs_of (sch_store sched)"
    using executeWithRecovery_frame [OF assms(1,4)] by simp_all
  ultimately show ?thesis using Fail_reliable [OF _ _ f] assms(2) r by auto
qed

end

text \<open>
  C12: a shutdown fails the jobs that are being executed. The context of the pool, and with it
  that of every handler, is the one that the signal cancels. A handler that obeys it returns
  the context's error, and then the job is stored as failed, with the category of a system
  error, or as a dead letter if it was its last attempt; in neither case is it tried again,
  however many attempts are left.
\<close>

theorem interrupted_job_fails:
  assumes "reliable_store ops sinv storable jobs_of results_of checkpoints_of idem_of"
    and "sinv (sch_store sched)" and "jobs_of (sch_store sched) (ID job) = Some j"
    and "map_of (handlers p) (JobType job) = Some h"
    and "executeWithRecovery ops (clk 2 + (if Timeout job = 0 then JobTimeout (pool_config p) else Timeout job))
      (createJobContext job) h (sch_store sched) = (Some Canceled, jc, s1)"
    and "finish_job ops cvt clk job p sched = (p', sched')"
  shows "\<exists>j'. jobs_of (sch_store sched') = (jobs_of (sch_store sched))(ID job \<mapsto> j') \<and>
    State j' = (if Attempt j < MaxAttempts j then JobStateFailed else JobStateDeadLetter) \<and>
    Attempt j' = Attempt j \<and> ErrorCategory j' = ''system'' \<and> LastError j' = ''context canceled'' \<and>
    IsTerminal j'"
proof -
  obtain r where r: "ResultError r = Error Canceled" "ResultCategory r = ClassifyError (Some Canceled)"
    "jobs_of (sch_store sched') = (jobs_of (sch_store sched))(ID job \<mapsto> failed_job cvt (later 5 clk) r j)"
    using reliable_store.finish_job_error [OF assms] by blast
  have "ClassifyError (Some Canceled) = ErrorCategorySystem" by code_simp
  with r show ?thesis
    by (intro exI [of _ "failed_job cvt (later 5 clk) r j"]) (simp add: failed_job_def IsTerminal_def)
qed

text \<open>The sleep handler of \<open>gq serve\<close>, stopped at its third step, on the first of three attempts.\<close>

theorem interrupted_job_fails_witness:
  "let job = (example_job 1 JobStateRunning 0)\<lparr>Attempt := 1\<rparr>;
     h = sleep_handler (\<lambda>t. None) (\<lambda>d t n. if n = 3 then Some Canceled else None);
     sched' = snd (finish_job (memory_store (\<lambda>m. m)) cvt_amd64 (\<lambda>_. 50) job (example_pool h) (example_sched [job]))
   in \<exists>j'. mem_jobs_of (sch_store sched') 1 = Some j' \<and> State j' = JobStateFailed \<and>
        LastError j' = ''context canceled'' \<and> Attempt j' < MaxAttempts job"
proof -
  let ?job = "(example_job 1 JobStateRunning 0)\<lparr>Attempt := 1\<rparr>"
  let ?h = "sleep_handler (\<lambda>t. None) (\<lambda>d t n. if n = 3 then Some Canceled else None)"
  let ?ops = "memory_store (\<lambda>m. m)" and ?sched = "example_sched [?job]" and ?p = "example_pool ?h"
  obtain p' sched' where f: "finish_job ?ops cvt_amd64 (\<lambda>_. 50) ?job ?p ?sched = (p', sched')" by fastforce
  have h: "map_of (handlers ?p) (JobType ?job) = Some ?h" by simp
  have run: "\<exists>jc s1. executeWithRecovery ?ops d (createJobContext ?job) ?h (sch_store ?sched) = (Some Canceled, jc, s1)" for d
    by (simp add: sleep_handler_def executeWithRecovery_def upt_rec)
  then obtain jc s1 where x: "executeWithRecovery ?ops (50 + (if Timeout ?job = 0 then JobTimeout (pool_config ?p) else Timeout ?job))
      (createJobContext ?job) ?h (sch_store ?sched) = (Some Canceled, jc, s1)" by blast
  have j: "mem_jobs_of (sch_store ?sched) (ID ?job) = Some ?job" "mem_inv (sch_store ?sched)"
    by (simp_all add: mem_jobs_of_def)
  from interrupted_job_fails [OF mem_reliable.reliable_store_axioms j(2,1) h x f] f show ?thesis
    by (auto simp: Let_def)
qed

end
