(* ===== verification/GQ_Cli.thy ===== *)
theory GQ_Cli
  imports GQ_Api
begin

text \<open>
  The client commands (\<open>cli/submit.go\<close>, \<open>cli/status.go\<close>, \<open>cli/root.go\<close>): what they send to
  the server and what they print, as functions of the flags and of the server's answer. The
  texts of JSON, of times and of tables, the file system and the HTTP client are the
  parameters of \<open>cli_env\<close>; the formats of \<open>fmt\<close> that the commands use are written out.
\<close>

section \<open>Values and the environment\<close>

text \<open>
  What the commands marshal and unmarshal: an unmarshalled value has no \<open>JInt\<close> and no \<open>JRaw\<close>
  (a \<open>json.RawMessage\<close>), its numbers are \<open>float64\<close>.
\<close>

datatype json =
    JNull
  | JBool bool
  | JNumber float64
  | JString string
  | JArray "json list"
  | JObject "(string, json) gomap"
  | JInt int
  | JRaw bytes

text \<open>A request as \<open>http.NewRequest\<close> and \<open>Header.Set\<close> make it.\<close>

record cli_request =
  cli_method :: string
  cli_url :: string
  cli_headers :: "(string, string) gomap"
  cli_body :: bytes

text \<open>
  Errors are given by their texts. \<open>Unmarshal_list\<close> decodes into the list answer's struct,
  whose \<open>Jobs\<close> can be nil; \<open>reformat_time\<close> is \<open>time.Parse\<close> for RFC 3339 followed by
  \<open>Format("2006-01-02 15:04:05")\<close>; \<open>tab_Flush\<close> is what a \<open>tabwriter\<close> makes of a text;
  \<open>bad_verb\<close> is how \<open>fmt\<close> prints a value that does not fit the verb, and \<open>fmt_v\<close> its \<open>%v\<close>
  of a value that is neither a string nor nil.
\<close>

record cli_env =
  ReadStdin :: "string + bytes"
  ReadFile :: "string \<Rightarrow> string + bytes"
  Marshal :: "json \<Rightarrow> string + bytes"
  MarshalIndent :: "json \<Rightarrow> string"
  Unmarshal :: "bytes \<Rightarrow> string + (string, json) gomap"
  Unmarshal_list :: "bytes \<Rightarrow> string + ((string, json) gomap list option \<times> int)"
  NewRequest :: "cli_request \<Rightarrow> string option"
  Do :: "cli_request \<Rightarrow> string + (nat \<times> bytes)"
  reformat_time :: "string \<Rightarrow> string option"
  tab_Flush :: "string \<Rightarrow> string"
  bad_verb :: "string \<Rightarrow> json \<Rightarrow> string"
  fmt_v :: "json \<Rightarrow> string"

text \<open>The error that a command returns, if any, and what it has printed.\<close>

type_synonym cli_outcome = "string option \<times> string"

definition Println :: "string \<Rightarrow> string" where
  "Println s = s @ [CHR 0x0A]"

section \<open>Formats\<close>

text \<open>\<open>%.nf\<close> of a \<open>float64\<close>: the exact value rounded half to even.\<close>

definition fmt_f :: "nat \<Rightarrow> float64 \<Rightarrow> string" where
  "fmt_f n x =
     (case x of
        NaN \<Rightarrow> ''NaN''
      | Inf neg \<Rightarrow> if neg then ''-Inf'' else ''+Inf''
      | Fin q \<Rightarrow>
          (let k = nat (round_half_even (\<bar>q\<bar> * 10 ^ n));
               fraction = digits (k mod 10 ^ n)
           in (if q < 0 then ''-'' else '''') @ digits (k div 10 ^ n) @
              (if n = 0 then ''''
               else ''.'' @ replicate (n - length fraction) (CHR ''0'') @ fraction)))"

definition float_pos :: "float64 \<Rightarrow> bool" where
  "float_pos x = (case x of NaN \<Rightarrow> False | Inf neg \<Rightarrow> \<not> neg | Fin q \<Rightarrow> 0 < q)"

definition printf_s :: "cli_env \<Rightarrow> json option \<Rightarrow> string" where
  "printf_s env v =
     (case v of
        None \<Rightarrow> ''%!s(<nil>)''
      | Some JNull \<Rightarrow> ''%!s(<nil>)''
      | Some (JString s) \<Rightarrow> s
      | Some w \<Rightarrow> bad_verb env ''%s'' w)"

definition printf_f0 :: "cli_env \<Rightarrow> json option \<Rightarrow> string" where
  "printf_f0 env v =
     (case v of
        None \<Rightarrow> ''%!f(<nil>)''
      | Some JNull \<Rightarrow> ''%!f(<nil>)''
      | Some (JNumber x) \<Rightarrow> fmt_f 0 x
      | Some w \<Rightarrow> bad_verb env ''%.0f'' w)"

definition sprintf_v :: "cli_env \<Rightarrow> json option \<Rightarrow> string" where
  "sprintf_v env v =
     (case v of
        None \<Rightarrow> ''<nil>''
      | Some JNull \<Rightarrow> ''<nil>''
      | Some (JString s) \<Rightarrow> s
      | Some w \<Rightarrow> fmt_v env w)"

text \<open>
  \<open>fmt.Sscanf(tag, "%s=%s", \<dots>)\<close>: a \<open>%s\<close> skips spaces and takes everything up to the next
  space; the rest of the text must then begin with the format's next character. The result is
  the number of values read, and the values. A newline before a value is an error.
\<close>

definition is_space :: "char \<Rightarrow> bool" where
  "is_space c \<longleftrightarrow> c \<in> {CHR '' '', CHR 0x09, CHR 0x0A, CHR 0x0B, CHR 0x0C, CHR 0x0D, CHR 0x85, CHR 0xA0}"

fun SkipSpace :: "string \<Rightarrow> string option" where
  "SkipSpace [] = Some []"
| "SkipSpace (c # cs) =
     (if c = CHR 0x0A then None
      else if is_space c then SkipSpace cs
      else Some (c # cs))"

definition scan_s :: "string \<Rightarrow> (string \<times> string) option" where
  "scan_s s =
     (case SkipSpace s of
        None \<Rightarrow> None
      | Some [] \<Rightarrow> None
      | Some t \<Rightarrow> Some (takeWhile (\<lambda>c. \<not> is_space c) t, dropWhile (\<lambda>c. \<not> is_space c) t))"

definition Sscanf_tag :: "string \<Rightarrow> nat \<times> string \<times> string" where
  "Sscanf_tag tag =
     (case scan_s tag of
        None \<Rightarrow> (0, '''', '''')
      | Some (key, rest) \<Rightarrow>
          (case rest of
             [] \<Rightarrow> (1, key, '''')
           | c # cs \<Rightarrow>
               if c = CHR ''='' then (case scan_s cs of None \<Rightarrow> (1, key, '''') | Some (v, _) \<Rightarrow> (2, key, v))
               else (1, key, '''')))"

section \<open>Flags\<close>

text \<open>The data directory, also a flag of the root command, belongs to the serve command.\<close>

record GlobalFlags =
  cfgFile :: string
  serverAddr :: string
  apiKey :: string
  verbose :: bool

definition default_global_flags :: GlobalFlags where
  "default_global_flags =
     \<lparr>cfgFile = '''', serverAddr = ''http://localhost:8080'', apiKey = '''', verbose = False\<rparr>"

record SubmitFlags =
  jobType :: string
  jobPayload :: string
  jobPayloadFile :: string
  jobPriority :: int
  jobDelay :: string
  jobTimeout :: string
  jobMaxAttempts :: int
  jobIdempotency :: string
  jobCorrelation :: string
  jobTags :: "string list"

text \<open>The type has no default: it must be given.\<close>

definition default_submit_flags :: "string \<Rightarrow> SubmitFlags" where
  "default_submit_flags t = \<lparr>jobType = t, jobPayload = ''{}'', jobPayloadFile = '''', jobPriority = 2,
     jobDelay = '''', jobTimeout = '''', jobMaxAttempts = 3, jobIdempotency = '''',
     jobCorrelation = '''', jobTags = []\<rparr>"

record StatusFlags =
  statusState :: string
  statusType :: string
  statusFormat :: string
  showStats :: bool

definition default_status_flags :: StatusFlags where
  "default_status_flags =
     \<lparr>statusState = '''', statusType = '''', statusFormat = ''table'', showStats = False\<rparr>"

definition version_text :: "string \<Rightarrow> string \<Rightarrow> string \<Rightarrow> string" where
  "version_text Version BuildDate GitCommit =
     Println (''GopherQueue '' @ Version) @ Println (''  Built:  '' @ BuildDate) @
     Println (''  Commit: '' @ GitCommit)"

section \<open>Requests\<close>

text \<open>What the commands have in common: the key, the call, and the body of the answer.\<close>

definition key_header :: "GlobalFlags \<Rightarrow> (string, string) gomap" where
  "key_header g = (if apiKey g \<noteq> '''' then [(''X-API-Key'', apiKey g)] else [])"

definition server_error :: "nat \<Rightarrow> bytes \<Rightarrow> string" where
  "server_error status body = ''server returned '' @ fmt_d (int status) @ '': '' @ body"

definition get_request :: "GlobalFlags \<Rightarrow> string \<Rightarrow> cli_request" where
  "get_request g url = \<lparr>cli_method = ''GET'', cli_url = url, cli_headers = key_header g, cli_body = []\<rparr>"

definition http_get :: "cli_env \<Rightarrow> string \<Rightarrow> cli_request \<Rightarrow> string + (nat \<times> bytes)" where
  "http_get env failure req =
     (case NewRequest env req of
        Some e \<Rightarrow> Inl e
      | None \<Rightarrow>
          (case Do env req of
             Inl e \<Rightarrow> Inl (failure @ '': '' @ e)
           | Inr answer \<Rightarrow> Inr answer))"

section \<open>Submitting\<close>

definition read_payload :: "cli_env \<Rightarrow> SubmitFlags \<Rightarrow> string + bytes" where
  "read_payload env f =
     (if jobPayloadFile f \<noteq> ''''
      then (if jobPayloadFile f = ''-''
            then (case ReadStdin env of
                    Inl e \<Rightarrow> Inl (''failed to read from stdin: '' @ e)
                  | Inr b \<Rightarrow> Inr b)
            else (case ReadFile env (jobPayloadFile f) of
                    Inl e \<Rightarrow> Inl (''failed to read payload file: '' @ e)
                  | Inr b \<Rightarrow> Inr b))
      else Inr (jobPayload f))"

definition parse_tags :: "string list \<Rightarrow> (string, string) gomap" where
  "parse_tags tags =
     fold (\<lambda>tag m. let (n, key, v) = Sscanf_tag tag in if n = 2 then AList.update key v m else m) tags []"

definition submit_body :: "SubmitFlags \<Rightarrow> bytes \<Rightarrow> (string, json) gomap" where
  "submit_body f payload =
     (let tags = parse_tags (jobTags f)
      in [(''type'', JString (jobType f)), (''payload'', JRaw payload),
          (''priority'', JInt (jobPriority f)), (''max_attempts'', JInt (jobMaxAttempts f))] @
         (if jobDelay f \<noteq> '''' then [(''delay'', JString (jobDelay f))] else []) @
         (if jobTimeout f \<noteq> '''' then [(''timeout'', JString (jobTimeout f))] else []) @
         (if jobIdempotency f \<noteq> '''' then [(''idempotency_key'', JString (jobIdempotency f))] else []) @
         (if jobCorrelation f \<noteq> '''' then [(''correlation_id'', JString (jobCorrelation f))] else []) @
         (if tags \<noteq> [] then [(''tags'', JObject (map (\<lambda>(k, v). (k, JString v)) tags))] else []))"

definition submit_request :: "cli_env \<Rightarrow> GlobalFlags \<Rightarrow> SubmitFlags \<Rightarrow> string + cli_request" where
  "submit_request env g f =
     (case read_payload env f of
        Inl e \<Rightarrow> Inl e
      | Inr payload \<Rightarrow>
          (case Marshal env (JObject (submit_body f payload)) of
             Inl e \<Rightarrow> Inl (''failed to marshal request: '' @ e)
           | Inr jsonBody \<Rightarrow>
               (let req = \<lparr>cli_method = ''POST'', cli_url = serverAddr g @ ''/api/v1/jobs'',
                      cli_headers = (''Content-Type'', ''application/json'') # key_header g,
                      cli_body = jsonBody\<rparr>
                in case NewRequest env req of
                     Some e \<Rightarrow> Inl (''failed to create request: '' @ e)
                   | None \<Rightarrow> Inr req)))"

definition print_submitted :: "cli_env \<Rightarrow> GlobalFlags \<Rightarrow> bytes \<Rightarrow> string" where
  "print_submitted env g body =
     (case Unmarshal env body of
        Inl e \<Rightarrow> Println body
      | Inr result \<Rightarrow>
          if verbose g then Println (MarshalIndent env (JObject result))
          else (case map_of result ''id'' of
                  Some (JString i) \<Rightarrow> Println (''Job submitted: '' @ i)
                | _ \<Rightarrow> []) @
               (case map_of result ''state'' of
                  Some (JString st) \<Rightarrow> Println (''  State: '' @ st)
                | _ \<Rightarrow> []))"

definition runSubmit :: "cli_env \<Rightarrow> GlobalFlags \<Rightarrow> SubmitFlags \<Rightarrow> cli_outcome" where
  "runSubmit env g f =
     (case submit_request env g f of
        Inl e \<Rightarrow> (Some e, [])
      | Inr req \<Rightarrow>
          (case Do env req of
             Inl e \<Rightarrow> (Some (''failed to submit job: '' @ e), [])
           | Inr (status, body) \<Rightarrow>
               if status \<noteq> 201 \<and> status \<noteq> 200 then (Some (server_error status body), [])
               else (None, print_submitted env g body)))"

section \<open>The server's answers as JSON objects\<close>

text \<open>
  The objects that a client unmarshals from the answers, by the tags of the fields: integers
  arrive as \<open>float64\<close>; \<open>time_text\<close> is the JSON text of a time.
\<close>

definition JCount :: "int \<Rightarrow> json" where
  "JCount n = JNumber (float_of_int n)"

definition response_object :: "(instant \<Rightarrow> string) \<Rightarrow> JobResponse \<Rightarrow> (string, json) gomap" where
  "response_object time_text r =
     (let when = (\<lambda>name t. case t of None \<Rightarrow> [] | Some u \<Rightarrow> [(name, JString (time_text u))])
      in [(''id'', JString (RespID r)), (''type'', JString (RespType r)), (''state'', JString (RespState r)),
          (''priority'', JCount (RespPriority r)), (''attempt'', JCount (RespAttempt r)),
          (''max_attempts'', JCount (RespMaxAttempts r))] @
         (if RespProgress r \<noteq> Fin 0 then [(''progress'', JNumber (RespProgress r))] else []) @
         (if RespProgressMessage r \<noteq> '''' then [(''progress_message'', JString (RespProgressMessage r))] else []) @
         (case RespTags r of
            None \<Rightarrow> []
          | Some m \<Rightarrow> if m = [] then [] else [(''tags'', JObject (map (\<lambda>(k, v). (k, JString v)) m))]) @
         [(''created_at'', JString (time_text (RespCreatedAt r))),
          (''updated_at'', JString (time_text (RespUpdatedAt r)))] @
         when ''scheduled_at'' (RespScheduledAt r) @ when ''started_at'' (RespStartedAt r) @
         when ''completed_at'' (RespCompletedAt r) @
         (if RespLastError r \<noteq> '''' then [(''last_error'', JString (RespLastError r))] else []))"

definition queue_object :: "(instant \<Rightarrow> string) \<Rightarrow> QueueStats \<Rightarrow> (string, json) gomap" where
  "queue_object time_text q =
     [(''pending'', JCount (QPending q)), (''scheduled'', JCount (QScheduled q)),
      (''running'', JCount (QRunning q)), (''delayed'', JCount (QDelayed q)),
      (''completed'', JCount (QCompleted q)), (''failed'', JCount (QFailed q)),
      (''dead_letter'', JCount (QDeadLetter q)), (''cancelled'', JCount (QCancelled q)),
      (''total_jobs'', JCount (QTotalJobs q)), (''storage_bytes'', JCount (QStorageBytes q)),
      (''timestamp'', JString (time_text (QTimestamp q)))]"

definition pool_object :: "(uuid \<Rightarrow> string) \<Rightarrow> PoolStats \<Rightarrow> (string, json) gomap" where
  "pool_object uuid_str w =
     [(''total_workers'', JCount (TotalWorkers w)), (''active_workers'', JCount (ActiveWorkers w)),
      (''idle_workers'', JCount (IdleWorkers w)), (''queued_jobs'', JCount (QueuedJobs w)),
      (''processed_jobs'', JCount (ProcessedJobs w)), (''succeeded_jobs'', JCount (SucceededJobs w)),
      (''failed_jobs'', JCount (FailedJobs w)), (''retried_jobs'', JCount (RetriedJobs w)),
      (''avg_processing_time'', JCount (AvgProcessingTime w)),
      (''max_processing_time'', JCount (MaxProcessingTime w)),
      (''p99_processing_time'', JCount (P99ProcessingTime w)),
      (''processing_ids'', if ProcessingIDs w = [] then JNull
         else JArray (map (\<lambda>i. JString (uuid_str i)) (ProcessingIDs w))),
      (''uptime'', JCount (Uptime w)), (''healthy'', JBool (PoolHealthy w))]"

definition stats_object ::
    "(instant \<Rightarrow> string) \<Rightarrow> (uuid \<Rightarrow> string) \<Rightarrow> QueueStats \<Rightarrow> PoolStats option \<Rightarrow> (string, json) gomap" where
  "stats_object time_text uuid_str q w =
     [(''queue'', JObject (queue_object time_text q)),
      (''workers'', case w of None \<Rightarrow> JNull | Some p \<Rightarrow> JObject (pool_object uuid_str p))]"

section \<open>Status\<close>

text \<open>One line of a report: a label and a value.\<close>

definition line :: "string \<Rightarrow> string \<Rightarrow> string" where
  "line label v = Println (label @ v)"

definition job_report :: "cli_env \<Rightarrow> (string, json) gomap \<Rightarrow> string" where
  "job_report env job =
     line ''Job: '' (printf_s env (map_of job ''id'')) @
     line ''  Type:        '' (printf_s env (map_of job ''type'')) @
     line ''  State:       '' (printf_s env (map_of job ''state'')) @
     line ''  Priority:    '' (printf_f0 env (map_of job ''priority'')) @
     line ''  Attempts:    ''
       (printf_f0 env (map_of job ''attempt'') @ ''/'' @ printf_f0 env (map_of job ''max_attempts'')) @
     line ''  Created:     '' (printf_s env (map_of job ''created_at'')) @
     line ''  Updated:     '' (printf_s env (map_of job ''updated_at'')) @
     (case map_of job ''progress'' of
        Some (JNumber x) \<Rightarrow> if float_pos x then line ''  Progress:    '' (fmt_f 1 x @ ''%'') else []
      | _ \<Rightarrow> []) @
     (case map_of job ''progress_message'' of
        Some (JString m) \<Rightarrow> if m \<noteq> '''' then line ''  Message:     '' m else []
      | _ \<Rightarrow> []) @
     (case map_of job ''last_error'' of
        Some (JString e) \<Rightarrow> if e \<noteq> '''' then line ''  Last Error:  '' e else []
      | _ \<Rightarrow> [])"

definition getJobStatus :: "cli_env \<Rightarrow> GlobalFlags \<Rightarrow> StatusFlags \<Rightarrow> string \<Rightarrow> cli_outcome" where
  "getJobStatus env g f jobID =
     (case http_get env ''failed to get job status'' (get_request g (serverAddr g @ ''/api/v1/jobs/'' @ jobID)) of
        Inl e \<Rightarrow> (Some e, [])
      | Inr (status, body) \<Rightarrow>
          if status = 404 then (Some (''job not found: '' @ jobID), [])
          else if status \<noteq> 200 then (Some (server_error status body), [])
          else (case Unmarshal env body of
                  Inl e \<Rightarrow> (Some e, [])
                | Inr job \<Rightarrow>
                    if statusFormat f = ''json'' then (None, Println (MarshalIndent env (JObject job)))
                    else (None, job_report env job)))"

text \<open>The filters go into the URL as they are.\<close>

fun join :: "string \<Rightarrow> string list \<Rightarrow> string" where
  "join sep [] = []"
| "join sep [s] = s"
| "join sep (s # t # ts) = s @ sep @ join sep (t # ts)"

definition list_url :: "GlobalFlags \<Rightarrow> StatusFlags \<Rightarrow> string" where
  "list_url g f =
     (let url = serverAddr g @ ''/api/v1/jobs'';
          params = (if statusState f \<noteq> '''' then [''state='' @ statusState f] else []) @
                   (if statusType f \<noteq> '''' then [''type='' @ statusType f] else [])
      in if params \<noteq> [] then url @ ''?'' @ join ''&'' params else url)"

text \<open>A slice with bounds outside the string panics.\<close>

definition truncate_text :: "string \<Rightarrow> int \<Rightarrow> string go_result" where
  "truncate_text s limit =
     (if int (length s) \<le> limit then Returns s
      else if limit - 3 < 0 then Panics ''slice bounds out of range''
      else Returns (take (nat (limit - 3)) s @ ''...''))"

definition formatTime :: "cli_env \<Rightarrow> json option \<Rightarrow> string" where
  "formatTime env t =
     (case t of
        Some (JString str) \<Rightarrow> (case reformat_time env str of None \<Rightarrow> str | Some u \<Rightarrow> u)
      | _ \<Rightarrow> ''-'')"

definition tabbed :: "string list \<Rightarrow> string" where
  "tabbed cells = Println (join [CHR 0x09] cells)"

definition table_row :: "cli_env \<Rightarrow> (string, json) gomap \<Rightarrow> string go_result" where
  "table_row env job =
     (case truncate_text (sprintf_v env (map_of job ''id'')) 36 of
        Panics m \<Rightarrow> Panics m
      | Returns i \<Rightarrow> Returns (tabbed [i, sprintf_v env (map_of job ''type''),
          sprintf_v env (map_of job ''state''), printf_f0 env (map_of job ''priority''),
          printf_f0 env (map_of job ''attempt'') @ ''/'' @ printf_f0 env (map_of job ''max_attempts''),
          formatTime env (map_of job ''created_at'')]))"

fun table_rows :: "cli_env \<Rightarrow> (string, json) gomap list \<Rightarrow> string go_result" where
  "table_rows env [] = Returns []"
| "table_rows env (job # jobs) =
     (case table_row env job of
        Panics m \<Rightarrow> Panics m
      | Returns r \<Rightarrow> (case table_rows env jobs of Panics m \<Rightarrow> Panics m | Returns rs \<Rightarrow> Returns (r @ rs)))"

definition listJobs_cmd :: "cli_env \<Rightarrow> GlobalFlags \<Rightarrow> StatusFlags \<Rightarrow> cli_outcome go_result" where
  "listJobs_cmd env g f =
     (case http_get env ''failed to list jobs'' (get_request g (list_url g f)) of
        Inl e \<Rightarrow> Returns (Some e, [])
      | Inr (status, body) \<Rightarrow>
          if status \<noteq> 200 then Returns (Some (server_error status body), [])
          else (case Unmarshal_list env body of
                  Inl e \<Rightarrow> Returns (Some e, [])
                | Inr (jobs, n) \<Rightarrow>
                    if statusFormat f = ''json''
                    then Returns (None, Println (MarshalIndent env (JObject
                      [(''jobs'', case jobs of None \<Rightarrow> JNull | Some js \<Rightarrow> JArray (map JObject js)),
                       (''count'', JInt n)])))
                    else (case jobs of
                            None \<Rightarrow> Returns (None, Println ''No jobs found'')
                          | Some [] \<Rightarrow> Returns (None, Println ''No jobs found'')
                          | Some js \<Rightarrow>
                              (case table_rows env js of
                                 Panics m \<Rightarrow> Panics m
                               | Returns rows \<Rightarrow> Returns (None, tab_Flush env
                                   (tabbed [''ID'', ''TYPE'', ''STATE'', ''PRIORITY'', ''ATTEMPTS'', ''CREATED''] @
                                    tabbed [''--'', ''----'', ''-----'', ''--------'', ''--------'', ''-------''] @
                                    rows) @
                                  Println ([CHR 0x0A] @ ''Total: '' @ fmt_d n @ '' jobs''))))))"

definition stats_report :: "cli_env \<Rightarrow> (string, json) gomap \<Rightarrow> string" where
  "stats_report env stats =
     Println ''GopherQueue Statistics'' @ Println ''======================'' @
     (case map_of stats ''queue'' of
        Some (JObject q) \<Rightarrow>
          Println ([CHR 0x0A] @ ''Queue:'') @
          line ''  Pending:     '' (printf_f0 env (map_of q ''pending'')) @
          line ''  Scheduled:   '' (printf_f0 env (map_of q ''scheduled'')) @
          line ''  Running:     '' (printf_f0 env (map_of q ''running'')) @
          line ''  Delayed:     '' (printf_f0 env (map_of q ''delayed'')) @
          line ''  Completed:   '' (printf_f0 env (map_of q ''completed'')) @
          line ''  Failed:      '' (printf_f0 env (map_of q ''failed'')) @
          line ''  Dead Letter: '' (printf_f0 env (map_of q ''dead_letter'')) @
          line ''  Total:       '' (printf_f0 env (map_of q ''total_jobs''))
      | _ \<Rightarrow> []) @
     (case map_of stats ''workers'' of
        Some (JObject w) \<Rightarrow>
          Println ([CHR 0x0A] @ ''Workers:'') @
          line ''  Total:       '' (printf_f0 env (map_of w ''total_workers'')) @
          line ''  Active:      '' (printf_f0 env (map_of w ''active_workers'')) @
          line ''  Idle:        '' (printf_f0 env (map_of w ''idle_workers'')) @
          line ''  Processed:   '' (printf_f0 env (map_of w ''processed_jobs'')) @
          line ''  Succeeded:   '' (printf_f0 env (map_of w ''succeeded_jobs'')) @
          line ''  Failed:      '' (printf_f0 env (map_of w ''failed_jobs''))
      | _ \<Rightarrow> [])"

definition showServerStats :: "cli_env \<Rightarrow> GlobalFlags \<Rightarrow> StatusFlags \<Rightarrow> cli_outcome" where
  "showServerStats env g f =
     (case http_get env ''failed to get stats'' (get_request g (serverAddr g @ ''/api/v1/stats'')) of
        Inl e \<Rightarrow> (Some e, [])
      | Inr (status, body) \<Rightarrow>
          if status \<noteq> 200 then (Some (server_error status body), [])
          else (case Unmarshal env body of
                  Inl e \<Rightarrow> (Some e, [])
                | Inr stats \<Rightarrow>
                    if statusFormat f = ''json'' then (None, Println (MarshalIndent env (JObject stats)))
                    else (None, stats_report env stats)))"

definition runStatus ::
    "cli_env \<Rightarrow> GlobalFlags \<Rightarrow> StatusFlags \<Rightarrow> string list \<Rightarrow> cli_outcome go_result" where
  "runStatus env g f args =
     (if showStats f then Returns (showServerStats env g f)
      else (case args of
              jobID # _ \<Rightarrow> Returns (getJobStatus env g f jobID)
            | [] \<Rightarrow> listJobs_cmd env g f))"

text \<open>
  \<open>Execute\<close>: the error of the command that ran goes to standard error (after what cobra
  itself prints), and the exit status is 1.
\<close>

definition Execute :: "cli_outcome \<Rightarrow> nat \<times> string \<times> string" where
  "Execute outcome =
     (case outcome of (None, out) \<Rightarrow> (0, out, []) | (Some e, out) \<Rightarrow> (1, out, Println e))"

end
