(* ===== verification/GQ_Cli_Props.thy ===== *)
theory GQ_Cli_Props
  imports GQ_Cli GQ_Live
begin

text \<open>
  Properties of the client commands: tags are never sent, no command panics, what a status
  query prints of the server's answer.
\<close>

section \<open>Tags\<close>

lemma Sscanf_tag_one: "fst (Sscanf_tag tag) \<le> 1"
proof (cases "scan_s tag")
  case None
  then show ?thesis by (simp add: Sscanf_tag_def)
next
  case (Some kr)
  obtain key rest where kr: "kr = (key, rest)" by (cases kr)
  from Some kr obtain t where "rest = dropWhile (\<lambda>c. \<not> is_space c) t"
    unfolding scan_s_def by (cases "SkipSpace tag"; cases "the (SkipSpace tag)") (fastforce simp del: dropWhile.simps takeWhile.simps)+
  with hd_dropWhile [of "\<lambda>c. \<not> is_space c" t] have sp: "rest = c # cs \<Longrightarrow> is_space c" for c cs by simp
  show ?thesis
  proof (cases rest)
    case Nil
    with Some kr show ?thesis by (simp add: Sscanf_tag_def)
  next
    case (Cons c cs)
    from sp [OF this] have "c \<noteq> CHR ''=''" by (auto simp: is_space_def)
    with Some kr Cons show ?thesis by (simp add: Sscanf_tag_def)
  qed
qed

lemma parse_tags_empty: "parse_tags tags = []"
proof -
  have step: "(let (n, key, v) = Sscanf_tag tag in if n = 2 then AList.update key v m else m) = m" for tag and m :: "(string, string) gomap"
    using Sscanf_tag_one [of tag] by (auto split: prod.split)
  show ?thesis unfolding parse_tags_def by (induction tags) (simp_all add: step)
qed

text \<open>
  C31: the \<open>--tag\<close> option of the submit command has no effect: whatever tags are given, the
  command sends, prints and returns what it does without any, and the request it sends has no
  tags.
\<close>

theorem submit_drops_tags:
  "runSubmit env g f = runSubmit env g (f\<lparr>jobTags := []\<rparr>) \<and>
   map_of (submit_body f payload) ''tags'' = None"
proof
  have "submit_body (f\<lparr>jobTags := []\<rparr>) p = submit_body f p" for p
    by (simp add: submit_body_def parse_tags_empty)
  moreover have "read_payload env (f\<lparr>jobTags := []\<rparr>) = read_payload env f" by (simp add: read_payload_def)
  ultimately show "runSubmit env g f = runSubmit env g (f\<lparr>jobTags := []\<rparr>)"
    by (simp only: runSubmit_def submit_request_def)
  show "map_of (submit_body f payload) ''tags'' = None"
    by (simp add: submit_body_def parse_tags_empty)
qed

section \<open>No panic\<close>

lemma table_rows_return: "\<exists>rows. table_rows env jobs = Returns rows"
proof (induction jobs)
  case (Cons job jobs)
  have "\<exists>r. table_row env job = Returns r" by (simp add: table_row_def truncate_text_def)
  with Cons.IH show ?case by auto
qed simp

lemma truncate_text_bounds:
  "3 \<le> limit \<Longrightarrow> \<exists>t. truncate_text s limit = Returns t \<and> int (length t) \<le> limit \<and>
    (int (length s) \<le> limit \<longrightarrow> t = s)"
  by (auto simp: truncate_text_def)

text \<open>
  A status query always returns, whatever the server answers: shortening the
  identifiers for the table never slices out of range.
\<close>

theorem runStatus_returns: "\<exists>err out. runStatus env g f args = Returns (err, out)"
proof -
  have "\<exists>outcome. listJobs_cmd env g f = Returns outcome"
  proof (cases "http_get env ''failed to list jobs'' (get_request g (list_url g f))")
    case (Inl e)
    then show ?thesis by (simp add: listJobs_cmd_def)
  next
    case (Inr answer)
    obtain status body where answer: "answer = (status, body)" by (cases answer)
    show ?thesis
    proof (cases "Unmarshal_list env body")
      case (Inl e)
      with Inr answer show ?thesis by (simp add: listJobs_cmd_def)
    next
      case jobs: (Inr jn)
      obtain jobs n where jn: "jn = (jobs, n)" by (cases jn)
      show ?thesis
      proof (cases jobs)
        case None
        with Inr answer jobs jn show ?thesis by (simp add: listJobs_cmd_def)
      next
        case (Some js)
        obtain rows where "table_rows env js = Returns rows" using table_rows_return by blast
        with Inr answer jobs jn Some show ?thesis by (cases js) (simp_all add: listJobs_cmd_def)
      qed
    qed
  qed
  then show ?thesis
    by (cases args) (auto simp: runStatus_def intro: prod.exhaust)
qed

section \<open>What a status query shows\<close>

lemma fmt_f_int: "\<bar>k\<bar> < 2 ^ 53 \<Longrightarrow> fmt_f 0 (float_of_int k) = fmt_d k"
proof -
  assume "\<bar>k\<bar> < 2 ^ 53"
  then have "float_of_int k = Fin (of_int k)" by (simp add: float_of_int_def round64_int_exact)
  moreover have "\<bar>of_int k :: rat\<bar> = of_int \<bar>k\<bar>" by simp
  ultimately show ?thesis
    by (simp only: fmt_f_def float64.case Let_def power_0 mult_1_right round_half_even_int)
      (simp add: fmt_d_def)
qed

text \<open>A line for an integer that a \<open>float64\<close> holds exactly.\<close>

lemma printf_f0_count: "\<bar>k\<bar> < 2 ^ 53 \<Longrightarrow> printf_f0 env (Some (JCount k)) = fmt_d k"
  by (simp add: printf_f0_def JCount_def fmt_f_int)

text \<open>
  What \<open>gq status\<close> prints for a job that the server has answered with: identifier, type,
  state, the numbers in full as long as they are below 2 to the 53, the two times, and the
  last error if there is one.
\<close>

theorem status_shows_job:
  assumes "\<bar>RespPriority r\<bar> < 2 ^ 53" and "\<bar>RespAttempt r\<bar> < 2 ^ 53" and "\<bar>RespMaxAttempts r\<bar> < 2 ^ 53"
    and "Do env (get_request g (serverAddr g @ ''/api/v1/jobs/'' @ i)) = Inr (200, body)"
    and "NewRequest env (get_request g (serverAddr g @ ''/api/v1/jobs/'' @ i)) = None"
    and "Unmarshal env body = Inr (response_object time_text r)"
    and "showStats f = False" and "statusFormat f = ''table''"
    and "RespProgress r = Fin 0" and "RespProgressMessage r = ''''"
  shows "runStatus env g f [i] = Returns (None,
    line ''Job: '' (RespID r) @ line ''  Type:        '' (RespType r) @
    line ''  State:       '' (RespState r) @ line ''  Priority:    '' (fmt_d (RespPriority r)) @
    line ''  Attempts:    '' (fmt_d (RespAttempt r) @ ''/'' @ fmt_d (RespMaxAttempts r)) @
    line ''  Created:     '' (time_text (RespCreatedAt r)) @
    line ''  Updated:     '' (time_text (RespUpdatedAt r)) @
    (if RespLastError r \<noteq> '''' then line ''  Last Error:  '' (RespLastError r) else []))"
proof -
  let ?m = "response_object time_text r"
  have "map_of ?m ''id'' = Some (JString (RespID r))" "map_of ?m ''type'' = Some (JString (RespType r))"
    "map_of ?m ''state'' = Some (JString (RespState r))"
    "map_of ?m ''priority'' = Some (JCount (RespPriority r))"
    "map_of ?m ''attempt'' = Some (JCount (RespAttempt r))"
    "map_of ?m ''max_attempts'' = Some (JCount (RespMaxAttempts r))"
    by (simp_all add: response_object_def Let_def)
  moreover have "map_of ?m ''created_at'' = Some (JString (time_text (RespCreatedAt r)))"
    "map_of ?m ''updated_at'' = Some (JString (time_text (RespUpdatedAt r)))"
    "map_of ?m ''progress'' = None" "map_of ?m ''progress_message'' = None"
    "map_of ?m ''last_error'' = (if RespLastError r \<noteq> '''' then Some (JString (RespLastError r)) else None)"
    using assms(9,10) by (simp_all add: response_object_def Let_def split: option.split)
  ultimately have "job_report env ?m =
    line ''Job: '' (RespID r) @ line ''  Type:        '' (RespType r) @
    line ''  State:       '' (RespState r) @ line ''  Priority:    '' (fmt_d (RespPriority r)) @
    line ''  Attempts:    '' (fmt_d (RespAttempt r) @ ''/'' @ fmt_d (RespMaxAttempts r)) @
    line ''  Created:     '' (time_text (RespCreatedAt r)) @
    line ''  Updated:     '' (time_text (RespUpdatedAt r)) @
    (if RespLastError r \<noteq> '''' then line ''  Last Error:  '' (RespLastError r) else [])"
    using assms(1-3) by (simp add: job_report_def printf_f0_count printf_s_def)
  then show ?thesis
    using assms(4-8) by (simp add: runStatus_def getJobStatus_def http_get_def)
qed

section \<open>The client and the server\<close>

text \<open>
  A client's request as the server receives it: net/http sends the path of the URL behind the
  server's address, and the headers. The answer comes back as its status and the encoding of
  its value; a handler that panics closes the connection.
\<close>

definition received :: "GlobalFlags \<Rightarrow> cli_request \<Rightarrow> api_request" where
  "received g q = \<lparr>Header_Get = (\<lambda>n. case map_of (cli_headers q) n of None \<Rightarrow> '''' | Some v \<Rightarrow> v),
     ctx_principal = None, Method = cli_method q, Path = drop (length (serverAddr g)) (cli_url q),
     Query = (\<lambda>k. ''''), Body = cli_body q\<rparr>"

fun answered :: "(answer \<Rightarrow> bytes) \<Rightarrow> 's exchange \<Rightarrow> string + (nat \<times> bytes)" where
  "answered encode (Answered resp srv) = Inr (code resp, encode (content resp))"
| "answered encode (Panicked m) = Inl ''EOF''"
| "answered encode Waiting = Inl ''timeout''"
| "answered encode (Streaming ch text h srv) = Inl ''timeout''"

text \<open>Parameters to compute with: an encoding of the identifier and the state of a job.\<close>

definition example_encode :: "answer \<Rightarrow> bytes" where
  "example_encode a =
     (case a of
        JobAnswer r \<Rightarrow> replicate (length (RespState r)) (CHR ''x'') @ CHR ''|'' # RespState r @ RespID r
      | _ \<Rightarrow> [])"

definition example_decode :: "bytes \<Rightarrow> string + (string, json) gomap" where
  "example_decode b =
     (let n = length (takeWhile (\<lambda>c. c = CHR ''x'') b)
      in Inr [(''id'', JString (drop (2 * n + 1) b)), (''state'', JString (take n (drop (n + 1) b)))])"

definition example_cli :: "(cli_request \<Rightarrow> string + (nat \<times> bytes)) \<Rightarrow> cli_env" where
  "example_cli call = \<lparr>ReadStdin = Inr [], ReadFile = (\<lambda>f. Inl ''no such file''), Marshal = (\<lambda>v. Inr ''{}''),
     MarshalIndent = (\<lambda>v. ''{}''), Unmarshal = example_decode, Unmarshal_list = (\<lambda>b. Inr (None, 0)),
     NewRequest = (\<lambda>q. None), Do = call, reformat_time = (\<lambda>t. None), tab_Flush = (\<lambda>t. t),
     bad_verb = (\<lambda>v w. ''%!''), fmt_v = (\<lambda>v. [])\<rparr>"

definition plain_env :: api_env where
  "plain_env = example_env\<lparr>dec_submit := (\<lambda>b. Some ((example_submit b)\<lparr>ReqType := ''echo'', ReqDelay := ''''\<rparr>))\<rparr>"

lemma example_decode_encode:
  "example_decode (example_encode (JobAnswer r)) = Inr [(''id'', JString (RespID r)), (''state'', JString (RespState r))]"
proof -
  have "takeWhile (\<lambda>c. c = CHR ''x'') (example_encode (JobAnswer r)) =
      replicate (length (RespState r)) (CHR ''x'')"
    by (simp add: example_encode_def takeWhile_append)
  then show ?thesis by (simp add: example_decode_def example_encode_def Let_def mult_2)
qed

lemma created_ScheduledAt:
  "ReqDelay req = '''' \<Longrightarrow> ReqScheduledAt req = None \<Longrightarrow>
     ScheduledAt (createJobFromRequest env newID clk req) = 0"
  by (simp add: created_fold zero_Job_def case_option_same if_distrib [of ScheduledAt]
      option.case_distrib [of ScheduledAt] cong: if_cong option.case_cong)



theorem status_shows_job_witness:
  "let r = zero_JobResponse\<lparr>RespID := ''one'', RespType := ''echo'', RespState := ''failed'', RespPriority := 2,
        RespAttempt := 1, RespMaxAttempts := 3, RespLastError := ''no''\<rparr>;
      env = (example_cli (\<lambda>q. Inr (200, [])))\<lparr>Unmarshal := (\<lambda>b. Inr (response_object (\<lambda>t. ''now'') r))\<rparr>
   in runStatus env default_global_flags default_status_flags [''one''] = Returns (None,
     line ''Job: '' ''one'' @ line ''  Type:        '' ''echo'' @ line ''  State:       '' ''failed'' @
     line ''  Priority:    '' ''2'' @ line ''  Attempts:    '' ''1/3'' @ line ''  Created:     '' ''now'' @
     line ''  Updated:     '' ''now'' @ line ''  Last Error:  '' ''no'')"
proof -
  let ?r = "zero_JobResponse\<lparr>RespID := ''one'', RespType := ''echo'', RespState := ''failed'', RespPriority := 2,
        RespAttempt := 1, RespMaxAttempts := 3, RespLastError := ''no''\<rparr>"
  let ?env = "(example_cli (\<lambda>q. Inr (200, [])))\<lparr>Unmarshal := (\<lambda>b. Inr (response_object (\<lambda>t. ''now'') ?r))\<rparr>"
  have nums: "\<bar>RespPriority ?r\<bar> < 2 ^ 53" "\<bar>RespAttempt ?r\<bar> < 2 ^ 53" "\<bar>RespMaxAttempts ?r\<bar> < 2 ^ 53" by simp_all
  have env: "Do ?env q = Inr (200, [])" "NewRequest ?env q = None"
    "Unmarshal ?env [] = Inr (response_object (\<lambda>t. ''now'') ?r)" for q by (simp_all add: example_cli_def)
  have f: "showStats default_status_flags = False" "statusFormat default_status_flags = ''table''"
    "RespProgress ?r = Fin 0" "RespProgressMessage ?r = ''''"
    by (simp_all add: default_status_flags_def zero_JobResponse_def)
  have "fmt_d 1 = ''1''" "fmt_d 2 = ''2''" "fmt_d 3 = ''3''" by code_simp+
  with status_shows_job [OF nums env f, of default_global_flags "''one''"] show ?thesis
    by (simp add: zero_JobResponse_def)
qed

text \<open>
  \<open>gq status --stats\<close> shows the server's statistics: for each of the counters it prints, the
  field it looks up is the one the server sends, and the number is printed in full as long as
  it is below 2 to the 53; the workers are left out when the server has no pool.
\<close>

theorem stats_show_counters:
  assumes "\<forall>n \<in> {QPending q, QScheduled q, QRunning q, QDelayed q, QCompleted q, QFailed q, QDeadLetter q,
      QTotalJobs q}. \<bar>n\<bar> < 2 ^ 53"
    and "\<forall>p. w = Some p \<longrightarrow> (\<forall>n \<in> {TotalWorkers p, ActiveWorkers p, IdleWorkers p, ProcessedJobs p,
      SucceededJobs p, FailedJobs p}. \<bar>n\<bar> < 2 ^ 53)"
  shows "stats_report env (stats_object time_text uuid_str q w) =
    Println ''GopherQueue Statistics'' @ Println ''======================'' @
    Println ([CHR 0x0A] @ ''Queue:'') @
    line ''  Pending:     '' (fmt_d (QPending q)) @ line ''  Scheduled:   '' (fmt_d (QScheduled q)) @
    line ''  Running:     '' (fmt_d (QRunning q)) @ line ''  Delayed:     '' (fmt_d (QDelayed q)) @
    line ''  Completed:   '' (fmt_d (QCompleted q)) @ line ''  Failed:      '' (fmt_d (QFailed q)) @
    line ''  Dead Letter: '' (fmt_d (QDeadLetter q)) @ line ''  Total:       '' (fmt_d (QTotalJobs q)) @
    (case w of None \<Rightarrow> []
     | Some p \<Rightarrow> Println ([CHR 0x0A] @ ''Workers:'') @
         line ''  Total:       '' (fmt_d (TotalWorkers p)) @ line ''  Active:      '' (fmt_d (ActiveWorkers p)) @
         line ''  Idle:        '' (fmt_d (IdleWorkers p)) @ line ''  Processed:   '' (fmt_d (ProcessedJobs p)) @
         line ''  Succeeded:   '' (fmt_d (SucceededJobs p)) @ line ''  Failed:      '' (fmt_d (FailedJobs p)))"
proof -
  have maps: "map_of (stats_object time_text uuid_str q w) ''queue'' = Some (JObject (queue_object time_text q))"
    "map_of (stats_object time_text uuid_str q w) ''workers'' =
      Some (case w of None \<Rightarrow> JNull | Some p \<Rightarrow> JObject (pool_object uuid_str p))"
    by (simp_all add: stats_object_def)
  show ?thesis
    unfolding stats_report_def maps using assms
    by (cases w) (simp_all add: queue_object_def pool_object_def printf_f0_count)
qed

theorem stats_show_counters_witness:
  "\<exists>rest. stats_report (example_cli (\<lambda>q. Inl '''')) (stats_object (\<lambda>t. ''now'') (\<lambda>i. '''')
     (zero_QueueStats\<lparr>QPending := 12\<rparr>) None) =
     Println ''GopherQueue Statistics'' @ Println ''======================'' @
     Println ([CHR 0x0A] @ ''Queue:'') @ line ''  Pending:     '' ''12'' @ rest"
proof -
  have "fmt_d 12 = ''12''" by code_simp
  with stats_show_counters [of "zero_QueueStats\<lparr>QPending := 12\<rparr>" None "example_cli (\<lambda>q. Inl '''')"
      "\<lambda>t. ''now''" "\<lambda>i. ''''"]
  show ?thesis by (simp add: zero_QueueStats_def)
qed

end
