(* ===== verification/Spec2Isabelle.thy ===== *)
theory Spec2Isabelle
  imports GQ_Bolt_Props GQ_Backoff GQ_Worker_Props GQ_Recovery GQ_Security GQ_Metrics GQ_Lifecycle GQ_Content GQ_Shutdown
    GQ_Cli_Props
begin

text \<open>
  GopherQueue: a verification library for the job queue.

  The program. A client submits jobs over HTTP; the server stores them and answers; the
  scheduler's loop takes pending jobs from the store in batches and sends them into a channel;
  the worker pool takes them from there, claims each in the store, runs the handler registered
  for its type and reports the outcome to the scheduler, which writes it back; a recovery
  manager looks for jobs that have been running for too long. All components share one store,
  in memory or in a bbolt file. The command \<open>gq serve\<close> puts them together; \<open>gq submit\<close> and
  \<open>gq status\<close> are clients.

  Theories and sources.

  \<^item> \<open>GQ_Prelude\<close>: 64-bit arithmetic (\<open>wrap64\<close>), instants and durations as integers in
    nanoseconds, clocks as sequences of readings, results that may panic, Go maps as lists of
    entries with a range order chosen by the environment. \<open>GQ_Float\<close>: the part of
    \<open>float64\<close> that is used. \<open>GQ_Sort\<close>: what the program relies on of \<open>sort.Slice\<close>.
  \<^item> \<open>GQ_Errors\<close> (\<open>core/errors.go\<close>): error values, wrapping, classification, retriability.
  \<^item> \<open>GQ_Job\<close> (\<open>core/job.go\<close>, \<open>core/options.go\<close>): the job record, its states and options.
  \<^item> \<open>GQ_Store\<close> (\<open>persistence/store.go\<close>): the interface as a record of operations, filters,
    statistics, and the contract of a store as the locale \<open>job_store\<close>: 32 laws over abstract
    contents (jobs, results, checkpoints, idempotency keys).
  \<^item> \<open>GQ_Memory\<close> (\<open>persistence/memory_store.go\<close>) and \<open>GQ_Bolt\<close>, \<open>GQ_Bolt_Props\<close>
    (\<open>persistence/bolt_store.go\<close>): the two stores, one definition per method, each shown to
    implement the contract. The durable store runs over a parametric database with
    transactions and a parametric gob codec (\<open>bolt_env\<close>, locale \<open>bolt_backend\<close>); \<open>ref_env\<close>
    is an instance that computes. \<open>GQ_Open\<close>: opening and closing the file, and the first cycle
    after a restart.
  \<^item> \<open>GQ_Scheduler\<close>, \<open>GQ_Sched_Props\<close>, \<open>GQ_Backoff\<close> (\<open>scheduler/scheduler.go\<close>): start and
    stop, the two loops (\<open>scheduleJobs\<close>, \<open>processDelayedJobs\<close>; a tick is a step of
    \<open>sched_step\<close>), enqueueing, reports, cancellation, retry and the retry delay.
  \<^item> \<open>GQ_Worker\<close>, \<open>GQ_Worker_Props\<close> (\<open>worker/pool.go\<close>, \<open>simple_pool.go\<close>,
    \<open>dispatcher.go\<close>): the pool, its goroutines as steps, processing a job with its panic
    recovery; a handler is a tree of calls of its job context that ends in a return or panic.
  \<^item> \<open>GQ_Recovery\<close> (\<open>recovery/manager.go\<close>): the scans and their loop.
  \<^item> \<open>GQ_Security\<close> (\<open>security/auth.go\<close>), \<open>GQ_Metrics\<close> (\<open>observability/metrics.go\<close>).
  \<^item> \<open>GQ_Events\<close>, \<open>GQ_Api\<close>, \<open>GQ_Api_Props\<close>, \<open>GQ_Server_Props\<close> (\<open>api/handlers.go\<close>,
    \<open>api/server.go\<close>): the event bus, every handler, routes, middleware, and \<open>ServeHTTP\<close>, the
    server as a function of a request and its state. JSON bodies are decoded by the parameters
    of \<open>api_env\<close>; an answer is a status, headers and a value.
  \<^item> \<open>GQ_Serve\<close> (\<open>cli/serve.go\<close>): \<open>runServe\<close> builds and starts the components, \<open>shutdown\<close>
    stops them, and the three example handlers. \<open>GQ_System\<close>: the running program as a step
    relation \<open>rt_step\<close> in which the goroutines of all components interleave;
    \<open>GQ_System_Props\<close>, \<open>GQ_Once\<close>, \<open>GQ_Live\<close>: its properties; \<open>GQ_Drain\<close>: how it comes to rest, and
    the accounts of the pool; \<open>GQ_Content\<close>: what it leaves of a job, and its types; \<open>GQ_Crash\<close>:
    the program over crashes and restarts (\<open>rt_lives\<close>); \<open>GQ_Lifecycle\<close>: the life of a job as an abstract
    machine (\<open>moves\<close>, \<open>queue_step\<close>) that it implements; \<open>GQ_Shutdown\<close>: the listener's start and
    stop, the shutdown, and the jobs that it interrupts.
  \<^item> \<open>GQ_Cli\<close>, \<open>GQ_Cli_Props\<close> (\<open>cli/root.go\<close>, \<open>submit.go\<close>, \<open>status.go\<close>): what the client
    commands send and print, and the JSON objects of the server's answers.

  Conventions. Go's integers are HOL integers; arithmetic that can leave 64 bits goes through
  \<open>wrap64\<close>. A string is a list of bytes. An operation that reads the clock gets the sequence
  of its readings. A store operation takes and returns the store's state; locks are not
  modelled because each operation holds the store's lock (or runs in one transaction)
  throughout, so that operations are atomic and interleaving happens between them. A channel
  is a list with the capacity of its \<open>make\<close>; a send to a full channel takes the \<open>default\<close>
  branch the source has. Every function is total by structural recursion; no fuel is used. A
  handler that never returns is not modelled: a handler's tree is finite, and what it waits for
  is the environment's choice.

  What is shown.

  \<^item> Stores: both refine the contract on returned values and contents, errors included; the
    idempotency index stays exact through any writes; claims are exclusive; cleanups remove
    exactly what has expired; the durable store lists pending jobs by priority.
  \<^item> Scheduler: order and bound of what a cycle sends; the outcome of complete, fail, cancel and
    retry on every branch; the retry delay with its overflow; that jobs waiting for a retry are
    never sent.
  \<^item> Workers and recovery: processing a job from claim to report for any handler; a second copy of
    a job has no effect; checkpoints survive; a scan recovers exactly the stuck jobs, and the
    manager's loop touches no other.
  \<^item> Server: no request makes it panic or breaks the invariant of its store and bus; submitting on
    every branch and idempotently; batches; waiting; streams deliver in order; who is let in.
  \<^item> The whole program, over stores whose writes do not fail (locale \<open>reliable_store\<close>, which the
    in-memory store and the durable store over \<open>ref_env\<close> satisfy): from an empty store, whatever
    interleaves and however often it crashes between two steps and is started again, no job is
    claimed twice unless a client asks for a retry, and a claimed job never waits again (the
    invariant \<open>once_inv\<close>, kept by every step and every restart); a job that was running at a
    crash is lost; each step makes a move of the abstract machine of job states, on every job;
    without new work every run ends, in a state in which nothing is left half done
    (the order \<open>drain_order\<close>, a lexicographic measure that each step makes smaller); a submitted
    job can reach its result.
  \<^item> The whole program, over any store that keeps the contract: stored jobs are what was submitted
    and keep their types (\<open>rt_all\<close>, for each property of jobs that progress does not take away); a
    restart sends every waiting job; a cycle in single steps is \<open>scheduleJobs\<close>. Over any store at
    all: the pool's statistics are true, the shutdown works, \<open>gq serve\<close> never asks for a key. A
    cancellation can be overtaken by a cycle, a completion by a recovery scan, and a shutdown fails
    the jobs that obey it.
  \<^item> Clients: \<open>gq submit\<close> against \<open>gq serve\<close> end to end; what status queries print.

  Not modelled, and why: the calls that open and close the database file and those that serve
  HTTP are parameters; signals are I/O, their effect on the jobs' contexts is the environment's
  choice of how a wait ends; the texts of JSON, of durations, times and UUIDs, of tables, and flag
  parsing are library code and parameters; the mux's redirects of unclean paths; errors of
  \<open>db.View\<close> on a closed database; an unbuffered scheduler channel (batch size 0), which
  \<open>gq serve\<close> never makes; the waiting of \<open>Stop\<close> for goroutines; logging; a crash inside a
  step, between the two transactions of a report; the Python and TypeScript clients, which are
  not part of the Go program. The theorems on claims need a store whose writes do not fail: where
  a write can fail, a job that was sent but could not be marked as scheduled is listed as pending
  again while a worker runs it.
\<close>

end
